theory Spec2Isabelle
  imports Complex_Main "HOL-Library.Word" "HOL-Library.Multiset"
begin

section \<open>FlowSync: ingestion Lambda, capture extension and the linking core\<close>

text \<open>
  A shallow embedding of the parts of FlowSync that the verified properties are about:
  \<^item> \<^verbatim>\<open>infra/lambda/ingestion/index.js\<close>: token helpers, authentication, event
    validation and the \<^verbatim>\<open>POST /api/v1/events\<close> route;
  \<^item> \<^verbatim>\<open>extension/src/gitUtils.ts\<close> and \<^verbatim>\<open>extension/src/extension.ts\<close>: diff capture and
    the push handler of the VS Code extension;
  \<^item> \<^verbatim>\<open>backend/bedrockApi.js\<close> and \<^verbatim>\<open>backend/promptUtil.js\<close>: the extraction request;
  \<^item> the linking engine, branch resolver and semantic search, whose Python Lambdas
    (\<^verbatim>\<open>lambda/ai_processing\<close>, \<^verbatim>\<open>lambda/mcp\<close>, \<^verbatim>\<open>lambda/query\<close>) are referenced by the
    CDK stack only; they are modelled from the specification.

  A JavaScript string is modelled as a \<^typ>\<open>string\<close>: one \<^typ>\<open>char\<close> per UTF-16 code
  unit, restricted to the code units below 256, so that \<^const>\<open>length\<close> is the
  \<^verbatim>\<open>.length\<close> of the source. A string that may be \<^verbatim>\<open>undefined\<close> or \<^verbatim>\<open>null\<close> is a
  \<^typ>\<open>string option\<close>. The body of a request to the ingestion route is the JSON value
  it parses to, of whatever type.
\<close>

subsection \<open>JavaScript strings\<close>

text \<open>\<^verbatim>\<open>!x\<close> for a string that may be undefined: undefined, null and the empty string
  are falsy.\<close>

definition falsy :: "string option \<Rightarrow> bool" where
  "falsy x = (case x of None \<Rightarrow> True | Some s \<Rightarrow> s = [])"

text \<open>\<^verbatim>\<open>${x}\<close> in a template literal.\<close>

definition tmpl :: "string option \<Rightarrow> string" where
  "tmpl x = (case x of None \<Rightarrow> ''undefined'' | Some s \<Rightarrow> s)"

text \<open>\<^verbatim>\<open>s.split(sep)\<close> for a one-character separator: every part, empty ones included.\<close>

fun split_on :: "char \<Rightarrow> string \<Rightarrow> string list" where
  "split_on sep [] = [[]]"
| "split_on sep (c # cs) =
     (if c = sep then [] # split_on sep cs
      else (case split_on sep cs of
              [] \<Rightarrow> [[c]]
            | p # ps \<Rightarrow> (c # p) # ps))"

text \<open>\<^verbatim>\<open>parts[i]\<close>: undefined past the end.\<close>

definition at_index :: "'a list \<Rightarrow> nat \<Rightarrow> 'a option" where
  "at_index xs i = (if i < length xs then Some (xs ! i) else None)"

text \<open>\<^verbatim>\<open>s.includes(sub)\<close>.\<close>

fun includes_str :: "string \<Rightarrow> string \<Rightarrow> bool" where
  "includes_str sub [] = (sub = [])"
| "includes_str sub (c # cs) = (take (length sub) (c # cs) = sub \<or> includes_str sub cs)"

text \<open>\<^verbatim>\<open>s.trim()\<close>: white space and line terminators among the code units below 256.\<close>

definition is_ws :: "char \<Rightarrow> bool" where
  "is_ws c = (of_char c \<in> {9, 10, 11, 12, 13, 32, 160 :: nat})"

definition trim :: "string \<Rightarrow> string" where
  "trim s = rev (dropWhile is_ws (rev (dropWhile is_ws s)))"

subsection \<open>The validation regular expressions\<close>

text \<open>
  \<^verbatim>\<open>UUID_V4     = /^[0-9a-f]{8}-[0-9a-f]{4}-4[0-9a-f]{3}-[89ab][0-9a-f]{3}-[0-9a-f]{12}$/i\<close>
  \<^verbatim>\<open>COMMIT_HASH = /^[0-9a-f]{40}$/i\<close>
  \<^verbatim>\<open>ISO_8601    = /^\d{4}-\d{2}-\d{2}T\d{2}:\d{2}:\d{2}(\.\d+)?(Z|[+-]\d{2}:?\d{2})$/\<close>

  Each pattern is anchored at both ends and is matched left to right by consumers that
  return the rest of the input. No pattern needs backtracking: what follows an optional
  or repeated part never starts with a character that part accepts.
\<close>

definition is_digit :: "char \<Rightarrow> bool" where
  "is_digit c = (c \<in> set ''0123456789'')"

text \<open>\<^verbatim>\<open>[0-9a-f]\<close> under the \<^verbatim>\<open>i\<close> flag.\<close>

definition is_hex :: "char \<Rightarrow> bool" where
  "is_hex c = (c \<in> set ''0123456789abcdefABCDEF'')"

text \<open>\<^verbatim>\<open>[89ab]\<close> under the \<^verbatim>\<open>i\<close> flag.\<close>

definition is_variant :: "char \<Rightarrow> bool" where
  "is_variant c = (c \<in> set ''89abAB'')"

text \<open>\<^verbatim>\<open>cls{n}\<close>: exactly \<open>n\<close> characters of a class.\<close>

fun rep :: "(char \<Rightarrow> bool) \<Rightarrow> nat \<Rightarrow> string \<Rightarrow> string option" where
  "rep p 0 s = Some s"
| "rep p (Suc n) [] = None"
| "rep p (Suc n) (c # cs) = (if p c then rep p n cs else None)"

text \<open>A literal character.\<close>

fun lit :: "char \<Rightarrow> string \<Rightarrow> string option" where
  "lit a [] = None"
| "lit a (c # cs) = (if c = a then Some cs else None)"

text \<open>Sequencing of consumers.\<close>

definition andThen :: "string option \<Rightarrow> (string \<Rightarrow> string option) \<Rightarrow> string option" where
  "andThen r f = (case r of None \<Rightarrow> None | Some s \<Rightarrow> f s)"

definition UUID_V4 :: "string \<Rightarrow> bool" where
  "UUID_V4 s =
     (andThen (andThen (andThen (andThen (andThen (andThen (andThen (andThen (andThen (andThen
        (rep is_hex 8 s) (lit CHR ''-''))
        (rep is_hex 4)) (lit CHR ''-''))
        (lit CHR ''4'')) (rep is_hex 3)) (lit CHR ''-''))
        (rep is_variant 1)) (rep is_hex 3)) (lit CHR ''-''))
        (rep is_hex 12) = Some [])"

definition COMMIT_HASH :: "string \<Rightarrow> bool" where
  "COMMIT_HASH s = (rep is_hex 40 s = Some [])"

text \<open>\<^verbatim>\<open>(\.\d+)?\<close>\<close>

definition opt_fraction :: "string \<Rightarrow> string option" where
  "opt_fraction s =
     (case s of
        [] \<Rightarrow> Some []
      | c # cs \<Rightarrow>
          if c = CHR ''.'' then
            (case cs of
               [] \<Rightarrow> None
             | d # ds \<Rightarrow> if is_digit d then Some (dropWhile is_digit ds) else None)
          else Some (c # cs))"

text \<open>\<^verbatim>\<open>:?\<close>\<close>

definition opt_colon :: "string \<Rightarrow> string option" where
  "opt_colon s = (case s of [] \<Rightarrow> Some [] | c # cs \<Rightarrow> if c = CHR '':'' then Some cs else Some (c # cs))"

text \<open>\<^verbatim>\<open>(Z|[+-]\d{2}:?\d{2})\<close>\<close>

definition zone :: "string \<Rightarrow> string option" where
  "zone s =
     (case s of
        [] \<Rightarrow> None
      | c # cs \<Rightarrow>
          if c = CHR ''Z'' then Some cs
          else if c = CHR ''+'' \<or> c = CHR ''-'' then
            andThen (andThen (rep is_digit 2 cs) opt_colon) (rep is_digit 2)
          else None)"

definition ISO_8601 :: "string \<Rightarrow> bool" where
  "ISO_8601 s =
     (andThen (andThen (andThen (andThen (andThen (andThen (andThen (andThen (andThen (andThen
        (andThen (andThen
        (rep is_digit 4 s) (lit CHR ''-''))
        (rep is_digit 2)) (lit CHR ''-''))
        (rep is_digit 2)) (lit CHR ''T''))
        (rep is_digit 2)) (lit CHR '':''))
        (rep is_digit 2)) (lit CHR '':''))
        (rep is_digit 2)) opt_fraction) zone = Some [])"

subsection \<open>Token helpers\<close>

text \<open>
  \<^verbatim>\<open>buf.toString('hex')\<close> and \<^verbatim>\<open>Buffer.from(s, 'hex')\<close>. Decoding stops at the first pair
  that is not two hexadecimal digits and drops an odd last character.
\<close>

type_synonym byte = "8 word"

definition hexdigit :: "nat \<Rightarrow> char" where
  "hexdigit n = ''0123456789abcdef'' ! (n mod 16)"

definition toHex :: "byte list \<Rightarrow> string" where
  "toHex bs = concat (map (\<lambda>b. [hexdigit (unat b div 16), hexdigit (unat b mod 16)]) bs)"

definition hexval :: "char \<Rightarrow> nat option" where
  "hexval c =
     (let n = of_char c :: nat in
      if 48 \<le> n \<and> n \<le> 57 then Some (n - 48)
      else if 97 \<le> n \<and> n \<le> 102 then Some (n - 87)
      else if 65 \<le> n \<and> n \<le> 70 then Some (n - 55)
      else None)"

fun fromHex :: "string \<Rightarrow> byte list" where
  "fromHex (a # b # rest) =
     (case hexval a of
        None \<Rightarrow> []
      | Some x \<Rightarrow>
          (case hexval b of
             None \<Rightarrow> []
           | Some y \<Rightarrow> of_nat (16 * x + y) # fromHex rest))"
| "fromHex [a] = []"
| "fromHex [] = []"

text \<open>What the source throws.\<close>

datatype error = TypeError | RangeError | ServiceError

text \<open>\<^verbatim>\<open>crypto.timingSafeEqual(a, b)\<close>: throws a RangeError when the byte lengths differ.\<close>

definition timingSafeEqual :: "byte list \<Rightarrow> byte list \<Rightarrow> error + bool" where
  "timingSafeEqual a b = (if length a \<noteq> length b then Inl RangeError else Inr (a = b))"

text \<open>
  \<^verbatim>\<open>crypto.scryptSync(plaintext, salt, keylen)\<close> is the parameter \<open>kdf\<close> of the helpers:
  a function of the password, the salt and the key length. \<^verbatim>\<open>crypto.randomBytes(16)\<close>
  is the parameter \<open>salt_bytes\<close> of \<open>hashToken\<close>.
\<close>

type_synonym scrypt = "string \<Rightarrow> string \<Rightarrow> nat \<Rightarrow> byte list"

definition hashToken :: "scrypt \<Rightarrow> byte list \<Rightarrow> string \<Rightarrow> string" where
  "hashToken kdf salt_bytes plaintext =
     (let salt = toHex salt_bytes;
          hash = toHex (kdf plaintext salt 64)
      in salt @ '':'' @ hash)"

definition verifyToken :: "scrypt \<Rightarrow> string \<Rightarrow> string option \<Rightarrow> error + bool" where
  "verifyToken kdf plaintext stored =
     (let parts = split_on CHR '':'' (case stored of None \<Rightarrow> [] | Some s \<Rightarrow> s);
          salt = at_index parts 0;
          hash = at_index parts 1
      in if falsy salt \<or> falsy hash then Inr False
         else
           (let candidate = toHex (kdf plaintext (tmpl salt) 64)
            in timingSafeEqual (fromHex (tmpl hash)) (fromHex candidate)))"

subsection \<open>JSON values and the coercions the backend applies to them\<close>

text \<open>
  The ingestion route parses the request body with \<^verbatim>\<open>JSON.parse\<close> and reads the result
  without checking types, so the model keeps the parsed value as it is. A number is a
  rational or an infinity (\<^verbatim>\<open>JSON.parse('1e999')\<close>); an object is the list of its
  properties, each key once.
\<close>

datatype jsnum = Finite rat | PlusInfinity | MinusInfinity

datatype json =
  JNull
| JBool bool
| JNum jsnum
| JStr string
| JArr "json list"
| JObj "(string \<times> json) list"

text \<open>A value that may be \<^verbatim>\<open>undefined\<close>.\<close>

type_synonym jsval = "json option"

text \<open>
  Two conversions of ECMAScript are parameters of the model: \<^verbatim>\<open>Number::toString\<close> and
  \<^verbatim>\<open>StringToNumber\<close> (\<open>None\<close> for \<^verbatim>\<open>NaN\<close>). The code reaches them only on values that are
  not strings: a number under a regular expression or in a template literal, and the
  \<^verbatim>\<open>length\<close> property of an object compared with 255.
\<close>

record ecma =
  numberToString :: "jsnum \<Rightarrow> string"
  stringToNumber :: "string \<Rightarrow> jsnum option"

text \<open>
  \<^verbatim>\<open>v.name\<close> for a value \<open>v\<close> that is not \<^verbatim>\<open>null\<close> and one of the names the code reads
  (\<^verbatim>\<open>eventId\<close>, \<^verbatim>\<open>payload\<close>, \<^verbatim>\<open>commitHash\<close>, ...): the property of an object, \<^verbatim>\<open>undefined\<close>
  on anything else. No prototype defines one of these names.
\<close>

definition property :: "json \<Rightarrow> string \<Rightarrow> jsval" where
  "property v name = (case v of JObj kvs \<Rightarrow> map_of kvs name | _ \<Rightarrow> None)"

text \<open>Truthiness: \<^verbatim>\<open>undefined\<close>, \<^verbatim>\<open>null\<close>, \<^verbatim>\<open>false\<close>, \<^verbatim>\<open>0\<close> and \<^verbatim>\<open>''\<close> are falsy; arrays and
  objects are truthy.\<close>

definition truthy :: "jsval \<Rightarrow> bool" where
  "truthy x =
     (case x of
        None \<Rightarrow> False
      | Some JNull \<Rightarrow> False
      | Some (JBool b) \<Rightarrow> b
      | Some (JNum n) \<Rightarrow> n \<noteq> Finite 0
      | Some (JStr s) \<Rightarrow> s \<noteq> []
      | Some (JArr xs) \<Rightarrow> True
      | Some (JObj kvs) \<Rightarrow> True)"

text \<open>\<^verbatim>\<open>x == null\<close>, and the test of \<^verbatim>\<open>x ?? y\<close>.\<close>

definition nullish :: "jsval \<Rightarrow> bool" where
  "nullish x = (x = None \<or> x = Some JNull)"

text \<open>\<^verbatim>\<open>x ?? null\<close>\<close>

definition or_null :: "jsval \<Rightarrow> json" where
  "or_null x = (case x of None \<Rightarrow> JNull | Some v \<Rightarrow> v)"

text \<open>
  \<^verbatim>\<open>ToString\<close>. An array is joined with commas, \<^verbatim>\<open>null\<close> elements giving the empty
  string. An object gives \<^verbatim>\<open>[object Object]\<close>, unless it has a property \<^verbatim>\<open>toString\<close> of
  its own: that property is not callable, \<^verbatim>\<open>valueOf\<close> does not return a primitive, and
  the conversion throws a TypeError.
\<close>

fun ToString :: "ecma \<Rightarrow> json \<Rightarrow> error + string"
  and join_elements :: "ecma \<Rightarrow> json list \<Rightarrow> error + string" where
  "ToString js JNull = Inr ''null''"
| "ToString js (JBool b) = Inr (if b then ''true'' else ''false'')"
| "ToString js (JNum n) = Inr (numberToString js n)"
| "ToString js (JStr s) = Inr s"
| "ToString js (JArr xs) = join_elements js xs"
| "ToString js (JObj kvs) =
     (if map_of kvs ''toString'' = None then Inr ''[object Object]'' else Inl TypeError)"
| "join_elements js [] = Inr []"
| "join_elements js (x # xs) =
     (case (if x = JNull then Inr [] else ToString js x) of
        Inl e \<Rightarrow> Inl e
      | Inr a \<Rightarrow>
          if xs = [] then Inr a
          else (case join_elements js xs of
                  Inl e \<Rightarrow> Inl e
                | Inr b \<Rightarrow> Inr (a @ '','' @ b)))"

text \<open>\<^verbatim>\<open>${x}\<close> in a template literal, and the argument of \<^verbatim>\<open>RegExp.prototype.test\<close>.\<close>

definition ToStringV :: "ecma \<Rightarrow> jsval \<Rightarrow> error + string" where
  "ToStringV js x = (case x of None \<Rightarrow> Inr ''undefined'' | Some v \<Rightarrow> ToString js v)"

text \<open>\<^verbatim>\<open>re.test(x)\<close> for one of the patterns above.\<close>

definition test :: "(string \<Rightarrow> bool) \<Rightarrow> ecma \<Rightarrow> jsval \<Rightarrow> error + bool" where
  "test re js x = (case ToStringV js x of Inl e \<Rightarrow> Inl e | Inr s \<Rightarrow> Inr (re s))"

definition num_gt :: "jsnum \<Rightarrow> rat \<Rightarrow> bool" where
  "num_gt x n = (case x of Finite r \<Rightarrow> n < r | PlusInfinity \<Rightarrow> True | MinusInfinity \<Rightarrow> False)"

text \<open>
  \<^verbatim>\<open>x > n\<close> for a number \<open>n\<close>: \<open>x\<close> is converted to a primitive with hint number and then
  to a number; a comparison with \<^verbatim>\<open>NaN\<close> is false.
\<close>

definition greater :: "ecma \<Rightarrow> jsval \<Rightarrow> rat \<Rightarrow> error + bool" where
  "greater js x n =
     (case x of
        None \<Rightarrow> Inr False
      | Some JNull \<Rightarrow> Inr (n < 0)
      | Some (JBool b) \<Rightarrow> Inr (n < (if b then 1 else 0))
      | Some (JNum y) \<Rightarrow> Inr (num_gt y n)
      | Some (JStr s) \<Rightarrow>
          Inr (case stringToNumber js s of None \<Rightarrow> False | Some y \<Rightarrow> num_gt y n)
      | Some (JArr xs) \<Rightarrow>
          (case ToString js (JArr xs) of
             Inl e \<Rightarrow> Inl e
           | Inr s \<Rightarrow> Inr (case stringToNumber js s of None \<Rightarrow> False | Some y \<Rightarrow> num_gt y n))
      | Some (JObj kvs) \<Rightarrow>
          if map_of kvs ''toString'' = None then Inr False else Inl TypeError)"

text \<open>\<^verbatim>\<open>v.length > n\<close> for a truthy \<open>v\<close>: the length of a string or an array, the \<^verbatim>\<open>length\<close>
  property of an object, \<^verbatim>\<open>undefined\<close> on a number or a boolean.\<close>

definition length_exceeds :: "ecma \<Rightarrow> json \<Rightarrow> nat \<Rightarrow> error + bool" where
  "length_exceeds js v n =
     (case v of
        JStr s \<Rightarrow> Inr (n < length s)
      | JArr xs \<Rightarrow> Inr (n < length xs)
      | JObj kvs \<Rightarrow> greater js (map_of kvs ''length'') (of_nat n)
      | JNull \<Rightarrow> Inl TypeError
      | _ \<Rightarrow> Inr False)"

text \<open>\<^verbatim>\<open>v.includes('..')\<close> for a truthy \<open>v\<close>: a substring test on a string, a membership
  test on an array, and a TypeError on anything else (\<^verbatim>\<open>includes\<close> is not a function).\<close>

definition includes_dotdot :: "json \<Rightarrow> error + bool" where
  "includes_dotdot v =
     (case v of
        JStr s \<Rightarrow> Inr (includes_str ''..'' s)
      | JArr xs \<Rightarrow> Inr (List.member xs (JStr ''..''))
      | _ \<Rightarrow> Inl TypeError)"

text \<open>Sequencing of steps that may throw.\<close>

definition thenE :: "error + 'a \<Rightarrow> ('a \<Rightarrow> error + 'b) \<Rightarrow> error + 'b" where
  "thenE r f = (case r of Inl e \<Rightarrow> Inl e | Inr a \<Rightarrow> f a)"

subsection \<open>Validation\<close>

text \<open>
  \<^verbatim>\<open>validateEvent\<close> on the parsed body, which is not \<^verbatim>\<open>null\<close>. Each check is written as
  the source has it: \<^verbatim>\<open>!x\<close> is truthiness, \<^verbatim>\<open>re.test(x)\<close> converts \<open>x\<close> to a string,
  \<^verbatim>\<open>x.length > 255\<close> reads the \<^verbatim>\<open>length\<close> property, \<^verbatim>\<open>x == null\<close> is true of \<^verbatim>\<open>null\<close> and
  \<^verbatim>\<open>undefined\<close>. A check that throws ends the validation with that error.
\<close>

definition eventId_errors :: "ecma \<Rightarrow> json \<Rightarrow> error + string list" where
  "eventId_errors js ev =
     (if \<not> truthy (property ev ''eventId'') then Inr [''eventId: required'']
      else thenE (test UUID_V4 js (property ev ''eventId''))
             (\<lambda>ok. Inr (if ok then [] else [''eventId: must be a valid UUID v4''])))"

definition projectId_errors :: "json \<Rightarrow> string list" where
  "projectId_errors ev =
     (if \<not> truthy (property ev ''projectId'') then [''projectId: required''] else [])"

text \<open>\<^verbatim>\<open>['push','developer_note'].includes(ev.eventType)\<close> compares without coercion.\<close>

definition eventType_errors :: "json \<Rightarrow> string list" where
  "eventType_errors ev =
     (if property ev ''eventType'' = Some (JStr ''push'')
         \<or> property ev ''eventType'' = Some (JStr ''developer_note'') then []
      else [''eventType: must be push or developer_note''])"

definition timestamp_errors :: "ecma \<Rightarrow> json \<Rightarrow> error + string list" where
  "timestamp_errors js ev =
     (if \<not> truthy (property ev ''timestamp'') then Inr [''timestamp: required'']
      else thenE (test ISO_8601 js (property ev ''timestamp''))
             (\<lambda>ok. Inr (if ok then [] else [''timestamp: must be valid ISO 8601 UTC''])))"

definition branch_errors :: "ecma \<Rightarrow> json \<Rightarrow> error + string list" where
  "branch_errors js ev =
     (case property ev ''branch'' of
        None \<Rightarrow> Inr [''branch: required'']
      | Some b \<Rightarrow>
          if \<not> truthy (Some b) then Inr [''branch: required'']
          else thenE (length_exceeds js b 255)
                 (\<lambda>long. Inr (if long then [''branch: max 255 characters''] else [])))"

text \<open>The checks before the payload, in the order the source pushes their messages.\<close>

definition header_errors :: "ecma \<Rightarrow> json \<Rightarrow> error + string list" where
  "header_errors js ev =
     thenE (eventId_errors js ev) (\<lambda>e1.
     thenE (timestamp_errors js ev) (\<lambda>e4.
     thenE (branch_errors js ev) (\<lambda>e5.
       Inr (e1 @ projectId_errors ev @ eventType_errors ev @ e4 @ e5))))"

definition commitHash_errors :: "ecma \<Rightarrow> json \<Rightarrow> error + string list" where
  "commitHash_errors js p =
     (if \<not> truthy (property p ''commitHash'') then Inr [''commitHash: required for push events'']
      else thenE (test COMMIT_HASH js (property p ''commitHash''))
             (\<lambda>ok. Inr (if ok then [] else [''commitHash: must be exactly 40 hex characters''])))"

text \<open>\<^verbatim>\<open>Array.isArray\<close>\<close>

definition isArray :: "jsval \<Rightarrow> bool" where
  "isArray x = (case x of Some (JArr xs) \<Rightarrow> True | _ \<Rightarrow> False)"

definition push_errors :: "ecma \<Rightarrow> json \<Rightarrow> error + string list" where
  "push_errors js p =
     thenE (commitHash_errors js p) (\<lambda>e1.
       Inr (e1 @
         (if nullish (property p ''message'') then [''message: required for push events''] else []) @
         (if \<not> truthy (property p ''author'') then [''author: required for push events''] else []) @
         (if truthy (property p ''changedFiles'') \<and> \<not> isArray (property p ''changedFiles'')
          then [''changedFiles: must be an array''] else []) @
         (case property p ''diff'' of
            Some (JStr d) \<Rightarrow> if length d > 50000 then [''diff: max 50000 characters''] else []
          | _ \<Rightarrow> [])))"

definition filePath_errors :: "json \<Rightarrow> error + string list" where
  "filePath_errors p =
     (case property p ''filePath'' of
        None \<Rightarrow> Inr [''filePath: required for developer_note events'']
      | Some f \<Rightarrow>
          if \<not> truthy (Some f) then Inr [''filePath: required for developer_note events'']
          else thenE (includes_dotdot f)
                 (\<lambda>dots. Inr (if dots then [''filePath: directory traversal (..) not allowed'']
                                 else [])))"

text \<open>\<^verbatim>\<open>!Number.isInteger(x) || x < 0\<close> for an \<open>x\<close> that is neither \<^verbatim>\<open>null\<close> nor \<^verbatim>\<open>undefined\<close>.\<close>

definition not_natural :: "json \<Rightarrow> bool" where
  "not_natural x =
     (case x of
        JNum (Finite r) \<Rightarrow> of_int (floor r) \<noteq> r \<or> r < 0
      | _ \<Rightarrow> True)"

definition lineNumber_errors :: "json \<Rightarrow> string list" where
  "lineNumber_errors p =
     (case property p ''lineNumber'' of
        None \<Rightarrow> [''lineNumber: required for developer_note events'']
      | Some JNull \<Rightarrow> [''lineNumber: required for developer_note events'']
      | Some x \<Rightarrow> if not_natural x then [''lineNumber: must be a non-negative integer''] else [])"

definition note_errors :: "json \<Rightarrow> error + string list" where
  "note_errors p =
     thenE (filePath_errors p) (\<lambda>e2.
       Inr ((if \<not> truthy (property p ''text'') then [''text: required for developer_note events'']
             else []) @ e2 @ lineNumber_errors p))"

definition validateEvent :: "ecma \<Rightarrow> json \<Rightarrow> error + string list" where
  "validateEvent js ev =
     thenE (header_errors js ev) (\<lambda>errors.
       case property ev ''payload'' of
         None \<Rightarrow> Inr (errors @ [''payload: required''])
       | Some p \<Rightarrow>
           if \<not> truthy (Some p) then Inr (errors @ [''payload: required''])
           else
             thenE (if property ev ''eventType'' = Some (JStr ''push'') then push_errors js p
                    else Inr []) (\<lambda>pushed.
             thenE (if property ev ''eventType'' = Some (JStr ''developer_note'') then note_errors p
                    else Inr []) (\<lambda>noted.
               Inr (errors @ pushed @ noted))))"

subsection \<open>The stores\<close>

text \<open>
  A DynamoDB table or an S3 bucket is the list of its items. \<^verbatim>\<open>PutItem\<close> and
  \<^verbatim>\<open>PutObject\<close> replace the item that has the same primary key; the key of each table
  is the one \<^verbatim>\<open>infra-stack.ts\<close> declares.
\<close>

definition put :: "('a \<Rightarrow> 'k) \<Rightarrow> 'a \<Rightarrow> 'a list \<Rightarrow> 'a list" where
  "put key item tbl = item # filter (\<lambda>x. key x \<noteq> key item) tbl"

definition get :: "('a \<Rightarrow> 'k) \<Rightarrow> 'k \<Rightarrow> 'a list \<Rightarrow> 'a option" where
  "get key k tbl = find (\<lambda>x. key x = k) tbl"

text \<open>\<^verbatim>\<open>flowsync-projects\<close>, partition key \<^verbatim>\<open>projectId\<close>. Of a project item the ingestion
  route reads the token hash only.\<close>

record project =
  p_projectId :: string
  apiTokenHash :: "string option"

text \<open>\<^verbatim>\<open>flowsync-events\<close>, partition key \<^verbatim>\<open>projectId\<close>, sort key \<^verbatim>\<open>timestampEventId\<close>. The
  attributes copied from the event keep the JSON value the event has.\<close>

record event_record =
  e_projectId :: jsval
  timestampEventId :: string
  branchTimestamp :: string
  e_eventId :: jsval
  e_eventType :: jsval
  e_branch :: jsval
  e_parentBranch :: json
  e_payload :: json
  receivedAt :: string
  processingStatus :: string

definition event_key :: "event_record \<Rightarrow> jsval \<times> string" where
  "event_key r = (e_projectId r, timestampEventId r)"

text \<open>The raw-events bucket, keyed by the object key; the body is the event as
  \<^verbatim>\<open>JSON.stringify\<close> writes it.\<close>

record s3_object =
  s3_key :: string
  s3_body :: json

text \<open>The asynchronous invocations of the AI processing Lambda, oldest first.\<close>

record ai_invocation =
  i_eventId :: jsval
  i_projectId :: jsval
  i_eventType :: jsval
  i_branch :: jsval
  i_parentBranch :: json
  i_payload :: json
  i_timestamp :: jsval

text \<open>\<^verbatim>\<open>flowsync-audit\<close>, partition key \<^verbatim>\<open>entityId\<close>, sort key \<^verbatim>\<open>timestamp\<close>.\<close>

record audit_record =
  entityId :: jsval
  a_timestamp :: string
  entityType :: string
  action :: string
  actor :: json
  a_eventType :: jsval
  a_branch :: jsval
  a_commitHash :: json

definition audit_key :: "audit_record \<Rightarrow> jsval \<times> string" where
  "audit_key r = (entityId r, a_timestamp r)"

text \<open>\<^verbatim>\<open>flowsync-context\<close>, partition key \<^verbatim>\<open>eventId\<close>, no sort key. It is written by the
  AI processing Lambda; the ingestion route never touches it. Of a context item only
  the key matters here.\<close>

record context_item =
  c_eventId :: string
  c_projectId :: string

record world =
  projects :: "project list"
  events :: "event_record list"
  archive :: "s3_object list"
  invocations :: "ai_invocation list"
  audit :: "audit_record list"
  context_table :: "context_item list"

text \<open>
  What the outside decides in one invocation: which service calls fail, and the clock
  read by \<^verbatim>\<open>new Date().toISOString()\<close>. A call fails when its \<^verbatim>\<open>send\<close> rejects, whatever
  the cause: the service is down, or the client or the service refuses the item.
\<close>

record outcome =
  get_project_fails :: bool
  put_event_fails :: bool
  s3_fails :: bool
  invoke_fails :: bool
  audit_fails :: bool
  now :: string

subsection \<open>Responses\<close>

datatype response_body =
  InvalidJson
| InvalidToken "string option"
| ValidationFailed "string list"
| Processing jsval jsval jsval string
| InternalError

record response =
  statusCode :: nat
  body :: response_body

text \<open>\<^verbatim>\<open>respond(statusCode, body)\<close>; the three fixed headers are left out.\<close>

definition respond :: "nat \<Rightarrow> response_body \<Rightarrow> response" where
  "respond code b = \<lparr>statusCode = code, body = b\<rparr>"

subsection \<open>Authentication\<close>

text \<open>\<^verbatim>\<open>headers?.Authorization ?? headers?.authorization\<close>\<close>

record headers =
  Authorization :: "string option"
  authorization :: "string option"

definition extractToken :: "headers option \<Rightarrow> string option" where
  "extractToken hs =
     (let raw = (case hs of
                   None \<Rightarrow> None
                 | Some h \<Rightarrow> (case Authorization h of Some a \<Rightarrow> Some a | None \<Rightarrow> authorization h))
      in if falsy raw then None
         else
           (let parts = split_on CHR '' '' (tmpl raw);
                scheme = at_index parts 0;
                token = at_index parts 1
            in if scheme = Some ''Bearer'' \<and> \<not> falsy token then token else None))"

datatype auth_result = AuthError nat response_body | AuthOk project

text \<open>
  The \<^verbatim>\<open>GetItem\<close> of the project: it rejects when the service fails, and when the key
  is not a non-empty string (the partition key of the table is a string, and DynamoDB
  refuses a key that is missing, empty or of another type).
\<close>

definition get_project :: "outcome \<Rightarrow> jsval \<Rightarrow> world \<Rightarrow> error + project option" where
  "get_project oc pid w =
     (case pid of
        Some (JStr s) \<Rightarrow>
          if get_project_fails oc \<or> s = [] then Inl ServiceError
          else Inr (get p_projectId s (projects w))
      | _ \<Rightarrow> Inl ServiceError)"

definition authenticate ::
  "scrypt \<Rightarrow> outcome \<Rightarrow> headers option \<Rightarrow> jsval \<Rightarrow> world \<Rightarrow> error + auth_result" where
  "authenticate kdf oc hs pid w =
     (case extractToken hs of
        None \<Rightarrow> Inr (AuthError 401 (InvalidToken (Some ''Missing Authorization header'')))
      | Some token \<Rightarrow>
          (case get_project oc pid w of
             Inl e \<Rightarrow> Inl e
           | Inr item \<Rightarrow>
               (case item of
                  None \<Rightarrow> Inr (AuthError 401 (InvalidToken None))
                | Some p \<Rightarrow>
                    if falsy (apiTokenHash p) then Inr (AuthError 401 (InvalidToken None))
                    else
                      (case verifyToken kdf token (apiTokenHash p) of
                         Inl e \<Rightarrow> Inl e
                       | Inr ok \<Rightarrow>
                           if ok then Inr (AuthOk p)
                           else Inr (AuthError 401 (InvalidToken None))))))"

subsection \<open>\<^verbatim>\<open>POST /api/v1/events\<close>\<close>

text \<open>
  The request body: text that \<^verbatim>\<open>JSON.parse\<close> rejects, or the value it returns. An
  absent body, which API Gateway passes as \<^verbatim>\<open>null\<close>, is not parsed and reads as \<open>JNull\<close>.
\<close>

datatype request_body = Malformed | Parsed json

text \<open>\<^verbatim>\<open>event.payload\<close> where a property of it is read next: a TypeError when it is
  \<^verbatim>\<open>undefined\<close> or \<^verbatim>\<open>null\<close>.\<close>

definition payload_of :: "json \<Rightarrow> error + json" where
  "payload_of ev =
     (case property ev ''payload'' of
        None \<Rightarrow> Inl TypeError
      | Some JNull \<Rightarrow> Inl TypeError
      | Some p \<Rightarrow> Inr p)"

text \<open>The item of the critical write. The template literals convert the timestamp,
  the event id and the branch to strings.\<close>

definition build_record :: "ecma \<Rightarrow> json \<Rightarrow> string \<Rightarrow> error + event_record" where
  "build_record js ev received =
     thenE (ToStringV js (property ev ''timestamp'')) (\<lambda>ts.
     thenE (ToStringV js (property ev ''eventId'')) (\<lambda>eid.
     thenE (ToStringV js (property ev ''branch'')) (\<lambda>br.
     thenE (payload_of ev) (\<lambda>p.
       Inr \<lparr>e_projectId = property ev ''projectId'',
            timestampEventId = ts @ ''#'' @ eid,
            branchTimestamp = br @ ''#'' @ ts,
            e_eventId = property ev ''eventId'',
            e_eventType = property ev ''eventType'',
            e_branch = property ev ''branch'',
            e_parentBranch = or_null (property p ''parentBranch''),
            e_payload = p,
            receivedAt = received,
            processingStatus = ''pending''\<rparr>))))"

definition build_object :: "ecma \<Rightarrow> json \<Rightarrow> error + s3_object" where
  "build_object js ev =
     thenE (ToStringV js (property ev ''projectId'')) (\<lambda>pid.
     thenE (ToStringV js (property ev ''eventId'')) (\<lambda>eid.
       Inr \<lparr>s3_key = ''raw-events/'' @ pid @ ''/'' @ eid @ ''.json'', s3_body = ev\<rparr>))"

definition build_invocation :: "json \<Rightarrow> error + ai_invocation" where
  "build_invocation ev =
     thenE (payload_of ev) (\<lambda>p.
       Inr \<lparr>i_eventId = property ev ''eventId'',
            i_projectId = property ev ''projectId'',
            i_eventType = property ev ''eventType'',
            i_branch = property ev ''branch'',
            i_parentBranch = or_null (property p ''parentBranch''),
            i_payload = p,
            i_timestamp = property ev ''timestamp''\<rparr>)"

definition build_audit :: "json \<Rightarrow> string \<Rightarrow> error + audit_record" where
  "build_audit ev received =
     thenE (payload_of ev) (\<lambda>p.
       Inr \<lparr>entityId = property ev ''eventId'',
            a_timestamp = received,
            entityType = ''event'',
            action = ''created'',
            actor = (if nullish (property p ''author'') then JStr ''system''
                     else or_null (property p ''author'')),
            a_eventType = property ev ''eventType'',
            a_branch = property ev ''branch'',
            a_commitHash = or_null (property p ''commitHash'')\<rparr>)"

text \<open>The three writes after the critical one; each is inside its own
  \<^verbatim>\<open>try { ... } catch (err) { console.error(...) }\<close>, which also catches what building
  the item throws.\<close>

definition archive_step :: "ecma \<Rightarrow> outcome \<Rightarrow> json \<Rightarrow> world \<Rightarrow> world" where
  "archive_step js oc ev w =
     (case build_object js ev of
        Inl e \<Rightarrow> w
      | Inr obj \<Rightarrow> if s3_fails oc then w else w\<lparr>archive := put s3_key obj (archive w)\<rparr>)"

definition invoke_step :: "outcome \<Rightarrow> json \<Rightarrow> world \<Rightarrow> world" where
  "invoke_step oc ev w =
     (case build_invocation ev of
        Inl e \<Rightarrow> w
      | Inr call \<Rightarrow> if invoke_fails oc then w else w\<lparr>invocations := invocations w @ [call]\<rparr>)"

definition audit_step :: "outcome \<Rightarrow> json \<Rightarrow> world \<Rightarrow> world" where
  "audit_step oc ev w =
     (case build_audit ev (now oc) of
        Inl e \<Rightarrow> w
      | Inr item \<Rightarrow> if audit_fails oc then w else w\<lparr>audit := put audit_key item (audit w)\<rparr>)"

text \<open>
  \<^verbatim>\<open>ingestEvent\<close>. Reading \<^verbatim>\<open>event.projectId\<close> throws on \<^verbatim>\<open>null\<close>; authentication comes
  before validation; the write to the events table is the critical one.
\<close>

definition ingestEvent ::
  "ecma \<Rightarrow> scrypt \<Rightarrow> outcome \<Rightarrow> headers option \<Rightarrow> request_body \<Rightarrow> world
     \<Rightarrow> (error + response) \<times> world" where
  "ingestEvent js kdf oc hs rb w =
     (case rb of
        Malformed \<Rightarrow> (Inr (respond 400 InvalidJson), w)
      | Parsed ev \<Rightarrow>
          if ev = JNull then (Inl TypeError, w)
          else
            (case authenticate kdf oc hs (property ev ''projectId'') w of
               Inl e \<Rightarrow> (Inl e, w)
             | Inr (AuthError code err) \<Rightarrow> (Inr (respond code err), w)
             | Inr (AuthOk proj) \<Rightarrow>
                 (case validateEvent js ev of
                    Inl e \<Rightarrow> (Inl e, w)
                  | Inr errors \<Rightarrow>
                      if errors \<noteq> [] then (Inr (respond 400 (ValidationFailed errors)), w)
                      else
                        (case build_record js ev (now oc) of
                           Inl e \<Rightarrow> (Inl e, w)
                         | Inr item \<Rightarrow>
                             if put_event_fails oc then (Inl ServiceError, w)
                             else
                               (let w1 = w\<lparr>events := put event_key item (events w)\<rparr>;
                                    w2 = archive_step js oc ev w1;
                                    w3 = invoke_step oc ev w2;
                                    w4 = audit_step oc ev w3
                                in (Inr (respond 200
                                      (Processing (property ev ''eventId'')
                                         (property ev ''projectId'') (property ev ''branch'')
                                         (now oc))), w4))))))"

text \<open>
  \<^verbatim>\<open>exports.handler\<close> on the route \<^verbatim>\<open>POST /api/v1/events\<close>: whatever \<open>ingestEvent\<close> throws
  becomes the 500 response of the \<^verbatim>\<open>catch\<close>.
\<close>

definition handler ::
  "ecma \<Rightarrow> scrypt \<Rightarrow> outcome \<Rightarrow> headers option \<Rightarrow> request_body \<Rightarrow> world \<Rightarrow> response \<times> world" where
  "handler js kdf oc hs rb w =
     (case ingestEvent js kdf oc hs rb w of
        (Inl e, w') \<Rightarrow> (respond 500 InternalError, w')
      | (Inr r, w') \<Rightarrow> (r, w'))"

subsection \<open>What the properties speak about\<close>

text \<open>A property of a field that must be present and a string.\<close>

definition str_holds :: "(string \<Rightarrow> bool) \<Rightarrow> jsval \<Rightarrow> bool" where
  "str_holds P x = (case x of Some (JStr s) \<Rightarrow> P s | _ \<Rightarrow> False)"

text \<open>Exactly 40 hexadecimal characters.\<close>

definition forty_hex :: "string \<Rightarrow> bool" where
  "forty_hex s = (length s = 40 \<and> list_all is_hex s)"

definition non_empty :: "string \<Rightarrow> bool" where
  "non_empty s = (s \<noteq> [])"

text \<open>The four conditions on a push event: a UUID v4 \<^verbatim>\<open>eventId\<close>, a timestamp of the
  ISO-8601 pattern, a non-empty branch, a commit hash of 40 hexadecimal characters.\<close>

definition accepted_form :: "json \<Rightarrow> bool" where
  "accepted_form ev =
     (str_holds UUID_V4 (property ev ''eventId'') \<and> str_holds ISO_8601 (property ev ''timestamp'')
      \<and> str_holds non_empty (property ev ''branch'')
      \<and> (case property ev ''payload'' of
            None \<Rightarrow> False
          | Some p \<Rightarrow> str_holds forty_hex (property p ''commitHash'')))"

text \<open>A field is textual when it is absent or a string. The four fields are textual
  in every event the extension sends.\<close>

definition textual :: "jsval \<Rightarrow> bool" where
  "textual x = (case x of None \<Rightarrow> True | Some (JStr s) \<Rightarrow> True | _ \<Rightarrow> False)"

definition string_fields :: "json \<Rightarrow> bool" where
  "string_fields ev =
     (textual (property ev ''eventId'') \<and> textual (property ev ''timestamp'')
      \<and> textual (property ev ''branch'')
      \<and> (case property ev ''payload'' of
            None \<Rightarrow> True
          | Some p \<Rightarrow> textual (property p ''commitHash'')))"

text \<open>
  The same four conditions for any JSON value, read the way the validator reads it:
  the value is truthy and its conversion to a string has the property.
\<close>

definition reads_as :: "ecma \<Rightarrow> (string \<Rightarrow> bool) \<Rightarrow> jsval \<Rightarrow> bool" where
  "reads_as js P x = (truthy x \<and> (case ToStringV js x of Inl e \<Rightarrow> False | Inr s \<Rightarrow> P s))"

definition coerced_form :: "ecma \<Rightarrow> json \<Rightarrow> bool" where
  "coerced_form js ev =
     (reads_as js UUID_V4 (property ev ''eventId'') \<and> reads_as js ISO_8601 (property ev ''timestamp'')
      \<and> truthy (property ev ''branch'')
      \<and> (case property ev ''payload'' of
            None \<Rightarrow> False
          | Some p \<Rightarrow> truthy (Some p) \<and> reads_as js forty_hex (property p ''commitHash'')))"

text \<open>An error list names a field when one of its messages starts with the field's
  name and a colon.\<close>

definition listed :: "string \<Rightarrow> string list \<Rightarrow> bool" where
  "listed field errs = list_ex (\<lambda>e. take (Suc (length field)) e = field @ '':'') errs"

text \<open>The stores after an accepted event: the critical write of the item, then the
  three non-fatal steps.\<close>

definition accepted_world :: "ecma \<Rightarrow> outcome \<Rightarrow> json \<Rightarrow> event_record \<Rightarrow> world \<Rightarrow> world" where
  "accepted_world js oc ev item w =
     audit_step oc ev (invoke_step oc ev (archive_step js oc ev
       (w\<lparr>events := put event_key item (events w)\<rparr>)))"

subsection \<open>Concrete inputs\<close>

text \<open>Stand-ins for the two conversions of numbers; no input below holds a number
  other than in a place where it is not converted.\<close>

definition js0 :: ecma where
  "js0 = \<lparr>numberToString = (\<lambda>n. case n of Finite r \<Rightarrow> ''0'' | PlusInfinity \<Rightarrow> ''Infinity''
                                    | MinusInfinity \<Rightarrow> ''-Infinity''),
          stringToNumber = (\<lambda>s. if s = [] \<or> s = ''0'' then Some (Finite 0) else None)\<rparr>"

text \<open>A stand-in key derivation function with outputs of the requested length, a
  project whose token is \<^verbatim>\<open>tok\<close>, and a well-formed push.\<close>

definition kdf0 :: scrypt where
  "kdf0 p s n = replicate n (of_nat (length p))"

definition salt0 :: "byte list" where
  "salt0 = replicate 16 7"

definition project0 :: project where
  "project0 = \<lparr>p_projectId = ''proj-1'', apiTokenHash = Some (hashToken kdf0 salt0 ''tok'')\<rparr>"

definition world0 :: world where
  "world0 = \<lparr>projects = [project0], events = [], archive = [], invocations = [], audit = [],
     context_table = []\<rparr>"

definition headers0 :: "headers option" where
  "headers0 = Some \<lparr>Authorization = Some ''Bearer tok'', authorization = None\<rparr>"

definition payload0 :: json where
  "payload0 = JObj [(''commitHash'', JStr ''0123456789abcdef0123456789ABCDEF01234567''),
     (''message'', JStr ''add login''), (''diff'', JStr ''+x''), (''author'', JStr ''Alice''),
     (''parentBranch'', JStr ''main'')]"

text \<open>A push of project \<^verbatim>\<open>proj-1\<close> with the given event id, timestamp, branch and
  payload.\<close>

definition push_of :: "json \<Rightarrow> json \<Rightarrow> json \<Rightarrow> json \<Rightarrow> json" where
  "push_of eid ts br p =
     JObj [(''eventId'', eid), (''projectId'', JStr ''proj-1''), (''eventType'', JStr ''push''),
           (''timestamp'', ts), (''branch'', br), (''payload'', p)]"

definition uuid0 :: string where
  "uuid0 = ''123e4567-e89b-42d3-a456-426614174000''"

definition time0 :: string where
  "time0 = ''2026-03-01T10:00:00.000Z''"

definition event0 :: json where
  "event0 = push_of (JStr uuid0) (JStr time0) (JStr ''feature/auth'') payload0"

text \<open>The item of \<open>event0\<close> in the events table, received at the given time.\<close>

definition record0 :: "string \<Rightarrow> event_record" where
  "record0 received =
     \<lparr>e_projectId = Some (JStr ''proj-1''),
      timestampEventId = time0 @ ''#'' @ uuid0,
      branchTimestamp = ''feature/auth#'' @ time0,
      e_eventId = Some (JStr uuid0),
      e_eventType = Some (JStr ''push''),
      e_branch = Some (JStr ''feature/auth''),
      e_parentBranch = JStr ''main'',
      e_payload = payload0,
      receivedAt = received,
      processingStatus = ''pending''\<rparr>"

definition outcome0 :: outcome where
  "outcome0 = \<lparr>get_project_fails = False, put_event_fails = False, s3_fails = False,
     invoke_fails = False, audit_fails = False, now = ''2026-03-01T10:00:01.000Z''\<rparr>"

text \<open>A push whose commit hash has 7 characters.\<close>

definition payload_short_hash :: json where
  "payload_short_hash = JObj [(''commitHash'', JStr ''0123abc''), (''message'', JStr ''add login''),
     (''diff'', JStr ''+x''), (''author'', JStr ''Alice'')]"

definition event_short_hash :: json where
  "event_short_hash =
     push_of (JStr uuid0) (JStr time0) (JStr ''feature/auth'') payload_short_hash"

text \<open>A push without payload.\<close>

definition event_no_payload :: json where
  "event_no_payload =
     JObj [(''eventId'', JStr uuid0), (''projectId'', JStr ''proj-1''),
           (''eventType'', JStr ''push''), (''timestamp'', JStr time0),
           (''branch'', JStr ''feature/auth'')]"

text \<open>A push whose timestamp has month 13, day 45, hour 25.\<close>

definition event_month13 :: json where
  "event_month13 =
     push_of (JStr uuid0) (JStr ''2026-13-45T25:61:61Z'') (JStr ''feature/auth'') payload0"

text \<open>A push whose branch is the empty array, and one whose branch is the object
  \<^verbatim>\<open>{"toString": 1}\<close>.\<close>

definition event_branch_array :: json where
  "event_branch_array = push_of (JStr uuid0) (JStr time0) (JArr []) payload0"

definition event_branch_object :: json where
  "event_branch_object =
     push_of (JStr uuid0) (JStr time0) (JObj [(''toString'', JNum (Finite 1))]) payload0"

text \<open>A request with another token, and a store whose project has the hash
  \<^verbatim>\<open>abcd:zz\<close>.\<close>

definition headers_other :: "headers option" where
  "headers_other = Some \<lparr>Authorization = Some ''Bearer nope'', authorization = None\<rparr>"

definition world_bad_hash :: world where
  "world_bad_hash =
     world0\<lparr>projects := [\<lparr>p_projectId = ''proj-1'', apiTokenHash = Some ''abcd:zz''\<rparr>]\<rparr>"

text \<open>Invocations in which the archive and the audit write fail, in which the critical
  write fails, and a later invocation.\<close>

definition outcome_s3_down :: outcome where
  "outcome_s3_down = outcome0\<lparr>s3_fails := True, audit_fails := True\<rparr>"

definition outcome_put_down :: outcome where
  "outcome_put_down = outcome0\<lparr>put_event_fails := True\<rparr>"

definition outcome1 :: outcome where
  "outcome1 = outcome0\<lparr>now := ''2026-03-01T10:00:03.500Z''\<rparr>"

subsection \<open>The capture extension\<close>

text \<open>
  \<^verbatim>\<open>gitUtils.ts\<close>. What the extension finds on the developer's machine: the workspace root
  (\<^verbatim>\<open>getWorkspaceRoot()\<close>, null without an open folder) and, for a command line, the
  standard output of \<^verbatim>\<open>execSync\<close>, or \<open>None\<close> when it throws.
\<close>

record git_env =
  workspaceRoot :: "string option"
  execSync :: "string \<Rightarrow> string option"

definition git :: "git_env \<Rightarrow> string \<Rightarrow> string option" where
  "git env args =
     (if falsy (workspaceRoot env) then None
      else (case execSync env (''git '' @ args) of
              None \<Rightarrow> None
            | Some out \<Rightarrow> Some (trim out)))"

definition getDiff :: "git_env \<Rightarrow> string option" where
  "getDiff env =
     (let d = git env ''diff HEAD~1 HEAD''
      in if falsy d then None
         else Some (if length (tmpl d) > 50000 then take 50000 (tmpl d) else tmpl d))"

record CommitInfo =
  ci_commitHash :: string
  ci_message :: string
  ci_author :: string
  ci_timestamp :: string

text \<open>The argument of \<^verbatim>\<open>git log\<close>: \<^verbatim>\<open>log -1 --format="%H|%s|%an|%aI"\<close>.\<close>

definition log_args :: string where
  "log_args = ''log -1 --format='' @ [char_of (34 :: nat)] @ ''%H|%s|%an|%aI'' @ [char_of (34 :: nat)]"

definition getLastCommitInfo :: "git_env \<Rightarrow> CommitInfo option" where
  "getLastCommitInfo env =
     (let raw = git env log_args
      in if falsy raw then None
         else
           (let parts = split_on CHR ''|'' (tmpl raw);
                h = at_index parts 0; m = at_index parts 1;
                a = at_index parts 2; t = at_index parts 3
            in if falsy h \<or> falsy m \<or> falsy a \<or> falsy t then None
               else Some \<lparr>ci_commitHash = tmpl h, ci_message = tmpl m, ci_author = tmpl a,
                          ci_timestamp = tmpl t\<rparr>))"

text \<open>
  \<^verbatim>\<open>CapturedEvent\<close> and \<^verbatim>\<open>PushPayload\<close>, the event the extension builds. Every field is
  a string; a field is \<open>None\<close> when the property is \<^verbatim>\<open>undefined\<close>.
\<close>

record payload =
  commitHash :: "string option"
  message :: "string option"
  diff :: "string option"
  author :: "string option"
  parentBranch :: "string option"

record event =
  eventId :: "string option"
  projectId :: "string option"
  eventType :: "string option"
  timestamp :: "string option"
  branch :: "string option"
  payload :: "payload option"

text \<open>
  The event on the wire: \<^verbatim>\<open>postJson\<close> sends \<^verbatim>\<open>JSON.stringify(body)\<close>, which leaves out
  the properties that are \<^verbatim>\<open>undefined\<close>, and the backend parses it.
\<close>

definition member_str :: "string \<Rightarrow> string option \<Rightarrow> (string \<times> json) list" where
  "member_str name x = (case x of None \<Rightarrow> [] | Some s \<Rightarrow> [(name, JStr s)])"

definition payload_json :: "payload \<Rightarrow> json" where
  "payload_json p =
     JObj (member_str ''commitHash'' (commitHash p) @ member_str ''message'' (message p) @
           member_str ''diff'' (diff p) @ member_str ''author'' (author p) @
           member_str ''parentBranch'' (parentBranch p))"

definition to_json :: "event \<Rightarrow> json" where
  "to_json ev =
     JObj (member_str ''eventId'' (eventId ev) @ member_str ''projectId'' (projectId ev) @
           member_str ''eventType'' (eventType ev) @ member_str ''timestamp'' (timestamp ev) @
           member_str ''branch'' (branch ev) @
           (case payload ev of None \<Rightarrow> [] | Some p \<Rightarrow> [(''payload'', payload_json p)]))"

text \<open>
  \<^verbatim>\<open>eventTransmitter.ts\<close>. \<open>ok i\<close> tells whether the POST of attempt \<open>i\<close> succeeds. The
  result is the list of requests sent, and whether one succeeded (otherwise the last
  error is thrown).
\<close>

definition retryDelays :: "nat list" where
  "retryDelays = [0, 1000, 2000, 4000]"

fun transmit_from :: "(nat \<Rightarrow> bool) \<Rightarrow> event \<Rightarrow> nat \<Rightarrow> nat \<Rightarrow> event list \<times> bool" where
  "transmit_from ok ev attempt 0 = ([], False)"
| "transmit_from ok ev attempt (Suc k) =
     (if ok attempt then ([ev], True)
      else (case transmit_from ok ev (Suc attempt) k of (sent, r) \<Rightarrow> (ev # sent, r)))"

definition transmitEvent :: "(nat \<Rightarrow> bool) \<Rightarrow> event \<Rightarrow> event list \<times> bool" where
  "transmitEvent ok ev = transmit_from ok ev 0 (length retryDelays)"

text \<open>
  \<^verbatim>\<open>extension.ts\<close>, \<^verbatim>\<open>handlePushEvent\<close>: the event it builds, with \<open>uuid\<close> for
  \<^verbatim>\<open>crypto.randomUUID()\<close> and \<open>clock\<close> for \<^verbatim>\<open>new Date().toISOString()\<close>, or \<open>None\<close> when it
  returns before building one.
\<close>

definition capture ::
  "git_env \<Rightarrow> string \<Rightarrow> string \<Rightarrow> string \<Rightarrow> string \<Rightarrow> string \<Rightarrow> event option" where
  "capture env uuid clock pid defaultBranch br =
     (let d = getDiff env; commitInfo = getLastCommitInfo env
      in if falsy d then None
         else
           (case commitInfo of
              None \<Rightarrow> None
            | Some ci \<Rightarrow>
                Some \<lparr>eventId = Some uuid, projectId = Some pid, eventType = Some ''push'',
                      timestamp = Some clock, branch = Some br,
                      payload = Some
                        \<lparr>commitHash = Some (ci_commitHash ci), message = Some (ci_message ci),
                         diff = d, author = Some (ci_author ci),
                         parentBranch = (if defaultBranch \<noteq> br then Some defaultBranch else None)\<rparr>\<rparr>))"

text \<open>The requests \<^verbatim>\<open>handlePushEvent\<close> sends to the backend.\<close>

definition handlePushEvent ::
  "git_env \<Rightarrow> (nat \<Rightarrow> bool) \<Rightarrow> string \<Rightarrow> string \<Rightarrow> string \<Rightarrow> string \<Rightarrow> string \<Rightarrow> event list" where
  "handlePushEvent env ok uuid clock pid defaultBranch br =
     (case capture env uuid clock pid defaultBranch br of
        None \<Rightarrow> []
      | Some ev \<Rightarrow> fst (transmitEvent ok ev))"

definition env0 :: git_env where
  "env0 = \<lparr>workspaceRoot = Some ''/home/alice/repo'',
     execSync = (\<lambda>cmd.
       if cmd = ''git diff HEAD~1 HEAD'' then Some '' +x ''
       else if cmd = ''git '' @ log_args
         then Some ''0123456789abcdef0123456789abcdef01234567|add login|Alice|2026-03-01T10:00:00+01:00''
       else None)\<rparr>"

text \<open>The first POST fails, the second succeeds.\<close>

definition ok_second :: "nat \<Rightarrow> bool" where
  "ok_second i = (i = 1)"

definition payload_captured :: payload where
  "payload_captured = \<lparr>commitHash = Some ''0123456789abcdef0123456789abcdef01234567'',
     message = Some ''add login'', diff = Some ''+x'', author = Some ''Alice'',
     parentBranch = Some ''main''\<rparr>"

definition event_captured :: event where
  "event_captured = \<lparr>eventId = Some ''123e4567-e89b-42d3-a456-426614174000'',
     projectId = Some ''proj-1'', eventType = Some ''push'',
     timestamp = Some ''2026-03-01T10:00:00.000Z'', branch = Some ''feature/auth'',
     payload = Some payload_captured\<rparr>"

definition env_empty_diff :: git_env where
  "env_empty_diff = env0\<lparr>execSync := (\<lambda>cmd. if cmd = ''git diff HEAD~1 HEAD'' then Some '' '' else execSync env0 cmd)\<rparr>"

subsection \<open>The extraction request\<close>

text \<open>
  \<^verbatim>\<open>promptUtil.js\<close>. \<^verbatim>\<open>s.replace(pattern, replacement)\<close> with a string pattern replaces the
  first occurrence only, and still reads the replacement as a replacement pattern:
  \<^verbatim>\<open>$$\<close> is a dollar sign, \<^verbatim>\<open>$&\<close> the matched text, \<^verbatim>\<open>$`\<close> the text before the match and
  \<^verbatim>\<open>$'\<close> the text after it. A string pattern has no capture groups, so a dollar sign
  before anything else stays as it is.
\<close>

fun expand :: "string \<Rightarrow> string \<Rightarrow> string \<Rightarrow> string \<Rightarrow> string" where
  "expand before matched after [] = []"
| "expand before matched after [c] = [c]"
| "expand before matched after (c # d # cs) =
     (if c = CHR ''$'' then
        (if d = CHR ''$'' then CHR ''$'' # expand before matched after cs
         else if d = CHR ''&'' then matched @ expand before matched after cs
         else if d = CHR 0x60 then before @ expand before matched after cs
         else if d = CHR 0x27 then after @ expand before matched after cs
         else c # expand before matched after (d # cs))
      else c # expand before matched after (d # cs))"

text \<open>The search for the first occurrence, with the text already passed.\<close>

fun replace_from :: "string \<Rightarrow> string \<Rightarrow> string \<Rightarrow> string \<Rightarrow> string" where
  "replace_from pat new before [] =
     (if pat = [] then before @ expand before [] [] new else before)"
| "replace_from pat new before (c # cs) =
     (if take (length pat) (c # cs) = pat
      then before @ expand before pat (drop (length pat) (c # cs)) new
             @ drop (length pat) (c # cs)
      else replace_from pat new (before @ [c]) cs)"

definition replace_first :: "string \<Rightarrow> string \<Rightarrow> string \<Rightarrow> string" where
  "replace_first pat new s = replace_from pat new [] s"

text \<open>\<^verbatim>\<open>x || ''\<close>\<close>

definition or_empty :: "string option \<Rightarrow> string" where
  "or_empty x = (if falsy x then [] else tmpl x)"

record bedrock_event =
  projectName :: "string option"
  b_eventType :: "string option"
  b_eventId :: "string option"
  b_timestamp :: "string option"
  b_author :: "string option"
  b_projectId :: "string option"
  commitMessage :: "string option"
  codeDiff :: "string option"
  developerNote :: "string option"
  source :: "string option"

text \<open>The text of \<^verbatim>\<open>prompts/prompt_template.md\<close> is the parameter \<open>template\<close>.\<close>

definition buildBedrockPrompt :: "string \<Rightarrow> bedrock_event \<Rightarrow> string" where
  "buildBedrockPrompt template ev =
     replace_first ''[VS Code Extension/Event Ingestion Backend]'' (or_empty (source ev))
    (replace_first ''[Event ID]'' (or_empty (b_eventId ev))
    (replace_first ''[If applicable]'' (or_empty (developerNote ev))
    (replace_first ''[If applicable]'' (or_empty (codeDiff ev))
    (replace_first ''[If applicable]'' (or_empty (commitMessage ev))
    (replace_first ''[Project Identifier]'' (or_empty (b_projectId ev))
    (replace_first ''[Name or ID]'' (or_empty (b_author ev))
    (replace_first ''[YYYY-MM-DD HH:MM:SS]'' (or_empty (b_timestamp ev))
    (replace_first ''[Unique Identifier]'' (or_empty (b_eventId ev))
    (replace_first ''[Commit/File Change/Developer Note]'' (or_empty (b_eventType ev))
    (replace_first ''[Project Name]'' (or_empty (projectName ev)) template))))))))))"

text \<open>\<^verbatim>\<open>bedrockApi.js\<close>: the input of the \<^verbatim>\<open>InvokeModelCommand\<close> that \<^verbatim>\<open>callBedrock\<close> sends.\<close>

record inference_config =
  maxTokens :: nat
  temperature :: real
  topP :: real

record invoke_input =
  modelId :: string
  contentType :: string
  accept :: string
  messages :: "(string \<times> string) list"
  inference :: inference_config
  latency :: string

definition callBedrock_input :: "string \<Rightarrow> bedrock_event \<Rightarrow> invoke_input" where
  "callBedrock_input template ev =
     \<lparr>modelId = ''openai.gpt-oss-120b-1:0'',
      contentType = ''application/json'',
      accept = ''application/json'',
      messages = [(''user'', buildBedrockPrompt template ev)],
      inference = \<lparr>maxTokens = 512, temperature = 1, topP = 1 / 2\<rparr>,
      latency = ''standard''\<rparr>"

text \<open>The event of \<^verbatim>\<open>test/testBedrock.js\<close>.\<close>

definition testEvent :: bedrock_event where
  "testEvent =
     \<lparr>projectName = Some ''Flowsync'', b_eventType = Some ''Commit'', b_eventId = Some ''evt-123'',
      b_timestamp = Some ''2026-02-28 10:00:00'', b_author = Some ''devuser'',
      b_projectId = Some ''proj-001'', commitMessage = Some ''Refactored backend logic'',
      codeDiff = Some ''diff --git ...'', developerNote = Some ''Improved performance'',
      source = Some ''VS Code Extension''\<rparr>"

section \<open>The linking core\<close>

text \<open>
  The linking engine, the branch resolver and the semantic search run in the Python
  Lambdas \<^verbatim>\<open>lambda/ai_processing\<close>, \<^verbatim>\<open>lambda/mcp\<close> and \<^verbatim>\<open>lambda/query\<close>, which the CDK stack
  deploys and whose code is not among the sources. This section models them from the
  specification. Times are milliseconds since the epoch.
\<close>

subsection \<open>Context records\<close>

text \<open>Modelled from the spec: the \<^verbatim>\<open>stage\<close> enumeration of a ContextRecord (section 3).\<close>

datatype stage = Setup | FeatureDevelopment | Refactoring | BugFix | Testing | Documentation

text \<open>Modelled from the spec: the lifecycle status of a ContextRecord (section 3).\<close>

datatype status = Complete | Uncommitted | Stale

text \<open>Modelled from the spec: the derived fields of a ContextRecord, produced together by
  one extraction; \<open>extractedAt\<close> is when they were produced.\<close>

record extraction =
  feature :: string
  decision :: "string option"
  tasks :: "string list"
  stage :: stage
  risk :: "string option"
  confidence :: real
  entities :: "string list"
  modelVersion :: string
  extractedAt :: int

text \<open>Modelled from the spec: the agent-authored bundle of a ContextRecord.\<close>

record agent_reasoning =
  reasoning :: string
  ar_decision :: "string option"
  ar_tasks :: "string list"
  ar_risk :: "string option"

text \<open>Modelled from the spec: the ContextRecord of section 3. \<open>pushTimestamp\<close> is the event
  timestamp of the push bound to the record, which the matching of section 4.1 reads;
  \<open>loggedAt\<close> is the submission time of the attached reasoning.\<close>

record context_record =
  contextId :: nat
  cr_projectId :: string
  cr_branch :: string
  cr_author :: string
  cr_parentBranch :: "string option"
  cr_commitHash :: "string option"
  sourceEventId :: "string option"
  pushTimestamp :: "int option"
  derived :: "extraction option"
  agentReasoning :: "agent_reasoning option"
  loggedAt :: "int option"
  embedding :: "real list option"
  status :: status
  mergedInto :: "string option"
  mergedAt :: "int option"

text \<open>Modelled from the spec: the input of \<^verbatim>\<open>handlePush\<close> (section 4.1).\<close>

record push =
  pu_eventId :: string
  pu_projectId :: string
  pu_branch :: string
  pu_parentBranch :: "string option"
  pu_author :: string
  pu_commitHash :: string
  pu_timestamp :: int
  pu_message :: string
  pu_diff :: string
  pu_changedFiles :: "string list"

text \<open>Modelled from the spec: the input of \<^verbatim>\<open>handleReasoning\<close> (section 4.1).\<close>

record submission =
  su_projectId :: string
  su_branch :: string
  su_author :: string
  su_reasoning :: agent_reasoning
  su_timestamp :: int

text \<open>Modelled from the spec: what ExtractionPort returns, before schema validation.\<close>

record raw_extraction =
  x_feature :: "string option"
  x_decision :: "string option"
  x_tasks :: "string list option"
  x_stage :: string
  x_risk :: "string option"
  x_confidence :: "real option"
  x_entities :: "string list option"
  x_modelVersion :: "string option"

text \<open>Modelled from the spec: the external capabilities of section 6. \<open>port_extract\<close> takes the
  push facts and whether the extraction is code-only; \<open>port_summarise\<close> is the canonical
  textual summary of the derived fields; \<open>port_answer\<close> is the generation port.\<close>

record ports =
  port_extract :: "push \<Rightarrow> bool \<Rightarrow> raw_extraction"
  port_embed :: "string \<Rightarrow> real list"
  port_summarise :: "extraction \<Rightarrow> string"
  port_answer :: "string \<Rightarrow> string list \<Rightarrow> string \<times> bool"

subsection \<open>LinkingEngine\<close>

text \<open>Modelled from the spec: the time proximity window of 30 minutes.\<close>

definition window :: int where
  "window = 30 * 60 * 1000"

text \<open>Modelled from the spec: the matching key \<^verbatim>\<open>(projectId, branch, author)\<close>.\<close>

definition same_key :: "string \<Rightarrow> string \<Rightarrow> string \<Rightarrow> context_record \<Rightarrow> bool" where
  "same_key pid br au r = (cr_projectId r = pid \<and> cr_branch r = br \<and> cr_author r = au)"

text \<open>Modelled from the spec: within the window, either time may be the earlier one.\<close>

definition within_window :: "int option \<Rightarrow> int \<Rightarrow> bool" where
  "within_window recorded t = (case recorded of None \<Rightarrow> False | Some u \<Rightarrow> \<bar>u - t\<bar> \<le> window)"

text \<open>Modelled from the spec: the stage names of the extraction schema.\<close>

definition parse_stage :: "string \<Rightarrow> stage option" where
  "parse_stage s =
     (if s = ''Setup'' then Some Setup
      else if s = ''FeatureDevelopment'' then Some FeatureDevelopment
      else if s = ''Refactoring'' then Some Refactoring
      else if s = ''BugFix'' then Some BugFix
      else if s = ''Testing'' then Some Testing
      else if s = ''Documentation'' then Some Documentation
      else None)"

text \<open>Modelled from the spec: schema validation of the extraction output (section 4.1,
  failure handling): a missing required field, a confidence outside [0,1] or a stage
  outside the enumeration fails.\<close>

definition validate_extraction :: "raw_extraction \<Rightarrow> int \<Rightarrow> extraction option" where
  "validate_extraction x tnow =
     (case (x_feature x, x_tasks x, parse_stage (x_stage x), x_confidence x, x_entities x,
            x_modelVersion x) of
        (Some f, Some ts, Some st, Some c, Some es, Some mv) \<Rightarrow>
          if 0 \<le> c \<and> c \<le> 1 then
            Some \<lparr>feature = f, decision = x_decision x, tasks = ts, stage = st, risk = x_risk x,
                  confidence = c, entities = es, modelVersion = mv, extractedAt = tnow\<rparr>
          else None
      | _ \<Rightarrow> None)"

text \<open>Modelled from the spec: the record an \<^verbatim>\<open>uncommitted\<close> record can be claimed by a push
  (\<^verbatim>\<open>handlePush\<close>, step 1).\<close>

definition matches_push :: "push \<Rightarrow> context_record \<Rightarrow> bool" where
  "matches_push ev r =
     (same_key (pu_projectId ev) (pu_branch ev) (pu_author ev) r \<and> status r = Uncommitted \<and>
      within_window (loggedAt r) (pu_timestamp ev))"

text \<open>Modelled from the spec: the record a reasoning submission attaches to
  (\<^verbatim>\<open>handleReasoning\<close>, step 1).\<close>

definition matches_reasoning :: "submission \<Rightarrow> context_record \<Rightarrow> bool" where
  "matches_reasoning sub r =
     (same_key (su_projectId sub) (su_branch sub) (su_author sub) r \<and> status r = Complete \<and>
      agentReasoning r = None \<and> within_window (pushTimestamp r) (su_timestamp sub))"

text \<open>Modelled from the spec: the tie-break on the closest timestamp among several
  candidates; \<open>d i\<close> is the distance of the candidate at position \<open>i\<close>.\<close>

fun closest :: "(nat \<Rightarrow> int) \<Rightarrow> nat list \<Rightarrow> nat option" where
  "closest d [] = None"
| "closest d (i # rest) =
     (case closest d rest of
        None \<Rightarrow> Some i
      | Some j \<Rightarrow> if d i \<le> d j then Some i else Some j)"

text \<open>Modelled from the spec: the positions of the records that satisfy a predicate.\<close>

definition positions :: "('a \<Rightarrow> bool) \<Rightarrow> 'a list \<Rightarrow> nat list" where
  "positions P s = filter (\<lambda>i. P (s ! i)) [0..<length s]"

text \<open>Modelled from the spec: the distance between a push and the reasoning of a record.\<close>

definition distance :: "int option \<Rightarrow> int \<Rightarrow> int" where
  "distance recorded t = (case recorded of None \<Rightarrow> 0 | Some u \<Rightarrow> \<bar>u - t\<bar>)"

text \<open>Modelled from the spec: the result of \<^verbatim>\<open>handlePush\<close>: the ContextRecord, or the
  failure reported upward when the extraction output fails validation.\<close>

datatype push_result = PushFailed | PushDone context_record

text \<open>Modelled from the spec: the record a push creates when nothing matches
  (\<^verbatim>\<open>handlePush\<close>, step 3 and 4).\<close>

definition new_complete :: "ports \<Rightarrow> push \<Rightarrow> extraction \<Rightarrow> nat \<Rightarrow> context_record" where
  "new_complete ps ev d cid =
     \<lparr>contextId = cid, cr_projectId = pu_projectId ev, cr_branch = pu_branch ev,
      cr_author = pu_author ev, cr_parentBranch = pu_parentBranch ev,
      cr_commitHash = Some (pu_commitHash ev), sourceEventId = Some (pu_eventId ev),
      pushTimestamp = Some (pu_timestamp ev), derived = Some d, agentReasoning = None,
      loggedAt = None, embedding = Some (port_embed ps (port_summarise ps d)), status = Complete,
      mergedInto = None, mergedAt = None\<rparr>"

text \<open>Modelled from the spec: the update of a claimed \<^verbatim>\<open>uncommitted\<close> record
  (\<^verbatim>\<open>handlePush\<close>, step 2 and 4); the agent reasoning is kept.\<close>

definition bind_push :: "ports \<Rightarrow> push \<Rightarrow> extraction \<Rightarrow> context_record \<Rightarrow> context_record" where
  "bind_push ps ev d r =
     r\<lparr>cr_commitHash := Some (pu_commitHash ev), sourceEventId := Some (pu_eventId ev),
       pushTimestamp := Some (pu_timestamp ev), derived := Some d,
       embedding := Some (port_embed ps (port_summarise ps d)), status := Complete\<rparr>"

text \<open>Modelled from the spec: \<^verbatim>\<open>handlePush\<close> (section 4.1). \<open>tnow\<close> is the time of the
  extraction. A push whose \<^verbatim>\<open>eventId\<close> a record already has is a no-op; an extraction
  that fails validation leaves the store as it was.\<close>

definition handlePush :: "ports \<Rightarrow> int \<Rightarrow> push \<Rightarrow> context_record list \<Rightarrow> push_result \<times> context_record list" where
  "handlePush ps tnow ev s =
     (case find (\<lambda>r. sourceEventId r = Some (pu_eventId ev)) s of
        Some r \<Rightarrow> (PushDone r, s)
      | None \<Rightarrow>
          (case closest (\<lambda>i. distance (loggedAt (s ! i)) (pu_timestamp ev))
                  (positions (matches_push ev) s) of
             Some i \<Rightarrow>
               (case validate_extraction (port_extract ps ev True) tnow of
                  None \<Rightarrow> (PushFailed, s)
                | Some d \<Rightarrow> (PushDone (bind_push ps ev d (s ! i)), s[i := bind_push ps ev d (s ! i)]))
           | None \<Rightarrow>
               (case validate_extraction (port_extract ps ev False) tnow of
                  None \<Rightarrow> (PushFailed, s)
                | Some d \<Rightarrow>
                    (PushDone (new_complete ps ev d (length s)),
                     s @ [new_complete ps ev d (length s)]))))"

text \<open>Modelled from the spec: the record a reasoning submission creates when nothing
  matches (\<^verbatim>\<open>handleReasoning\<close>, step 3).\<close>

definition new_uncommitted :: "submission \<Rightarrow> nat \<Rightarrow> context_record" where
  "new_uncommitted sub cid =
     \<lparr>contextId = cid, cr_projectId = su_projectId sub, cr_branch = su_branch sub,
      cr_author = su_author sub, cr_parentBranch = None, cr_commitHash = None,
      sourceEventId = None, pushTimestamp = None, derived = None,
      agentReasoning = Some (su_reasoning sub), loggedAt = Some (su_timestamp sub),
      embedding = None, status = Uncommitted, mergedInto = None, mergedAt = None\<rparr>"

text \<open>Modelled from the spec: \<^verbatim>\<open>handleReasoning\<close> (section 4.1); the result is the status
  of the record that holds the reasoning. Of several matching records the first in the
  store is taken (the spec names no tie-break here).\<close>

definition handleReasoning :: "submission \<Rightarrow> context_record list \<Rightarrow> status \<times> context_record list" where
  "handleReasoning sub s =
     (case positions (matches_reasoning sub) s of
        i # _ \<Rightarrow>
          (Complete,
           s[i := (s ! i)\<lparr>agentReasoning := Some (su_reasoning sub),
                          loggedAt := Some (su_timestamp sub)\<rparr>])
      | [] \<Rightarrow> (Uncommitted, s @ [new_uncommitted sub (length s)]))"

subsection \<open>BranchResolver\<close>

text \<open>Modelled from the spec: insertion of one element before the first element it may
  precede, for an order given as a relation.\<close>

fun insert_by :: "('a \<Rightarrow> 'a \<Rightarrow> bool) \<Rightarrow> 'a \<Rightarrow> 'a list \<Rightarrow> 'a list" where
  "insert_by before x [] = [x]"
| "insert_by before x (y # ys) =
     (if before x y then x # y # ys else y # insert_by before x ys)"

text \<open>Modelled from the spec: sorting by such an order (``ordered by \<^verbatim>\<open>extractedAt\<close>
  descending'', ``sort descending by score'').\<close>

definition sort_by :: "('a \<Rightarrow> 'a \<Rightarrow> bool) \<Rightarrow> 'a list \<Rightarrow> 'a list" where
  "sort_by before xs = foldr (insert_by before) xs []"

text \<open>Modelled from the spec: a record counts as native to a branch when it was created
  on it or has been merged into it (section 4.2, merge event).\<close>

definition native_to :: "string \<Rightarrow> context_record \<Rightarrow> bool" where
  "native_to b r = (cr_branch r = b \<or> mergedInto r = Some b)"

text \<open>Modelled from the spec: the complete records of a branch (\<^verbatim>\<open>resolve\<close>, step 1).\<close>

definition branch_records :: "string \<Rightarrow> string \<Rightarrow> context_record list \<Rightarrow> context_record list" where
  "branch_records pid b s =
     filter (\<lambda>r. cr_projectId r = pid \<and> native_to b r \<and> status r = Complete) s"

text \<open>Modelled from the spec: the more recent \<^verbatim>\<open>extractedAt\<close> first; a record without
  derived fields is older than any record with them.\<close>

definition more_recent :: "context_record \<Rightarrow> context_record \<Rightarrow> bool" where
  "more_recent a b =
     (case derived b of
        None \<Rightarrow> True
      | Some y \<Rightarrow> (case derived a of None \<Rightarrow> False | Some x \<Rightarrow> extractedAt y \<le> extractedAt x))"

text \<open>Modelled from the spec: the most recent \<open>limit\<close> records, all of them when the limit
  is unbounded (\<open>None\<close>).\<close>

definition most_recent :: "nat option \<Rightarrow> context_record list \<Rightarrow> context_record list" where
  "most_recent limit rs =
     (case limit of None \<Rightarrow> sort_by more_recent rs | Some n \<Rightarrow> take n (sort_by more_recent rs))"

text \<open>Modelled from the spec: the recorded \<^verbatim>\<open>parentBranch\<close> of a branch, as captured on
  the first record created on it that has one (\<^verbatim>\<open>resolve\<close>, step 2).\<close>

definition parent_of :: "string \<Rightarrow> string \<Rightarrow> context_record list \<Rightarrow> string option" where
  "parent_of pid b s =
     (case List.map_filter cr_parentBranch
             (filter (\<lambda>r. cr_projectId r = pid \<and> cr_branch r = b) s) of
        [] \<Rightarrow> None
      | p # _ \<Rightarrow> Some p)"

text \<open>Modelled from the spec: a resolved record, annotated with its origin branch and
  with whether it comes from a branch other than the one asked about (\<^verbatim>\<open>resolve\<close>,
  step 4).\<close>

record resolved =
  entry :: context_record
  origin :: string
  inherited :: bool

text \<open>Modelled from the spec: the annotation of a record resolved for branch \<open>b\<close>.\<close>

definition annotate :: "string \<Rightarrow> context_record \<Rightarrow> resolved" where
  "annotate b r = \<lparr>entry = r, origin = cr_branch r, inherited = (cr_branch r \<noteq> b)\<rparr>"

text \<open>Modelled from the spec: \<^verbatim>\<open>resolve(projectId, branch, limit)\<close> (section 4.2): the
  records of the branch first, then those of its immediate parent, both listed.\<close>

definition resolve :: "string \<Rightarrow> string \<Rightarrow> nat option \<Rightarrow> context_record list \<Rightarrow> resolved list" where
  "resolve pid b limit s =
     map (annotate b) (most_recent limit (branch_records pid b s)) @
     (case parent_of pid b s of
        None \<Rightarrow> []
      | Some p \<Rightarrow> map (annotate b) (most_recent limit (branch_records pid p s)))"

text \<open>Modelled from the spec: the merge event \<^verbatim>\<open>onBranchMerged\<close> (section 4.2).\<close>

definition onBranchMerged :: "string \<Rightarrow> string \<Rightarrow> int \<Rightarrow> context_record list \<Rightarrow> context_record list" where
  "onBranchMerged sourceBranch targetBranch t s =
     map (\<lambda>r. if cr_branch r = sourceBranch \<and> mergedInto r = None
              then r\<lparr>mergedInto := Some targetBranch, mergedAt := Some t\<rparr>
              else r) s"

subsection \<open>SemanticSearch\<close>

text \<open>Modelled from the spec: the dot product of the score formula.\<close>

definition dot :: "real list \<Rightarrow> real list \<Rightarrow> real" where
  "dot a b = sum_list (map (\<lambda>(x, y). x * y) (zip a b))"

text \<open>Modelled from the spec: the magnitude \<open>|a|\<close> of a vector.\<close>

definition magnitude :: "real list \<Rightarrow> real" where
  "magnitude a = sqrt (dot a a)"

text \<open>Modelled from the spec: cosine similarity, 0 when either vector has zero magnitude
  (\<^verbatim>\<open>search\<close>, step 3).\<close>

definition cosine :: "real list \<Rightarrow> real list \<Rightarrow> real" where
  "cosine a b =
     (if magnitude a = 0 \<or> magnitude b = 0 then 0
      else dot a b / (magnitude a * magnitude b))"

text \<open>Modelled from the spec: a candidate of the search: a resolved record that has an
  embedding, with the derived fields the ranking reads (\<^verbatim>\<open>search\<close>, step 1).\<close>

record candidate =
  found :: resolved
  vector :: "real list"
  extracted :: extraction

text \<open>Modelled from the spec: a resolved record is a candidate when it has an embedding
  and derived fields.\<close>

definition as_candidate :: "resolved \<Rightarrow> candidate option" where
  "as_candidate x =
     (case embedding (entry x) of
        None \<Rightarrow> None
      | Some e \<Rightarrow>
          (case derived (entry x) of
             None \<Rightarrow> None
           | Some d \<Rightarrow> Some \<lparr>found = x, vector = e, extracted = d\<rparr>))"

text \<open>Modelled from the spec: the candidate set of a search: what \<^verbatim>\<open>resolve\<close> returns
  for the branch with an unbounded limit, restricted to the records with an embedding.\<close>

definition candidates :: "string \<Rightarrow> string \<Rightarrow> context_record list \<Rightarrow> candidate list" where
  "candidates pid b s = List.map_filter as_candidate (resolve pid b None s)"

text \<open>Modelled from the spec: a ranked result: the score and the record.\<close>

record ranked =
  score :: real
  hit :: candidate

text \<open>Modelled from the spec: the ranking order: higher score first; on equal scores the
  higher confidence; on equal confidence the more recent \<^verbatim>\<open>extractedAt\<close> (\<^verbatim>\<open>search\<close>,
  step 4).\<close>

definition ranks_before :: "ranked \<Rightarrow> ranked \<Rightarrow> bool" where
  "ranks_before x y =
     (score y < score x
      \<or> (score x = score y
          \<and> (confidence (extracted (hit y)) < confidence (extracted (hit x))
              \<or> (confidence (extracted (hit x)) = confidence (extracted (hit y))
                  \<and> extractedAt (extracted (hit y)) \<le> extractedAt (extracted (hit x))))))"

text \<open>Modelled from the spec: the output of \<^verbatim>\<open>search\<close>: an explicit insufficient-information
  result, or the ranked results with the generated answer and its groundedness flag.
  \<open>generation_calls\<close> lists the calls made to the generation port.\<close>

datatype outcome_kind = InsufficientInformation | Answered

text \<open>Modelled from the spec: the fields of the output of \<^verbatim>\<open>search\<close> (step 7).\<close>

record search_result =
  kind :: outcome_kind
  results :: "ranked list"
  answer_text :: "string option"
  grounded :: bool
  generation_calls :: "(string \<times> string list) list"

text \<open>Modelled from the spec: \<^verbatim>\<open>search(projectId, branch, query, limit)\<close> (section 4.3).\<close>

definition search :: "ports \<Rightarrow> string \<Rightarrow> string \<Rightarrow> string \<Rightarrow> nat \<Rightarrow> context_record list \<Rightarrow> search_result" where
  "search ps pid b query limit s =
     (let cs = candidates pid b s;
          q = port_embed ps query;
          top = take limit (sort_by ranks_before (map (\<lambda>c. \<lparr>score = cosine (vector c) q, hit = c\<rparr>) cs));
          passages = map (\<lambda>x. port_summarise ps (extracted (hit x))) top
      in if cs = [] then
           \<lparr>kind = InsufficientInformation, results = [], answer_text = None, grounded = False,
            generation_calls = []\<rparr>
         else
           \<lparr>kind = Answered, results = top, answer_text = Some (fst (port_answer ps query passages)),
            grounded = snd (port_answer ps query passages),
            generation_calls = [(query, passages)]\<rparr>)"

subsection \<open>Scenarios of the specification\<close>

definition alice_extraction :: extraction where
  "alice_extraction = \<lparr>feature = ''Auth'', decision = None, tasks = [], stage = FeatureDevelopment,
     risk = None, confidence = 9 / 10, entities = [], modelVersion = ''m1'', extractedAt = 5\<rparr>"

text \<open>Scenario A: the record of Alice's push on \<^verbatim>\<open>feature/auth\<close> at time 0.\<close>

definition record_a :: context_record where
  "record_a = \<lparr>contextId = 0, cr_projectId = ''proj-1'', cr_branch = ''feature/auth'',
     cr_author = ''Alice'', cr_parentBranch = Some ''main'',
     cr_commitHash = Some ''0123456789abcdef0123456789abcdef01234567'',
     sourceEventId = Some ''e1'', pushTimestamp = Some 0, derived = Some alice_extraction,
     agentReasoning = None, loggedAt = None, embedding = Some [1, 0], status = Complete,
     mergedInto = None, mergedAt = None\<rparr>"

definition jwt_reasoning :: agent_reasoning where
  "jwt_reasoning = \<lparr>reasoning = ''switched to JWT'', ar_decision = None, ar_tasks = [], ar_risk = None\<rparr>"

text \<open>Scenario C: Bob's reasoning on \<^verbatim>\<open>release/v2\<close>, logged at time 0 with no push.\<close>

definition record_c :: context_record where
  "record_c = new_uncommitted \<lparr>su_projectId = ''proj-1'', su_branch = ''release/v2'',
     su_author = ''Bob'', su_reasoning = jwt_reasoning, su_timestamp = 0\<rparr> 1"

definition store_ac :: "context_record list" where
  "store_ac = [record_a, record_c]"

text \<open>Alice's reasoning, submitted a given number of minutes after her push.\<close>

definition alice_submission :: "int \<Rightarrow> submission" where
  "alice_submission minutes = \<lparr>su_projectId = ''proj-1'', su_branch = ''feature/auth'',
     su_author = ''Alice'', su_reasoning = jwt_reasoning, su_timestamp = minutes * 60000\<rparr>"

text \<open>Scenario D: Bob's push, 40 minutes after his reasoning.\<close>

definition bob_push :: push where
  "bob_push = \<lparr>pu_eventId = ''e2'', pu_projectId = ''proj-1'', pu_branch = ''release/v2'',
     pu_parentBranch = Some ''main'', pu_author = ''Bob'',
     pu_commitHash = ''89abcdef0123456789abcdef0123456789abcdef'', pu_timestamp = 40 * 60000,
     pu_message = ''release'', pu_diff = ''+y'', pu_changedFiles = []\<rparr>"

definition ports0 :: ports where
  "ports0 = \<lparr>port_extract = (\<lambda>ev code_only.
       \<lparr>x_feature = Some ''Release'', x_decision = None, x_tasks = Some [], x_stage = ''Testing'',
        x_risk = None, x_confidence = Some (1 / 2), x_entities = Some [], x_modelVersion = Some ''m1''\<rparr>),
     port_embed = (\<lambda>t. [0, 1]),
     port_summarise = feature,
     port_answer = (\<lambda>q passages. (''answer'', True))\<rparr>"

text \<open>A second push of Alice on \<^verbatim>\<open>feature/auth\<close>, extracted later and with lower
  confidence.\<close>

definition record_b :: context_record where
  "record_b = \<lparr>contextId = 2, cr_projectId = ''proj-1'', cr_branch = ''feature/auth'',
     cr_author = ''Alice'', cr_parentBranch = Some ''main'',
     cr_commitHash = Some ''89abcdef0123456789abcdef0123456789abcdef'',
     sourceEventId = Some ''e3'', pushTimestamp = Some 6, derived = Some (alice_extraction\<lparr>confidence := 1 / 2, extractedAt := 7\<rparr>),
     agentReasoning = None, loggedAt = None, embedding = Some [0, 1], status = Complete,
     mergedInto = None, mergedAt = None\<rparr>"

definition store_ab :: "context_record list" where
  "store_ab = [record_a, record_b]"

definition candidate_a :: candidate where
  "candidate_a = \<lparr>found = annotate ''feature/auth'' record_a, vector = [1, 0], extracted = alice_extraction\<rparr>"

definition candidate_b :: candidate where
  "candidate_b = \<lparr>found = annotate ''feature/auth'' record_b, vector = [0, 1],
     extracted = alice_extraction\<lparr>confidence := 1 / 2, extractedAt := 7\<rparr>\<rparr>"

section \<open>Properties of the ingestion route\<close>

subsection \<open>Hexadecimal encoding and the token helpers\<close>

lemma hexval_hexdigit: "n < 16 \<Longrightarrow> hexval (hexdigit n) = Some n"
proof -
  have "\<forall>n \<in> set [0..<16]. hexval (hexdigit n) = Some n"
    by code_simp
  then show "n < 16 \<Longrightarrow> hexval (hexdigit n) = Some n" by simp
qed

lemma hexdigit_not_colon: "hexdigit n \<noteq> CHR '':''"
proof -
  have "\<forall>n \<in> set [0..<16]. hexdigit n \<noteq> CHR '':''"
    by code_simp
  moreover have "hexdigit n = hexdigit (n mod 16)" by (simp add: hexdigit_def)
  moreover have "n mod 16 \<in> set [0..<16]" by simp
  ultimately show ?thesis by metis
qed

lemma byte_recompose: "(of_nat (16 * (unat b div 16) + unat b mod 16) :: byte) = b"
  by simp

lemma fromHex_toHex: "fromHex (toHex bs) = bs"
proof (induction bs)
  case Nil
  then show ?case by (simp add: toHex_def)
next
  case (Cons b bs)
  have "unat b < 256" using unsigned_less[of b] by simp
  then have d: "unat b div 16 < 16" by simp
  have m: "unat b mod 16 < 16" by simp
  from Cons show ?case
    using hexval_hexdigit[OF d] hexval_hexdigit[OF m]
    by (simp add: toHex_def)
qed

lemma toHex_no_colon: "CHR '':'' \<notin> set (toHex bs)"
  using hexdigit_not_colon by (induction bs) (auto simp: toHex_def dest: sym)

lemma toHex_eq_Nil: "toHex bs = [] \<longleftrightarrow> bs = []"
  by (cases bs) (simp_all add: toHex_def)

lemma split_on_none: "sep \<notin> set s \<Longrightarrow> split_on sep s = [s]"
  by (induction s) auto

lemma split_on_append: "sep \<notin> set a \<Longrightarrow> split_on sep (a @ sep # b) = a # split_on sep b"
  by (induction a) auto

lemma verify_digest_eq:
  assumes len: "\<And>p s n. length (kdf p s n) = n" and sb: "salt_bytes \<noteq> []"
  shows "verifyToken kdf t' (Some (hashToken kdf salt_bytes t)) =
         Inr (kdf t' (toHex salt_bytes) 64 = kdf t (toHex salt_bytes) 64)"
proof -
  let ?salt = "toHex salt_bytes"
  let ?hash = "toHex (kdf t ?salt 64)"
  have parts: "split_on CHR '':'' (?salt @ '':'' @ ?hash) = [?salt, ?hash]"
    using split_on_append[OF toHex_no_colon, of salt_bytes ?hash]
          split_on_none[OF toHex_no_colon, of "kdf t ?salt 64"] by simp
  have s: "?salt \<noteq> []" using sb by (simp add: toHex_eq_Nil)
  have "kdf t ?salt 64 \<noteq> []" using len[of t ?salt 64] by auto
  then have h: "?hash \<noteq> []" by (simp add: toHex_eq_Nil)
  have v: "verifyToken kdf t' (Some (?salt @ '':'' @ ?hash)) =
      timingSafeEqual (fromHex ?hash) (fromHex (toHex (kdf t' ?salt 64)))"
    unfolding verifyToken_def Let_def option.case parts
    using s h by (simp add: at_index_def falsy_def tmpl_def)
  show ?thesis
    unfolding hashToken_def Let_def v
    using len by (auto simp: timingSafeEqual_def fromHex_toHex)
qed

lemma kdf_collision:
  fixes kdf :: scrypt
  assumes len: "\<And>p s n. length (kdf p s n) = n"
  shows "\<exists>t t'. t' \<noteq> t \<and> kdf t' s 64 = kdf t s 64"
proof -
  let ?f = "\<lambda>t. kdf t s 64"
  have fin: "finite {bs :: byte list. length bs = 64}"
    using finite_lists_length_eq[of "UNIV :: byte set" 64] by simp
  have "range ?f \<subseteq> {bs. length bs = 64}" using len by auto
  then have "finite (range ?f)" using fin finite_subset by blast
  moreover have "infinite (UNIV :: string set)" by (rule infinite_UNIV_listI)
  ultimately have "\<not> inj ?f" using finite_imageD by blast
  then show ?thesis unfolding inj_on_def by blast
qed

subsection \<open>Validation\<close>

lemma rep_Some_iff:
  "rep p n s = Some r \<longleftrightarrow> n \<le> length s \<and> list_all p (take n s) \<and> r = drop n s"
  by (induction p n s rule: rep.induct) auto

lemma COMMIT_HASH_iff: "COMMIT_HASH s = forty_hex s"
  by (auto simp: COMMIT_HASH_def forty_hex_def rep_Some_iff)

lemma listed_append: "listed f (xs @ ys) = (listed f xs \<or> listed f ys)"
  by (simp add: listed_def)

lemma listed_Cons: "listed f (x # xs) = (take (Suc (length f)) x = f @ '':'' \<or> listed f xs)"
  by (simp add: listed_def)

lemma listed_Nil: "\<not> listed f []"
  by (simp add: listed_def)

lemma UUID_V4_Nil: "\<not> UUID_V4 []"
  by (simp add: UUID_V4_def andThen_def eval_nat_numeral)

lemma ISO_8601_Nil: "\<not> ISO_8601 []"
  by (simp add: ISO_8601_def andThen_def eval_nat_numeral)

lemma forty_hex_Nil: "\<not> forty_hex []"
  by (simp add: forty_hex_def)

lemma reads_as_JStr: "reads_as js P (Some (JStr s)) = (s \<noteq> [] \<and> P s)"
  by (simp add: reads_as_def truthy_def ToStringV_def)

lemma reads_as_None: "\<not> reads_as js P None"
  by (simp add: reads_as_def truthy_def)

lemma textual_cases: "textual x \<Longrightarrow> x = None \<or> (\<exists>s. x = Some (JStr s))"
  by (auto simp: textual_def split: option.splits json.splits)

lemma reads_as_textual:
  assumes "textual x" and "\<not> P []"
  shows "reads_as js P x = str_holds P x"
  using textual_cases[OF assms(1)] assms(2)
  by (auto simp: reads_as_JStr reads_as_None str_holds_def)

lemma truthy_textual: "textual x \<Longrightarrow> truthy x = str_holds non_empty x"
  using textual_cases[of x] by (auto simp: truthy_def str_holds_def non_empty_def)

lemma thenE_Inr_iff: "thenE r f = Inr y \<longleftrightarrow> (\<exists>a. r = Inr a \<and> f a = Inr y)"
  by (cases r) (simp_all add: thenE_def)

lemma thenE_simps: "thenE (Inr a) f = f a" "thenE (Inl e) f = Inl e"
  by (simp_all add: thenE_def)

lemma test_reads_as:
  assumes "truthy x" and "test P js x = Inr ok"
  shows "ok = reads_as js P x"
  using assms by (auto simp: test_def reads_as_def split: sum.splits)

lemma eventId_errors_Inr:
  assumes "eventId_errors js ev = Inr errs"
  shows "(errs = [] \<longleftrightarrow> reads_as js UUID_V4 (property ev ''eventId''))
       \<and> (errs \<noteq> [] \<longrightarrow> listed ''eventId'' errs)"
proof (cases "truthy (property ev ''eventId'')")
  case False
  then show ?thesis using assms by (auto simp: eventId_errors_def reads_as_def listed_Cons)
next
  case True
  then obtain ok where ok: "test UUID_V4 js (property ev ''eventId'') = Inr ok"
    and errs: "errs = (if ok then [] else [''eventId: must be a valid UUID v4''])"
    using assms by (auto simp: eventId_errors_def thenE_Inr_iff)
  from test_reads_as[OF True ok] errs show ?thesis by (auto simp: listed_Cons)
qed

lemma timestamp_errors_Inr:
  assumes "timestamp_errors js ev = Inr errs"
  shows "(errs = [] \<longleftrightarrow> reads_as js ISO_8601 (property ev ''timestamp''))
       \<and> (errs \<noteq> [] \<longrightarrow> listed ''timestamp'' errs)"
proof (cases "truthy (property ev ''timestamp'')")
  case False
  then show ?thesis using assms by (auto simp: timestamp_errors_def reads_as_def listed_Cons)
next
  case True
  then obtain ok where ok: "test ISO_8601 js (property ev ''timestamp'') = Inr ok"
    and errs: "errs = (if ok then [] else [''timestamp: must be valid ISO 8601 UTC''])"
    using assms by (auto simp: timestamp_errors_def thenE_Inr_iff)
  from test_reads_as[OF True ok] errs show ?thesis by (auto simp: listed_Cons)
qed

lemma commitHash_errors_Inr:
  assumes "commitHash_errors js p = Inr errs"
  shows "(errs = [] \<longleftrightarrow> reads_as js forty_hex (property p ''commitHash''))
       \<and> (errs \<noteq> [] \<longrightarrow> listed ''commitHash'' errs)"
proof (cases "truthy (property p ''commitHash'')")
  case False
  then show ?thesis using assms by (auto simp: commitHash_errors_def reads_as_def listed_Cons)
next
  case True
  then obtain ok where ok: "test COMMIT_HASH js (property p ''commitHash'') = Inr ok"
    and errs: "errs = (if ok then [] else [''commitHash: must be exactly 40 hex characters''])"
    using assms by (auto simp: commitHash_errors_def thenE_Inr_iff)
  have "COMMIT_HASH = forty_hex" by (rule ext) (rule COMMIT_HASH_iff)
  with test_reads_as[OF True ok] errs show ?thesis by (auto simp: listed_Cons)
qed

lemma branch_errors_Inr:
  assumes "branch_errors js ev = Inr errs"
  shows "(errs = [] \<longrightarrow> truthy (property ev ''branch''))
       \<and> (\<not> truthy (property ev ''branch'') \<longrightarrow> listed ''branch'' errs)"
  using assms
  by (auto simp: branch_errors_def truthy_def listed_Cons thenE_Inr_iff
      split: option.splits if_splits)

lemma header_errors_Inr:
  assumes "header_errors js ev = Inr errs"
  shows "\<exists>e1 e4 e5. eventId_errors js ev = Inr e1 \<and> timestamp_errors js ev = Inr e4
           \<and> branch_errors js ev = Inr e5
           \<and> errs = e1 @ projectId_errors ev @ eventType_errors ev @ e4 @ e5"
  using assms by (auto simp: header_errors_def thenE_Inr_iff)

lemma header_errors_lists:
  assumes "header_errors js ev = Inr errs"
  shows "(\<not> reads_as js UUID_V4 (property ev ''eventId'') \<longrightarrow> listed ''eventId'' errs)
       \<and> (\<not> reads_as js ISO_8601 (property ev ''timestamp'') \<longrightarrow> listed ''timestamp'' errs)
       \<and> (\<not> truthy (property ev ''branch'') \<longrightarrow> listed ''branch'' errs)"
proof -
  from header_errors_Inr[OF assms] obtain e1 e4 e5 where
    h: "eventId_errors js ev = Inr e1" "timestamp_errors js ev = Inr e4"
       "branch_errors js ev = Inr e5"
       "errs = e1 @ projectId_errors ev @ eventType_errors ev @ e4 @ e5"
    by blast
  show ?thesis
    using eventId_errors_Inr[OF h(1)] timestamp_errors_Inr[OF h(2)] branch_errors_Inr[OF h(3)]
    by (auto simp: h(4) listed_append)
qed

lemma header_errors_Nil:
  assumes "header_errors js ev = Inr []"
  shows "reads_as js UUID_V4 (property ev ''eventId'')
       \<and> reads_as js ISO_8601 (property ev ''timestamp'')
       \<and> truthy (property ev ''branch'')"
  using header_errors_lists[OF assms] by (auto simp: listed_Nil)

lemma push_errors_Inr:
  assumes "push_errors js p = Inr errs"
  shows "(errs = [] \<longrightarrow> reads_as js forty_hex (property p ''commitHash''))
       \<and> (\<not> reads_as js forty_hex (property p ''commitHash'') \<longrightarrow> listed ''commitHash'' errs)"
proof -
  from assms obtain e1 rest where e: "commitHash_errors js p = Inr e1" "errs = e1 @ rest"
    by (auto simp: push_errors_def thenE_Inr_iff)
  show ?thesis using commitHash_errors_Inr[OF e(1)] by (auto simp: e(2) listed_append)
qed

text \<open>What the validator's list says of a push.\<close>

lemma validateEvent_Inr:
  assumes "property ev ''eventType'' = Some (JStr ''push'')" and "validateEvent js ev = Inr errs"
  shows "\<exists>he. header_errors js ev = Inr he \<and>
           (if truthy (property ev ''payload'')
            then \<exists>p pe. property ev ''payload'' = Some p \<and> push_errors js p = Inr pe
                   \<and> errs = he @ pe
            else errs = he @ [''payload: required''])"
  using assms
  by (auto simp: validateEvent_def thenE_Inr_iff truthy_def split: option.splits if_splits)

lemma validateEvent_lists:
  assumes "property ev ''eventType'' = Some (JStr ''push'')" and "validateEvent js ev = Inr errs"
  shows "(\<not> reads_as js UUID_V4 (property ev ''eventId'') \<longrightarrow> listed ''eventId'' errs)
       \<and> (\<not> reads_as js ISO_8601 (property ev ''timestamp'') \<longrightarrow> listed ''timestamp'' errs)
       \<and> (\<not> truthy (property ev ''branch'') \<longrightarrow> listed ''branch'' errs)
       \<and> (\<not> truthy (property ev ''payload'') \<longrightarrow> listed ''payload'' errs)
       \<and> (\<forall>p. property ev ''payload'' = Some p \<and> truthy (Some p)
              \<and> \<not> reads_as js forty_hex (property p ''commitHash'') \<longrightarrow>
            listed ''commitHash'' errs)"
proof -
  from validateEvent_Inr[OF assms] obtain he where
    he: "header_errors js ev = Inr he"
    and rest: "if truthy (property ev ''payload'')
            then \<exists>p pe. property ev ''payload'' = Some p \<and> push_errors js p = Inr pe
                   \<and> errs = he @ pe
            else errs = he @ [''payload: required'']"
    by blast
  show ?thesis
  proof (cases "truthy (property ev ''payload'')")
    case False
    with rest have "errs = he @ [''payload: required'']" by simp
    then show ?thesis using header_errors_lists[OF he] False
      by (auto simp: listed_append listed_Cons)
  next
    case True
    with rest obtain p pe where p: "property ev ''payload'' = Some p"
      "push_errors js p = Inr pe" "errs = he @ pe" by auto
    show ?thesis using header_errors_lists[OF he] push_errors_Inr[OF p(2)] True
      by (auto simp: p(1,3) listed_append)
  qed
qed

lemma validateEvent_Nil_push:
  assumes "property ev ''eventType'' = Some (JStr ''push'')" and "validateEvent js ev = Inr []"
  shows "coerced_form js ev"
proof -
  have l: "\<not> listed f []" for f by (simp add: listed_def)
  from validateEvent_lists[OF assms] l
  have a: "reads_as js UUID_V4 (property ev ''eventId'')"
    "reads_as js ISO_8601 (property ev ''timestamp'')"
    "truthy (property ev ''branch'')" "truthy (property ev ''payload'')"
    "\<forall>p. property ev ''payload'' = Some p \<and> truthy (Some p) \<longrightarrow>
       reads_as js forty_hex (property p ''commitHash'')"
    by blast+
  from a(4) obtain p where p: "property ev ''payload'' = Some p"
    by (cases "property ev ''payload''") (auto simp: truthy_def)
  with a show ?thesis by (simp add: coerced_form_def)
qed

lemma validateEvent_Nil_payload:
  assumes "validateEvent js ev = Inr []"
  shows "\<exists>p. payload_of ev = Inr p \<and> property ev ''payload'' = Some p"
  using assms
  by (auto simp: validateEvent_def thenE_Inr_iff payload_of_def truthy_def
      split: option.splits if_splits json.splits)

lemma validateEvent_Nil_strings:
  assumes "validateEvent js ev = Inr []"
  shows "\<exists>ts eid. ToStringV js (property ev ''timestamp'') = Inr ts
                \<and> ToStringV js (property ev ''eventId'') = Inr eid"
proof -
  from assms have "header_errors js ev = Inr []"
    by (auto simp: validateEvent_def thenE_Inr_iff split: option.splits if_splits)
  from header_errors_Nil[OF this] show ?thesis
    by (auto simp: reads_as_def split: sum.splits)
qed

subsection \<open>Events whose fields are strings\<close>

lemma test_textual: "textual x \<Longrightarrow> truthy x \<Longrightarrow> \<exists>ok. test P js x = Inr ok"
  using textual_cases[of x] by (auto simp: test_def ToStringV_def truthy_def)

lemma eventId_errors_textual:
  "textual (property ev ''eventId'') \<Longrightarrow> \<exists>errs. eventId_errors js ev = Inr errs"
  using test_textual[of "property ev ''eventId''" UUID_V4 js]
  by (auto simp: eventId_errors_def thenE_def)

lemma timestamp_errors_textual:
  "textual (property ev ''timestamp'') \<Longrightarrow> \<exists>errs. timestamp_errors js ev = Inr errs"
  using test_textual[of "property ev ''timestamp''" ISO_8601 js]
  by (auto simp: timestamp_errors_def thenE_def)

lemma commitHash_errors_textual:
  "textual (property p ''commitHash'') \<Longrightarrow> \<exists>errs. commitHash_errors js p = Inr errs"
  using test_textual[of "property p ''commitHash''" COMMIT_HASH js]
  by (auto simp: commitHash_errors_def thenE_def)

lemma branch_errors_textual:
  "textual (property ev ''branch'') \<Longrightarrow> \<exists>errs. branch_errors js ev = Inr errs"
  using textual_cases[of "property ev ''branch''"]
  by (auto simp: branch_errors_def thenE_def length_exceeds_def)

lemma header_errors_textual:
  assumes "string_fields ev"
  shows "\<exists>errs. header_errors js ev = Inr errs"
proof -
  from assms have t: "textual (property ev ''eventId'')" "textual (property ev ''timestamp'')"
    "textual (property ev ''branch'')" by (simp_all add: string_fields_def)
  from eventId_errors_textual[OF t(1)] timestamp_errors_textual[OF t(2)]
    branch_errors_textual[OF t(3)]
  obtain e1 e4 e5 where "eventId_errors js ev = Inr e1" "timestamp_errors js ev = Inr e4"
    "branch_errors js ev = Inr e5" by blast
  then show ?thesis by (simp add: header_errors_def thenE_simps)
qed

text \<open>The validation of a push whose four fields are strings does not throw.\<close>

lemma validateEvent_textual:
  assumes "property ev ''eventType'' = Some (JStr ''push'')" and "string_fields ev"
  shows "\<exists>errs. validateEvent js ev = Inr errs"
proof -
  from header_errors_textual[OF assms(2)] obtain he where he: "header_errors js ev = Inr he"
    by blast
  show ?thesis
  proof (cases "property ev ''payload''")
    case None
    then show ?thesis by (simp add: validateEvent_def he thenE_simps)
  next
    case (Some p)
    with assms(2) have "textual (property p ''commitHash'')" by (simp add: string_fields_def)
    from commitHash_errors_textual[OF this] obtain ce where "commitHash_errors js p = Inr ce"
      by blast
    then have "\<exists>pe. push_errors js p = Inr pe" by (simp add: push_errors_def thenE_simps)
    then show ?thesis using Some assms(1)
      by (auto simp: validateEvent_def he thenE_simps)
  qed
qed

lemma coerced_form_textual:
  assumes "string_fields ev"
  shows "coerced_form js ev = accepted_form ev"
proof -
  from assms have t: "textual (property ev ''eventId'')" "textual (property ev ''timestamp'')"
    "textual (property ev ''branch'')" by (simp_all add: string_fields_def)
  have p: "(case property ev ''payload'' of
            None \<Rightarrow> False
          | Some p \<Rightarrow> truthy (Some p) \<and> reads_as js forty_hex (property p ''commitHash''))
        = (case property ev ''payload'' of
            None \<Rightarrow> False
          | Some p \<Rightarrow> str_holds forty_hex (property p ''commitHash''))"
  proof (cases "property ev ''payload''")
    case None
    then show ?thesis by simp
  next
    case (Some p)
    with assms have c: "textual (property p ''commitHash'')" by (simp add: string_fields_def)
    have "str_holds forty_hex (property p ''commitHash'') \<Longrightarrow> truthy (Some p)"
      by (cases p) (auto simp: property_def str_holds_def truthy_def)
    then show ?thesis
      using Some reads_as_textual[where P = forty_hex and js = js, OF c forty_hex_Nil] by auto
  qed
  show ?thesis
    unfolding coerced_form_def accepted_form_def p
    using reads_as_textual[where P = UUID_V4 and js = js, OF t(1) UUID_V4_Nil] reads_as_textual[where P = ISO_8601 and js = js, OF t(2) ISO_8601_Nil]
      truthy_textual[OF t(3)]
    by simp
qed

subsection \<open>The ways a request can end\<close>

lemma authenticate_codes:
  "authenticate kdf oc hs pid w = Inr (AuthError code err) \<Longrightarrow>
     code = 401 \<and> (\<exists>m. err = InvalidToken m)"
  by (auto simp: authenticate_def split: option.splits sum.splits if_splits)

lemma authenticate_no_token:
  "extractToken hs = None \<Longrightarrow>
     authenticate kdf oc hs pid w =
       Inr (AuthError 401 (InvalidToken (Some ''Missing Authorization header'')))"
  by (simp add: authenticate_def)

lemma authenticate_ok_projectId:
  "authenticate kdf oc hs pid w = Inr (AuthOk proj) \<Longrightarrow> \<exists>s. pid = Some (JStr s) \<and> s \<noteq> []"
  by (auto simp: authenticate_def get_project_def
      split: option.splits sum.splits if_splits json.splits)

text \<open>The stores after an accepted event: the critical write, then the three
  non-fatal steps.\<close>

lemma status_respond: "statusCode (respond c b) = c"
  by (simp add: respond_def)

lemma handler_Malformed: "handler js kdf oc hs Malformed w = (respond 400 InvalidJson, w)"
  by (simp add: handler_def ingestEvent_def)

lemma handler_null: "handler js kdf oc hs (Parsed JNull) w = (respond 500 InternalError, w)"
  by (simp add: handler_def ingestEvent_def)

lemma handler_auth_throws:
  assumes "authenticate kdf oc hs (property ev ''projectId'') w = Inl e"
  shows "handler js kdf oc hs (Parsed ev) w = (respond 500 InternalError, w)"
  using assms by (simp add: handler_def ingestEvent_def)

lemma handler_auth_error:
  assumes "ev \<noteq> JNull"
    and "authenticate kdf oc hs (property ev ''projectId'') w = Inr (AuthError code err)"
  shows "handler js kdf oc hs (Parsed ev) w = (respond 401 err, w)"
  using assms authenticate_codes[OF assms(2)] by (simp add: handler_def ingestEvent_def)

lemma handler_validation_throws:
  assumes "authenticate kdf oc hs (property ev ''projectId'') w = Inr (AuthOk proj)"
    and "validateEvent js ev = Inl e"
  shows "handler js kdf oc hs (Parsed ev) w = (respond 500 InternalError, w)"
  using assms by (simp add: handler_def ingestEvent_def)

lemma handler_invalid:
  assumes "ev \<noteq> JNull"
    and "authenticate kdf oc hs (property ev ''projectId'') w = Inr (AuthOk proj)"
    and "validateEvent js ev = Inr errs" and "errs \<noteq> []"
  shows "handler js kdf oc hs (Parsed ev) w = (respond 400 (ValidationFailed errs), w)"
  using assms by (simp add: handler_def ingestEvent_def)

lemma handler_record_throws:
  assumes "authenticate kdf oc hs (property ev ''projectId'') w = Inr (AuthOk proj)"
    and "validateEvent js ev = Inr []" and "build_record js ev (now oc) = Inl e"
  shows "handler js kdf oc hs (Parsed ev) w = (respond 500 InternalError, w)"
  using assms by (simp add: handler_def ingestEvent_def)

lemma handler_put_fails:
  assumes "authenticate kdf oc hs (property ev ''projectId'') w = Inr (AuthOk proj)"
    and "validateEvent js ev = Inr []" and "put_event_fails oc"
  shows "handler js kdf oc hs (Parsed ev) w = (respond 500 InternalError, w)"
  using assms by (simp add: handler_def ingestEvent_def split: sum.splits)

lemma handler_accept:
  assumes "ev \<noteq> JNull"
    and "authenticate kdf oc hs (property ev ''projectId'') w = Inr (AuthOk proj)"
    and "validateEvent js ev = Inr []" and "build_record js ev (now oc) = Inr item"
    and "\<not> put_event_fails oc"
  shows "handler js kdf oc hs (Parsed ev) w =
     (respond 200 (Processing (property ev ''eventId'') (property ev ''projectId'')
        (property ev ''branch'') (now oc)),
      accepted_world js oc ev item w)"
  using assms by (simp add: handler_def ingestEvent_def accepted_world_def Let_def)

text \<open>A request ends in one of the ways above.\<close>

lemma handler_cases:
  assumes "handler js kdf oc hs rb w = (r, w')"
  shows "(w' = w \<and> r = respond 400 InvalidJson \<and> rb = Malformed)
   \<or> (w' = w \<and> r = respond 500 InternalError)
   \<or> (w' = w \<and> (\<exists>ev err. rb = Parsed ev \<and> r = respond 401 err))
   \<or> (w' = w \<and> (\<exists>errs. r = respond 400 (ValidationFailed errs)))
   \<or> (\<exists>ev proj item. rb = Parsed ev \<and> ev \<noteq> JNull
          \<and> authenticate kdf oc hs (property ev ''projectId'') w = Inr (AuthOk proj)
          \<and> validateEvent js ev = Inr [] \<and> build_record js ev (now oc) = Inr item
          \<and> \<not> put_event_fails oc
          \<and> r = respond 200 (Processing (property ev ''eventId'') (property ev ''projectId'')
                  (property ev ''branch'') (now oc))
          \<and> w' = accepted_world js oc ev item w)"
proof (cases rb)
  case Malformed
  then show ?thesis using assms by (simp add: handler_Malformed)
next
  case (Parsed ev)
  show ?thesis
  proof (cases "ev = JNull")
    case True
    then show ?thesis using assms Parsed by (simp add: handler_null)
  next
    case nn: False
    show ?thesis
    proof (cases "authenticate kdf oc hs (property ev ''projectId'') w")
      case (Inl e)
      from handler_auth_throws[OF this] assms Parsed show ?thesis by simp
    next
      case (Inr a)
      show ?thesis
      proof (cases a)
        case (AuthError code err)
        from handler_auth_error[OF nn Inr[unfolded this]] assms Parsed show ?thesis by auto
      next
        case (AuthOk proj)
        note ok = Inr[unfolded this]
        show ?thesis
        proof (cases "validateEvent js ev")
          case (Inl e)
          from handler_validation_throws[OF ok this] assms Parsed show ?thesis by simp
        next
          case v: (Inr errs)
          show ?thesis
          proof (cases "errs = []")
            case False
            from handler_invalid[OF nn ok v this] assms Parsed show ?thesis by auto
          next
            case True
            note v0 = v[unfolded this]
            show ?thesis
            proof (cases "build_record js ev (now oc)")
              case (Inl e)
              from handler_record_throws[OF ok v0 this] assms Parsed show ?thesis by simp
            next
              case b: (Inr item)
              show ?thesis
              proof (cases "put_event_fails oc")
                case True
                from handler_put_fails[OF ok v0 this] assms Parsed show ?thesis by simp
              next
                case False
                from handler_accept[OF nn ok v0 b this] assms Parsed nn ok v0 b False
                show ?thesis by simp
              qed
            qed
          qed
        qed
      qed
    qed
  qed
qed

lemma handler_200:
  assumes "handler js kdf oc hs rb w = (r, w')" and "statusCode r = 200"
  shows "\<exists>ev proj item. rb = Parsed ev \<and> ev \<noteq> JNull
          \<and> authenticate kdf oc hs (property ev ''projectId'') w = Inr (AuthOk proj)
          \<and> validateEvent js ev = Inr [] \<and> build_record js ev (now oc) = Inr item
          \<and> \<not> put_event_fails oc
          \<and> r = respond 200 (Processing (property ev ''eventId'') (property ev ''projectId'')
                  (property ev ''branch'') (now oc))
          \<and> w' = accepted_world js oc ev item w"
  using handler_cases[OF assms(1)] assms(2) by (auto simp: status_respond)

lemma handler_not_200:
  assumes "handler js kdf oc hs rb w = (r, w')" and "statusCode r \<noteq> 200"
  shows "w' = w"
  using handler_cases[OF assms(1)] assms(2) by (auto simp: status_respond)

lemma handler_status:
  assumes "handler js kdf oc hs rb w = (r, w')"
  shows "statusCode r \<in> {200, 400, 401, 500}"
  using handler_cases[OF assms(1)] by (auto simp: status_respond)

subsection \<open>What an accepted event writes\<close>

lemma build_object_ok:
  assumes "authenticate kdf oc hs (property ev ''projectId'') w = Inr (AuthOk proj)"
    and "validateEvent js ev = Inr []"
  shows "\<exists>obj. build_object js ev = Inr obj"
proof -
  from authenticate_ok_projectId[OF assms(1)] obtain s where "property ev ''projectId'' = Some (JStr s)"
    by blast
  moreover from validateEvent_Nil_strings[OF assms(2)] obtain eid where
    "ToStringV js (property ev ''eventId'') = Inr eid" by blast
  ultimately show ?thesis by (simp add: build_object_def ToStringV_def thenE_simps)
qed

lemma build_invocation_ok:
  assumes "validateEvent js ev = Inr []"
  shows "\<exists>call. build_invocation ev = Inr call"
  using validateEvent_Nil_payload[OF assms] by (auto simp: build_invocation_def thenE_simps)

lemma build_audit_ok:
  assumes "validateEvent js ev = Inr []"
  shows "\<exists>item. build_audit ev t = Inr item"
  using validateEvent_Nil_payload[OF assms] by (auto simp: build_audit_def thenE_simps)

lemma accepted_world_fields:
  "projects (accepted_world js oc ev item w) = projects w"
  "context_table (accepted_world js oc ev item w) = context_table w"
  "events (accepted_world js oc ev item w) = put event_key item (events w)"
  by (simp_all add: accepted_world_def audit_step_def invoke_step_def archive_step_def
      split: sum.splits)

lemma accepted_world_archive:
  assumes "build_object js ev = Inr obj"
  shows "archive (accepted_world js oc ev item w) =
     (if s3_fails oc then archive w else put s3_key obj (archive w))"
  using assms
  by (simp add: accepted_world_def audit_step_def invoke_step_def archive_step_def
      split: sum.splits)

lemma accepted_world_invocations:
  assumes "build_invocation ev = Inr call"
  shows "invocations (accepted_world js oc ev item w) =
     (if invoke_fails oc then invocations w else invocations w @ [call])"
  using assms
  by (simp add: accepted_world_def audit_step_def invoke_step_def archive_step_def
      split: sum.splits)

lemma accepted_world_audit:
  assumes "build_audit ev (now oc) = Inr a"
  shows "audit (accepted_world js oc ev item w) =
     (if audit_fails oc then audit w else put audit_key a (audit w))"
  using assms
  by (simp add: accepted_world_def audit_step_def invoke_step_def archive_step_def
      split: sum.splits)

lemma build_record_textual:
  assumes "string_fields ev" and "validateEvent js ev = Inr []"
  shows "\<exists>item. build_record js ev t = Inr item"
proof -
  from validateEvent_Nil_strings[OF assms(2)] obtain ts eid where
    s: "ToStringV js (property ev ''timestamp'') = Inr ts"
       "ToStringV js (property ev ''eventId'') = Inr eid" by blast
  from assms(1) have "textual (property ev ''branch'')" by (simp add: string_fields_def)
  then have "\<exists>br. ToStringV js (property ev ''branch'') = Inr br"
    using textual_cases[of "property ev ''branch''"] by (auto simp: ToStringV_def)
  then obtain br where b: "ToStringV js (property ev ''branch'') = Inr br" by blast
  from validateEvent_Nil_payload[OF assms(2)] obtain p where "payload_of ev = Inr p" by blast
  then show ?thesis by (simp add: build_record_def s b thenE_simps)
qed

lemma authenticate_steps:
  assumes "extractToken hs = Some t"
  shows "get_project oc pid w = Inl e \<Longrightarrow> authenticate kdf oc hs pid w = Inl e"
    and "get_project oc pid w = Inr None \<Longrightarrow>
           authenticate kdf oc hs pid w = Inr (AuthError 401 (InvalidToken None))"
    and "get_project oc pid w = Inr (Some p) \<Longrightarrow> falsy (apiTokenHash p) \<Longrightarrow>
           authenticate kdf oc hs pid w = Inr (AuthError 401 (InvalidToken None))"
    and "get_project oc pid w = Inr (Some p) \<Longrightarrow> \<not> falsy (apiTokenHash p) \<Longrightarrow>
           verifyToken kdf t (apiTokenHash p) = Inl e \<Longrightarrow> authenticate kdf oc hs pid w = Inl e"
    and "get_project oc pid w = Inr (Some p) \<Longrightarrow> \<not> falsy (apiTokenHash p) \<Longrightarrow>
           verifyToken kdf t (apiTokenHash p) = Inr False \<Longrightarrow>
           authenticate kdf oc hs pid w = Inr (AuthError 401 (InvalidToken None))"
    and "get_project oc pid w = Inr (Some p) \<Longrightarrow> \<not> falsy (apiTokenHash p) \<Longrightarrow>
           verifyToken kdf t (apiTokenHash p) = Inr True \<Longrightarrow>
           authenticate kdf oc hs pid w = Inr (AuthOk p)"
  using assms by (simp_all add: authenticate_def)

lemma get_project_fails_Inl:
  "get_project_fails oc \<Longrightarrow> get_project oc pid w = Inl ServiceError"
  by (simp add: get_project_def split: option.splits json.splits)

lemma push_not_null: "property ev ''eventType'' = Some x \<Longrightarrow> ev \<noteq> JNull"
  by (auto simp: property_def)

subsection \<open>Concrete requests\<close>

lemma kdf0_length: "length (kdf0 p s n) = n"
  by (simp add: kdf0_def)

lemma extractToken_headers0: "extractToken headers0 = Some ''tok''"
  by (simp add: extractToken_def headers0_def falsy_def tmpl_def at_index_def)

lemma extractToken_headers_other: "extractToken headers_other = Some ''nope''"
  by (simp add: extractToken_def headers_other_def falsy_def tmpl_def at_index_def)

lemma hashToken_not_Nil: "hashToken kdf sb t \<noteq> []"
  by (simp add: hashToken_def Let_def)

lemma get_project0:
  assumes "\<not> get_project_fails oc" and "projects w = [p]" and "p_projectId p = ''proj-1''"
  shows "get_project oc (Some (JStr ''proj-1'')) w = Inr (Some p)"
  using assms by (simp add: get_project_def get_def)

lemma verifyToken_tok:
  "verifyToken kdf0 ''tok'' (Some (hashToken kdf0 salt0 ''tok'')) = Inr True"
  using verify_digest_eq[of kdf0 salt0 "''tok''" "''tok''"]
  by (simp add: kdf0_length salt0_def)

lemma verifyToken_nope:
  "verifyToken kdf0 ''nope'' (Some (hashToken kdf0 salt0 ''tok'')) = Inr False"
  using verify_digest_eq[of kdf0 salt0 "''nope''" "''tok''"]
  by (simp add: kdf0_length salt0_def) (simp add: kdf0_def)

lemma verifyToken_bad_hash: "verifyToken kdf0 ''tok'' (Some ''abcd:zz'') = Inl RangeError"
proof -
  have "length (fromHex (toHex (kdf0 ''tok'' ''abcd'' 64))) = 64"
    by (simp only: fromHex_toHex kdf0_length)
  then have "fromHex (toHex (kdf0 ''tok'' ''abcd'' 64)) \<noteq> []" by auto
  then show ?thesis
    by (simp add: verifyToken_def at_index_def falsy_def tmpl_def timingSafeEqual_def hexval_def
        Let_def)
qed

lemma project0_fields:
  "p_projectId project0 = ''proj-1''"
  "apiTokenHash project0 = Some (hashToken kdf0 salt0 ''tok'')"
  "\<not> falsy (apiTokenHash project0)"
  by (simp_all add: project0_def falsy_def hashToken_not_Nil)

lemma authenticate_world0:
  assumes "\<not> get_project_fails oc" and "projects w = [project0]"
  shows "authenticate kdf0 oc headers0 (Some (JStr ''proj-1'')) w = Inr (AuthOk project0)"
  using authenticate_steps(6)[OF extractToken_headers0
      get_project0[OF assms project0_fields(1)] project0_fields(3)]
  by (simp add: project0_fields(2) verifyToken_tok)

lemma authenticate_other:
  assumes "\<not> get_project_fails oc" and "projects w = [project0]"
  shows "authenticate kdf0 oc headers_other (Some (JStr ''proj-1'')) w =
           Inr (AuthError 401 (InvalidToken None))"
  using authenticate_steps(5)[OF extractToken_headers_other
      get_project0[OF assms project0_fields(1)] project0_fields(3)]
  by (simp add: project0_fields(2) verifyToken_nope)

lemma authenticate_bad_hash:
  "authenticate kdf0 outcome0 headers0 (Some (JStr ''proj-1'')) world_bad_hash = Inl RangeError"
proof -
  let ?p = "\<lparr>p_projectId = ''proj-1'', apiTokenHash = Some ''abcd:zz''\<rparr>"
  have g: "get_project outcome0 (Some (JStr ''proj-1'')) world_bad_hash = Inr (Some ?p)"
    by (rule get_project0) (simp_all add: outcome0_def world_bad_hash_def)
  have f: "\<not> falsy (apiTokenHash ?p)" by (simp add: falsy_def)
  from authenticate_steps(4)[OF extractToken_headers0 g f, of kdf0 RangeError]
  show ?thesis by (simp add: verifyToken_bad_hash)
qed

lemma property_push_of:
  "property (push_of eid ts br p) ''eventId'' = Some eid"
  "property (push_of eid ts br p) ''projectId'' = Some (JStr ''proj-1'')"
  "property (push_of eid ts br p) ''eventType'' = Some (JStr ''push'')"
  "property (push_of eid ts br p) ''timestamp'' = Some ts"
  "property (push_of eid ts br p) ''branch'' = Some br"
  "property (push_of eid ts br p) ''payload'' = Some p"
  by (simp_all add: push_of_def property_def)

lemma property_no_payload:
  "property event_no_payload ''eventId'' = Some (JStr uuid0)"
  "property event_no_payload ''projectId'' = Some (JStr ''proj-1'')"
  "property event_no_payload ''eventType'' = Some (JStr ''push'')"
  "property event_no_payload ''timestamp'' = Some (JStr time0)"
  "property event_no_payload ''branch'' = Some (JStr ''feature/auth'')"
  "property event_no_payload ''payload'' = None"
  by (simp_all add: event_no_payload_def property_def)

lemma property_payload0:
  "property payload0 ''commitHash'' = Some (JStr ''0123456789abcdef0123456789ABCDEF01234567'')"
  "property payload0 ''message'' = Some (JStr ''add login'')"
  "property payload0 ''author'' = Some (JStr ''Alice'')"
  "property payload0 ''changedFiles'' = None"
  "property payload0 ''diff'' = Some (JStr ''+x'')"
  "property payload0 ''parentBranch'' = Some (JStr ''main'')"
  by (simp_all add: payload0_def property_def)

lemma uuid0_ok: "UUID_V4 uuid0"
  by (simp add: uuid0_def UUID_V4_def andThen_def is_hex_def is_variant_def eval_nat_numeral)

lemma time0_ok: "ISO_8601 time0"
  by (simp add: time0_def ISO_8601_def andThen_def is_digit_def eval_nat_numeral opt_fraction_def
      zone_def)

lemma time13_ok: "ISO_8601 ''2026-13-45T25:61:61Z''"
  by (simp add: ISO_8601_def andThen_def is_digit_def eval_nat_numeral opt_fraction_def zone_def)

lemma hash0_ok: "COMMIT_HASH ''0123456789abcdef0123456789ABCDEF01234567''"
  by (simp add: COMMIT_HASH_def is_hex_def eval_nat_numeral)

lemma uuid0_not_Nil: "uuid0 \<noteq> []" "time0 \<noteq> []"
  by (simp_all add: uuid0_def time0_def)

lemma push_errors_payload0: "push_errors js payload0 = Inr []"
  by (simp add: push_errors_def commitHash_errors_def property_payload0 truthy_def nullish_def
      isArray_def test_def ToStringV_def thenE_simps hash0_ok)

text \<open>The header checks of a push with a well-formed event id and timestamp.\<close>

lemma header_errors_push_of:
  assumes "ISO_8601 ts" and "ts \<noteq> []"
  shows "header_errors js (push_of (JStr uuid0) (JStr ts) br p) = branch_errors js (push_of (JStr uuid0) (JStr ts) br p)"
proof -
  have "\<exists>x. branch_errors js (push_of (JStr uuid0) (JStr ts) br p) = x" by simp
  show ?thesis
    using assms
    by (cases "branch_errors js (push_of (JStr uuid0) (JStr ts) br p)")
       (simp_all add: header_errors_def eventId_errors_def timestamp_errors_def projectId_errors_def
          eventType_errors_def property_push_of truthy_def test_def ToStringV_def thenE_simps
          uuid0_ok uuid0_not_Nil)
qed

lemma branch_errors_feature: "branch_errors js (push_of eid ts (JStr ''feature/auth'') p) = Inr []"
  by (simp add: branch_errors_def property_push_of truthy_def length_exceeds_def thenE_simps)

lemma branch_errors_array: "branch_errors js (push_of eid ts (JArr []) p) = Inr []"
  by (simp add: branch_errors_def property_push_of truthy_def length_exceeds_def thenE_simps)

lemma branch_errors_object:
  "branch_errors js (push_of eid ts (JObj [(''toString'', JNum (Finite 1))]) p) = Inr []"
  by (simp add: branch_errors_def property_push_of truthy_def length_exceeds_def thenE_simps
      greater_def)

lemma validateEvent_push_of:
  assumes "header_errors js (push_of eid ts br payload0) = Inr []"
  shows "validateEvent js (push_of eid ts br payload0) = Inr []"
  using assms
  by (simp add: validateEvent_def property_push_of thenE_simps truthy_def payload0_def
      push_errors_payload0[unfolded payload0_def])

lemma validateEvent_event0: "validateEvent js event0 = Inr []"
  unfolding event0_def
  by (rule validateEvent_push_of)
     (simp add: header_errors_push_of[OF time0_ok uuid0_not_Nil(2)] branch_errors_feature)

lemma validateEvent_month13: "validateEvent js event_month13 = Inr []"
  unfolding event_month13_def
  by (rule validateEvent_push_of)
     (simp add: header_errors_push_of[OF time13_ok] branch_errors_feature)

lemma validateEvent_branch_array: "validateEvent js event_branch_array = Inr []"
  unfolding event_branch_array_def
  by (rule validateEvent_push_of)
     (simp add: header_errors_push_of[OF time0_ok uuid0_not_Nil(2)] branch_errors_array)

lemma validateEvent_branch_object: "validateEvent js event_branch_object = Inr []"
  unfolding event_branch_object_def
  by (rule validateEvent_push_of)
     (simp add: header_errors_push_of[OF time0_ok uuid0_not_Nil(2)] branch_errors_object)

lemma property_payload_short:
  "property payload_short_hash ''commitHash'' = Some (JStr ''0123abc'')"
  "property payload_short_hash ''message'' = Some (JStr ''add login'')"
  "property payload_short_hash ''author'' = Some (JStr ''Alice'')"
  "property payload_short_hash ''changedFiles'' = None"
  "property payload_short_hash ''diff'' = Some (JStr ''+x'')"
  by (simp_all add: payload_short_hash_def property_def)

lemma push_errors_short:
  "push_errors js payload_short_hash = Inr [''commitHash: must be exactly 40 hex characters'']"
  by (simp add: push_errors_def commitHash_errors_def property_payload_short truthy_def
      nullish_def isArray_def test_def ToStringV_def thenE_simps COMMIT_HASH_iff forty_hex_def)

lemma validateEvent_short_hash:
  "validateEvent js event_short_hash = Inr [''commitHash: must be exactly 40 hex characters'']"
  by (simp add: validateEvent_def event_short_hash_def
      header_errors_push_of[OF time0_ok uuid0_not_Nil(2)] branch_errors_feature
      property_push_of thenE_simps push_errors_short)
     (simp add: truthy_def payload_short_hash_def)

lemma validateEvent_no_payload: "validateEvent js event_no_payload = Inr [''payload: required'']"
  by (simp add: validateEvent_def header_errors_def eventId_errors_def timestamp_errors_def
      projectId_errors_def eventType_errors_def branch_errors_def length_exceeds_def
      property_no_payload truthy_def test_def ToStringV_def thenE_simps
      uuid0_ok time0_ok uuid0_not_Nil)

lemma not_accepted_short_hash: "\<not> accepted_form event_short_hash"
  by (simp add: accepted_form_def event_short_hash_def property_push_of property_payload_short
      str_holds_def forty_hex_def)

lemma not_accepted_no_payload: "\<not> accepted_form event_no_payload"
  by (simp add: accepted_form_def property_no_payload)

lemma string_fields_push_of:
  "textual (property p ''commitHash'') \<Longrightarrow> string_fields (push_of (JStr a) (JStr b) (JStr c) p)"
  by (simp add: string_fields_def property_push_of textual_def)

lemma string_fields_event0: "string_fields event0"
  unfolding event0_def by (rule string_fields_push_of) (simp add: property_payload0 textual_def)

lemma string_fields_short_hash: "string_fields event_short_hash"
  unfolding event_short_hash_def
  by (rule string_fields_push_of) (simp add: property_payload_short textual_def)

lemma string_fields_no_payload: "string_fields event_no_payload"
  by (simp add: string_fields_def property_no_payload textual_def)

lemma payload_of_push_of: "payload_of (push_of eid ts br payload0) = Inr payload0"
  by (simp add: payload_of_def property_push_of payload0_def)

lemma build_record_push_of:
  assumes "ToString js br = Inr s"
  shows "build_record js (push_of (JStr a) (JStr b) br payload0) t =
     Inr \<lparr>e_projectId = Some (JStr ''proj-1''),
          timestampEventId = b @ ''#'' @ a,
          branchTimestamp = s @ ''#'' @ b,
          e_eventId = Some (JStr a),
          e_eventType = Some (JStr ''push''),
          e_branch = Some br,
          e_parentBranch = JStr ''main'',
          e_payload = payload0,
          receivedAt = t,
          processingStatus = ''pending''\<rparr>"
  using assms
  by (simp add: build_record_def property_push_of ToStringV_def thenE_simps payload_of_push_of
      property_payload0 or_null_def)

lemma build_record_event0: "build_record js event0 t = Inr (record0 t)"
  unfolding event0_def
  by (simp add: build_record_push_of[where s = "''feature/auth''"] record0_def)

lemma build_record_branch_object: "build_record js event_branch_object t = Inl TypeError"
  by (simp add: event_branch_object_def build_record_def property_push_of ToStringV_def thenE_simps)

lemma event_not_null: "push_of a b c d \<noteq> JNull" "event_no_payload \<noteq> JNull"
  by (simp_all add: push_of_def event_no_payload_def)

lemma handler_push_of:
  assumes "\<not> get_project_fails oc" and "\<not> put_event_fails oc" and "projects w = [project0]"
    and "validateEvent js (push_of a b c d) = Inr []"
    and "build_record js (push_of a b c d) (now oc) = Inr item"
  shows "handler js kdf0 oc headers0 (Parsed (push_of a b c d)) w =
     (respond 200 (Processing (Some a) (Some (JStr ''proj-1'')) (Some c) (now oc)),
      accepted_world js oc (push_of a b c d) item w)"
proof -
  have "authenticate kdf0 oc headers0 (property (push_of a b c d) ''projectId'') w = Inr (AuthOk project0)"
    using authenticate_world0[OF assms(1,3)] by (simp add: property_push_of)
  from handler_accept[OF event_not_null(1) this assms(4,5,2)]
  show ?thesis by (simp add: property_push_of)
qed

lemma handler_event0:
  assumes "\<not> get_project_fails oc" and "\<not> put_event_fails oc" and "projects w = [project0]"
  shows "handler js kdf0 oc headers0 (Parsed event0) w =
     (respond 200 (Processing (Some (JStr uuid0)) (Some (JStr ''proj-1''))
        (Some (JStr ''feature/auth'')) (now oc)),
      accepted_world js oc event0 (record0 (now oc)) w)"
  using handler_push_of[OF assms, of js "JStr uuid0" "JStr time0" "JStr ''feature/auth''" payload0]
    validateEvent_event0[of js] build_record_event0[of js "now oc"]
  by (simp add: event0_def)

lemma outcome0_flags:
  "\<not> get_project_fails outcome0" "\<not> put_event_fails outcome0" "\<not> s3_fails outcome0"
  "\<not> invoke_fails outcome0" "\<not> audit_fails outcome0" "now outcome0 = ''2026-03-01T10:00:01.000Z''"
  by (simp_all add: outcome0_def)

lemma world0_fields:
  "projects world0 = [project0]" "events world0 = []" "archive world0 = []"
  "invocations world0 = []" "audit world0 = []" "context_table world0 = []"
  by (simp_all add: world0_def)

lemma authenticate_event0:
  "authenticate kdf0 outcome0 headers0 (property event0 ''projectId'') world0 = Inr (AuthOk project0)"
  "authenticate kdf0 outcome0 headers0 (property event_short_hash ''projectId'') world0 = Inr (AuthOk project0)"
  "authenticate kdf0 outcome0 headers0 (property event_no_payload ''projectId'') world0 = Inr (AuthOk project0)"
  using authenticate_world0[OF outcome0_flags(1) world0_fields(1)]
  by (simp_all add: event0_def event_short_hash_def property_push_of property_no_payload)

subsection \<open>Validation of a push\<close>

text \<open>
  Claim C3, as the code has it. For a request whose event has type \<^verbatim>\<open>push\<close>:

  \<^item> a 200 response implies the four conditions as the validator reads them, and for an
    event whose four fields are strings it implies a UUID v4 \<^verbatim>\<open>eventId\<close>, a timestamp
    that matches the validator's pattern, a non-empty branch and a commit hash of exactly
    40 hexadecimal characters;
  \<^item> the stores change only with a 200 response;
  \<^item> authentication comes first: without a bearer token, and whenever authentication
    fails, the response is 401 \<^verbatim>\<open>invalid_token\<close> and nothing is written; when the
    project lookup or the comparison of the hashes throws, the response is 500 and
    nothing is written;
  \<^item> when the token authenticates and one of the four conditions fails, the response
    is 400 \<^verbatim>\<open>validation_failed\<close> with the validator's list and nothing is written; the
    list names every failed field among \<^verbatim>\<open>eventId\<close>, \<^verbatim>\<open>timestamp\<close> and \<^verbatim>\<open>branch\<close>, names
    \<^verbatim>\<open>payload\<close> when the payload is missing, and names \<^verbatim>\<open>commitHash\<close> when the payload is
    there; the validation of an event whose four fields are strings does not throw, and
    when the validation of another event throws, the response is 500 and nothing is
    written.

  The pattern of the timestamp is a necessary condition only: which timestamps of that
  shape are accepted is not part of the statement.
\<close>

theorem ingest_push_validation:
  assumes "property ev ''eventType'' = Some (JStr ''push'')"
    and "handler js kdf oc hs (Parsed ev) w = (r, w')"
  shows "(statusCode r = 200 \<longrightarrow> coerced_form js ev)
       \<and> (statusCode r = 200 \<and> string_fields ev \<longrightarrow> accepted_form ev)
       \<and> (w' \<noteq> w \<longrightarrow> statusCode r = 200)
       \<and> (extractToken hs = None \<longrightarrow>
            r = respond 401 (InvalidToken (Some ''Missing Authorization header'')) \<and> w' = w)
       \<and> (\<forall>code err. authenticate kdf oc hs (property ev ''projectId'') w = Inr (AuthError code err) \<longrightarrow>
            r = respond 401 err \<and> (\<exists>m. err = InvalidToken m) \<and> w' = w)
       \<and> (\<forall>e. authenticate kdf oc hs (property ev ''projectId'') w = Inl e \<longrightarrow>
            r = respond 500 InternalError \<and> w' = w)
       \<and> (\<forall>proj. authenticate kdf oc hs (property ev ''projectId'') w = Inr (AuthOk proj) \<longrightarrow>
            (\<forall>e. validateEvent js ev = Inl e \<longrightarrow> r = respond 500 InternalError \<and> w' = w)
          \<and> (\<forall>errs. validateEvent js ev = Inr errs \<and> \<not> coerced_form js ev \<longrightarrow>
                r = respond 400 (ValidationFailed errs) \<and> w' = w
              \<and> (\<not> reads_as js UUID_V4 (property ev ''eventId'') \<longrightarrow> listed ''eventId'' errs)
              \<and> (\<not> reads_as js ISO_8601 (property ev ''timestamp'') \<longrightarrow> listed ''timestamp'' errs)
              \<and> (\<not> truthy (property ev ''branch'') \<longrightarrow> listed ''branch'' errs)
              \<and> (\<not> truthy (property ev ''payload'') \<longrightarrow> listed ''payload'' errs)
              \<and> (\<forall>p. property ev ''payload'' = Some p \<and> truthy (Some p)
                     \<and> \<not> reads_as js forty_hex (property p ''commitHash'') \<longrightarrow>
                   listed ''commitHash'' errs))
          \<and> (string_fields ev \<and> \<not> accepted_form ev \<longrightarrow>
                (\<exists>errs. validateEvent js ev = Inr errs
                  \<and> r = respond 400 (ValidationFailed errs) \<and> w' = w
                  \<and> (\<not> str_holds UUID_V4 (property ev ''eventId'') \<longrightarrow> listed ''eventId'' errs)
                  \<and> (\<not> str_holds ISO_8601 (property ev ''timestamp'') \<longrightarrow> listed ''timestamp'' errs)
                  \<and> (\<not> str_holds non_empty (property ev ''branch'') \<longrightarrow> listed ''branch'' errs)
                  \<and> (\<not> truthy (property ev ''payload'') \<longrightarrow> listed ''payload'' errs)
                  \<and> (\<forall>p. property ev ''payload'' = Some p \<and> truthy (Some p)
                         \<and> \<not> str_holds forty_hex (property p ''commitHash'') \<longrightarrow>
                       listed ''commitHash'' errs))))"
proof -
  note nn = push_not_null[OF assms(1)]
  have c200: "coerced_form js ev" if "statusCode r = 200"
    using handler_200[OF assms(2) that] validateEvent_Nil_push[OF assms(1)] by auto
  have invalid: "r = respond 400 (ValidationFailed errs) \<and> w' = w"
    if "authenticate kdf oc hs (property ev ''projectId'') w = Inr (AuthOk proj)"
      and "validateEvent js ev = Inr errs" and "\<not> coerced_form js ev" for proj errs
  proof -
    from that(2,3) validateEvent_Nil_push[OF assms(1)] have "errs \<noteq> []" by auto
    from handler_invalid[OF nn that(1,2) this] assms(2) show ?thesis by simp
  qed
  have strings: "\<exists>errs. validateEvent js ev = Inr errs
        \<and> r = respond 400 (ValidationFailed errs) \<and> w' = w
        \<and> (\<not> str_holds UUID_V4 (property ev ''eventId'') \<longrightarrow> listed ''eventId'' errs)
        \<and> (\<not> str_holds ISO_8601 (property ev ''timestamp'') \<longrightarrow> listed ''timestamp'' errs)
        \<and> (\<not> str_holds non_empty (property ev ''branch'') \<longrightarrow> listed ''branch'' errs)
        \<and> (\<not> truthy (property ev ''payload'') \<longrightarrow> listed ''payload'' errs)
        \<and> (\<forall>p. property ev ''payload'' = Some p \<and> truthy (Some p)
               \<and> \<not> str_holds forty_hex (property p ''commitHash'') \<longrightarrow>
             listed ''commitHash'' errs)"
    if ok: "authenticate kdf oc hs (property ev ''projectId'') w = Inr (AuthOk proj)"
      and sf: "string_fields ev" and na: "\<not> accepted_form ev" for proj
  proof -
    from validateEvent_textual[OF assms(1) sf] obtain errs where v: "validateEvent js ev = Inr errs"
      by blast
    from na coerced_form_textual[OF sf] have nc: "\<not> coerced_form js ev" by simp
    from sf have t: "textual (property ev ''eventId'')" "textual (property ev ''timestamp'')"
      "textual (property ev ''branch'')" by (simp_all add: string_fields_def)
    have tp: "textual (property p ''commitHash'')" if "property ev ''payload'' = Some p" for p
      using sf that by (simp add: string_fields_def)
    have "reads_as js forty_hex (property p ''commitHash'') = str_holds forty_hex (property p ''commitHash'')"
      if "property ev ''payload'' = Some p" for p
      using reads_as_textual[where P = forty_hex and js = js, OF tp[OF that] forty_hex_Nil] .
    then show ?thesis
      using invalid[OF ok v nc] validateEvent_lists[OF assms(1) v] v
        reads_as_textual[where P = UUID_V4 and js = js, OF t(1) UUID_V4_Nil]
        reads_as_textual[where P = ISO_8601 and js = js, OF t(2) ISO_8601_Nil]
        truthy_textual[OF t(3)]
      by auto
  qed
  show ?thesis
  proof (intro conjI allI impI)
    assume "statusCode r = 200"
    then show "coerced_form js ev" by (rule c200)
  next
    assume "statusCode r = 200 \<and> string_fields ev"
    then show "accepted_form ev" using c200 coerced_form_textual by blast
  next
    assume "w' \<noteq> w"
    then show "statusCode r = 200" using handler_not_200[OF assms(2)] by blast
  next
    assume "extractToken hs = None"
    from handler_auth_error[OF nn authenticate_no_token[OF this]] assms(2)
    show "r = respond 401 (InvalidToken (Some ''Missing Authorization header''))" and "w' = w"
      by simp_all
  next
    fix code err
    assume a: "authenticate kdf oc hs (property ev ''projectId'') w = Inr (AuthError code err)"
    from handler_auth_error[OF nn a] assms(2)
    show "r = respond 401 err" and "w' = w" by simp_all
    from authenticate_codes[OF a] show "\<exists>m. err = InvalidToken m" by blast
  next
    fix e
    assume a: "authenticate kdf oc hs (property ev ''projectId'') w = Inl e"
    from handler_auth_throws[OF a] assms(2)
    show "r = respond 500 InternalError" and "w' = w" by simp_all
  next
    fix proj e
    assume "authenticate kdf oc hs (property ev ''projectId'') w = Inr (AuthOk proj)"
      and "validateEvent js ev = Inl e"
    from handler_validation_throws[OF this] assms(2)
    show "r = respond 500 InternalError" and "w' = w" by simp_all
  next
    fix proj errs
    assume ok: "authenticate kdf oc hs (property ev ''projectId'') w = Inr (AuthOk proj)"
      and v: "validateEvent js ev = Inr errs \<and> \<not> coerced_form js ev"
    from invalid[OF ok] v show "r = respond 400 (ValidationFailed errs)" and "w' = w" by simp_all
    from v have v': "validateEvent js ev = Inr errs" by simp
    {
      assume "\<not> reads_as js UUID_V4 (property ev ''eventId'')"
      then show "listed ''eventId'' errs" using validateEvent_lists[OF assms(1) v'] by blast
    next
      assume "\<not> reads_as js ISO_8601 (property ev ''timestamp'')"
      then show "listed ''timestamp'' errs" using validateEvent_lists[OF assms(1) v'] by blast
    next
      assume "\<not> truthy (property ev ''branch'')"
      then show "listed ''branch'' errs" using validateEvent_lists[OF assms(1) v'] by blast
    next
      assume "\<not> truthy (property ev ''payload'')"
      then show "listed ''payload'' errs" using validateEvent_lists[OF assms(1) v'] by blast
    next
      fix p
      assume "property ev ''payload'' = Some p \<and> truthy (Some p)
                     \<and> \<not> reads_as js forty_hex (property p ''commitHash'')"
      then show "listed ''commitHash'' errs" using validateEvent_lists[OF assms(1) v'] by blast
    }
  next
    fix proj
    assume ok: "authenticate kdf oc hs (property ev ''projectId'') w = Inr (AuthOk proj)"
      and "string_fields ev \<and> \<not> accepted_form ev"
    then show "\<exists>errs. validateEvent js ev = Inr errs
        \<and> r = respond 400 (ValidationFailed errs) \<and> w' = w
        \<and> (\<not> str_holds UUID_V4 (property ev ''eventId'') \<longrightarrow> listed ''eventId'' errs)
        \<and> (\<not> str_holds ISO_8601 (property ev ''timestamp'') \<longrightarrow> listed ''timestamp'' errs)
        \<and> (\<not> str_holds non_empty (property ev ''branch'') \<longrightarrow> listed ''branch'' errs)
        \<and> (\<not> truthy (property ev ''payload'') \<longrightarrow> listed ''payload'' errs)
        \<and> (\<forall>p. property ev ''payload'' = Some p \<and> truthy (Some p)
               \<and> \<not> str_holds forty_hex (property p ''commitHash'') \<longrightarrow>
             listed ''commitHash'' errs)"
      using strings by blast
  qed
qed

text \<open>
  Claim C3 as stated fails in two places where the code follows its own design.
  Authentication comes first: an event with a 7-character commit hash and no
  \<^verbatim>\<open>Authorization\<close> header gets 401 \<^verbatim>\<open>invalid_token\<close>, not \<^verbatim>\<open>validation_failed\<close>. And
  without a payload the validator returns early: the list names \<^verbatim>\<open>payload\<close> and does
  not name \<^verbatim>\<open>commitHash\<close>.
\<close>

theorem ingest_push_validation_counterexample:
  "\<not> accepted_form event_short_hash
   \<and> handler js0 kdf0 outcome0 None (Parsed event_short_hash) world0 =
       (respond 401 (InvalidToken (Some ''Missing Authorization header'')), world0)
   \<and> \<not> accepted_form event_no_payload
   \<and> handler js0 kdf0 outcome0 headers0 (Parsed event_no_payload) world0 =
       (respond 400 (ValidationFailed [''payload: required'']), world0)
   \<and> \<not> listed ''commitHash'' [''payload: required'']"
proof -
  have t: "extractToken None = None" by (simp add: extractToken_def falsy_def)
  have 1: "handler js0 kdf0 outcome0 None (Parsed event_short_hash) world0 =
       (respond 401 (InvalidToken (Some ''Missing Authorization header'')), world0)"
    using handler_auth_error[where ev = event_short_hash and js = js0,
        OF _ authenticate_no_token[OF t, of kdf0 outcome0 _ world0]]
    by (simp add: event_short_hash_def event_not_null)
  have 2: "handler js0 kdf0 outcome0 headers0 (Parsed event_no_payload) world0 =
       (respond 400 (ValidationFailed [''payload: required'']), world0)"
    using handler_invalid[OF event_not_null(2) authenticate_event0(3) validateEvent_no_payload]
    by simp
  have 3: "\<not> listed ''commitHash'' [''payload: required'']"
    by (simp add: listed_def)
  show ?thesis using 1 2 3 not_accepted_short_hash not_accepted_no_payload by blast
qed

lemma eventType_push:
  "property event0 ''eventType'' = Some (JStr ''push'')"
  "property event_short_hash ''eventType'' = Some (JStr ''push'')"
  by (simp_all add: event0_def event_short_hash_def property_push_of)

lemma authenticate_event0_other:
  "authenticate kdf0 outcome0 headers_other (property event0 ''projectId'') world0 =
     Inr (AuthError 401 (InvalidToken None))"
  using authenticate_other[OF outcome0_flags(1) world0_fields(1)]
  by (simp add: event0_def property_push_of)

lemma authenticate_event0_bad_hash:
  "authenticate kdf0 outcome0 headers0 (property event0 ''projectId'') world_bad_hash = Inl RangeError"
  using authenticate_bad_hash by (simp add: event0_def property_push_of)

text \<open>The theorem of C3 at a well-formed push, at an authenticated push with a short
  commit hash, at a push sent with another token, with a stored hash that cannot be
  compared, and with no token.\<close>

theorem ingest_push_validation_witness:
  "property event0 ''eventType'' = Some (JStr ''push'')
   \<and> statusCode (fst (handler js0 kdf0 outcome0 headers0 (Parsed event0) world0)) = 200
   \<and> string_fields event0 \<and> accepted_form event0
   \<and> property event_short_hash ''eventType'' = Some (JStr ''push'')
   \<and> authenticate kdf0 outcome0 headers0 (property event_short_hash ''projectId'') world0 =
        Inr (AuthOk project0)
   \<and> string_fields event_short_hash \<and> \<not> accepted_form event_short_hash
   \<and> handler js0 kdf0 outcome0 headers0 (Parsed event_short_hash) world0 =
       (respond 400 (ValidationFailed [''commitHash: must be exactly 40 hex characters'']), world0)
   \<and> listed ''commitHash'' [''commitHash: must be exactly 40 hex characters'']
   \<and> handler js0 kdf0 outcome0 headers_other (Parsed event0) world0 =
       (respond 401 (InvalidToken None), world0)
   \<and> handler js0 kdf0 outcome0 headers0 (Parsed event0) world_bad_hash =
       (respond 500 InternalError, world_bad_hash)
   \<and> handler js0 kdf0 outcome0 None (Parsed event0) world0 =
       (respond 401 (InvalidToken (Some ''Missing Authorization header'')), world0)"
proof -
  have s0: "statusCode (fst (handler js0 kdf0 outcome0 headers0 (Parsed event0) world0)) = 200"
    using handler_event0[OF outcome0_flags(1,2) world0_fields(1), of js0]
    by (simp add: status_respond)
  have t0: "accepted_form event0"
    using ingest_push_validation[OF eventType_push(1), of js0 kdf0 outcome0 headers0 world0
        "fst (handler js0 kdf0 outcome0 headers0 (Parsed event0) world0)"
        "snd (handler js0 kdf0 outcome0 headers0 (Parsed event0) world0)"]
      s0 string_fields_event0
    by simp
  have t1: "handler js0 kdf0 outcome0 headers0 (Parsed event_short_hash) world0 =
       (respond 400 (ValidationFailed [''commitHash: must be exactly 40 hex characters'']), world0)"
    using ingest_push_validation[OF eventType_push(2), of js0 kdf0 outcome0 headers0 world0
        "fst (handler js0 kdf0 outcome0 headers0 (Parsed event_short_hash) world0)"
        "snd (handler js0 kdf0 outcome0 headers0 (Parsed event_short_hash) world0)"]
      authenticate_event0(2) not_accepted_short_hash string_fields_short_hash
      validateEvent_short_hash[of js0]
    by (simp add: prod_eq_iff)
  have t2: "handler js0 kdf0 outcome0 headers_other (Parsed event0) world0 =
       (respond 401 (InvalidToken None), world0)"
    using ingest_push_validation[OF eventType_push(1), of js0 kdf0 outcome0 headers_other world0
        "fst (handler js0 kdf0 outcome0 headers_other (Parsed event0) world0)"
        "snd (handler js0 kdf0 outcome0 headers_other (Parsed event0) world0)"]
      authenticate_event0_other
    by (simp add: prod_eq_iff)
  have t3: "handler js0 kdf0 outcome0 headers0 (Parsed event0) world_bad_hash =
       (respond 500 InternalError, world_bad_hash)"
    using ingest_push_validation[OF eventType_push(1), of js0 kdf0 outcome0 headers0 world_bad_hash
        "fst (handler js0 kdf0 outcome0 headers0 (Parsed event0) world_bad_hash)"
        "snd (handler js0 kdf0 outcome0 headers0 (Parsed event0) world_bad_hash)"]
      authenticate_event0_bad_hash
    by (simp add: prod_eq_iff)
  have n: "extractToken None = None" by (simp add: extractToken_def falsy_def)
  have t4: "handler js0 kdf0 outcome0 None (Parsed event0) world0 =
       (respond 401 (InvalidToken (Some ''Missing Authorization header'')), world0)"
    using ingest_push_validation[OF eventType_push(1), of js0 kdf0 outcome0 None world0
        "fst (handler js0 kdf0 outcome0 None (Parsed event0) world0)"
        "snd (handler js0 kdf0 outcome0 None (Parsed event0) world0)"] n
    by (simp add: prod_eq_iff)
  have l: "listed ''commitHash'' [''commitHash: must be exactly 40 hex characters'']"
    by (simp add: listed_def)
  show ?thesis
    using s0 t0 t1 t2 t3 t4 l eventType_push authenticate_event0(2) string_fields_event0
      string_fields_short_hash not_accepted_short_hash
    by simp
qed

subsection \<open>Accepted events that are not well-formed\<close>

text \<open>
  Two defects of the validator, which the property above leaves open. The message
  of the timestamp check is \<^verbatim>\<open>must be valid ISO 8601 UTC\<close>, and the check is a pattern:
  month 13, day 45, hour 25 pass. And the checks do not ask for strings: a push whose
  branch is the empty array is accepted, and one whose branch is the object
  \<^verbatim>\<open>{"toString": 1}\<close> passes the validation and then fails with 500.
\<close>

lemma ingest_timestamp_month13:
  "fst (handler js0 kdf0 outcome0 headers0 (Parsed event_month13) world0) =
     respond 200 (Processing (Some (JStr uuid0)) (Some (JStr ''proj-1''))
       (Some (JStr ''feature/auth'')) (now outcome0))"
proof -
  obtain item where
    "build_record js0 (push_of (JStr uuid0) (JStr ''2026-13-45T25:61:61Z'') (JStr ''feature/auth'')
       payload0) (now outcome0) = Inr item"
    using build_record_push_of[where s = "''feature/auth''" and br = "JStr ''feature/auth''"]
    by simp
  from handler_push_of[OF outcome0_flags(1,2) world0_fields(1)
      validateEvent_month13[unfolded event_month13_def] this]
  show ?thesis by (simp add: event_month13_def)
qed

lemma ingest_branch_array:
  "fst (handler js0 kdf0 outcome0 headers0 (Parsed event_branch_array) world0) =
     respond 200 (Processing (Some (JStr uuid0)) (Some (JStr ''proj-1'')) (Some (JArr []))
       (now outcome0))"
proof -
  obtain item where
    "build_record js0 (push_of (JStr uuid0) (JStr time0) (JArr []) payload0) (now outcome0) = Inr item"
    using build_record_push_of[where s = "[]" and br = "JArr []"] by simp
  from handler_push_of[OF outcome0_flags(1,2) world0_fields(1)
      validateEvent_branch_array[unfolded event_branch_array_def] this]
  show ?thesis by (simp add: event_branch_array_def)
qed

lemma ingest_branch_object:
  "handler js0 kdf0 outcome0 headers0 (Parsed event_branch_object) world0 =
     (respond 500 InternalError, world0)"
proof -
  have "authenticate kdf0 outcome0 headers0 (property event_branch_object ''projectId'') world0 =
      Inr (AuthOk project0)"
    using authenticate_world0[OF outcome0_flags(1) world0_fields(1)]
    by (simp add: event_branch_object_def property_push_of)
  from handler_record_throws[OF this validateEvent_branch_object build_record_branch_object]
  show ?thesis .
qed

subsection \<open>Failures and what they leave behind\<close>

lemma build_steps_event0:
  "\<exists>obj. build_object js event0 = Inr obj"
  "\<exists>call. build_invocation event0 = Inr call"
  "\<exists>a. build_audit event0 t = Inr a"
  by (simp_all add: build_object_def build_invocation_def build_audit_def event0_def
      property_push_of payload_of_push_of ToStringV_def thenE_simps)

text \<open>
  Claim C4, as the code has it. Every response is 200, 400, 401 or 500, and a response
  other than 200 leaves every store unchanged. A body that does not parse is answered
  with 400 \<^verbatim>\<open>invalid_json\<close>. A failed authentication (no bearer token, no such project,
  a project without hash, a token that does not match) is answered with 401
  \<^verbatim>\<open>invalid_token\<close>. A validation failure is answered with 400 \<^verbatim>\<open>validation_failed\<close> and
  the validator's list. Whatever throws before or in the critical write (a
  \<^verbatim>\<open>null\<close> body, the project lookup, the comparison of the hashes, the validator, the
  construction of the item, the write to the events table) is answered with 500
  \<^verbatim>\<open>internal_error\<close>. Failures of the S3 archive, of the AI invocation and of the audit
  write are not propagated: the response is 200, the event record is stored, and each
  of the three stores is written exactly when its own call succeeds.
\<close>

theorem ingest_failure_propagation:
  assumes "handler js kdf oc hs rb w = (r, w')"
  shows "(statusCode r \<noteq> 200 \<longrightarrow> w' = w)
    \<and> statusCode r \<in> {200, 400, 401, 500}
    \<and> (rb = Malformed \<longrightarrow> r = respond 400 InvalidJson)
    \<and> (rb = Parsed JNull \<longrightarrow> r = respond 500 InternalError)
    \<and> (\<forall>ev. rb = Parsed ev \<and> ev \<noteq> JNull \<longrightarrow>
         (extractToken hs = None \<longrightarrow>
            r = respond 401 (InvalidToken (Some ''Missing Authorization header'')))
       \<and> (\<forall>t. extractToken hs = Some t \<longrightarrow>
            (\<forall>e. get_project oc (property ev ''projectId'') w = Inl e \<longrightarrow>
               r = respond 500 InternalError)
          \<and> (get_project oc (property ev ''projectId'') w = Inr None \<longrightarrow>
               r = respond 401 (InvalidToken None))
          \<and> (\<forall>p. get_project oc (property ev ''projectId'') w = Inr (Some p) \<longrightarrow>
               (falsy (apiTokenHash p) \<longrightarrow> r = respond 401 (InvalidToken None))
             \<and> (\<not> falsy (apiTokenHash p) \<longrightarrow>
                  (\<forall>e. verifyToken kdf t (apiTokenHash p) = Inl e \<longrightarrow>
                     r = respond 500 InternalError)
                \<and> (verifyToken kdf t (apiTokenHash p) = Inr False \<longrightarrow>
                     r = respond 401 (InvalidToken None))
                \<and> (verifyToken kdf t (apiTokenHash p) = Inr True \<longrightarrow>
                     authenticate kdf oc hs (property ev ''projectId'') w = Inr (AuthOk p))))))
    \<and> (\<forall>ev proj. rb = Parsed ev
           \<and> authenticate kdf oc hs (property ev ''projectId'') w = Inr (AuthOk proj) \<longrightarrow>
         (\<forall>e. validateEvent js ev = Inl e \<longrightarrow> r = respond 500 InternalError)
       \<and> (\<forall>errs. validateEvent js ev = Inr errs \<and> errs \<noteq> [] \<longrightarrow>
            r = respond 400 (ValidationFailed errs))
       \<and> (validateEvent js ev = Inr [] \<longrightarrow>
            (\<forall>e. build_record js ev (now oc) = Inl e \<longrightarrow> r = respond 500 InternalError)
          \<and> (put_event_fails oc \<longrightarrow> r = respond 500 InternalError)
          \<and> (\<forall>item. build_record js ev (now oc) = Inr item \<and> \<not> put_event_fails oc \<longrightarrow>
                r = respond 200 (Processing (property ev ''eventId'') (property ev ''projectId'')
                      (property ev ''branch'') (now oc))
              \<and> events w' = put event_key item (events w)
              \<and> (\<exists>obj. build_object js ev = Inr obj
                    \<and> archive w' =
                        (if s3_fails oc then archive w else put s3_key obj (archive w)))
              \<and> (\<exists>call. build_invocation ev = Inr call
                    \<and> invocations w' =
                        (if invoke_fails oc then invocations w else invocations w @ [call]))
              \<and> (\<exists>a. build_audit ev (now oc) = Inr a
                    \<and> audit w' =
                        (if audit_fails oc then audit w else put audit_key a (audit w)))
              \<and> projects w' = projects w \<and> context_table w' = context_table w)))
    \<and> (\<forall>ev. rb = Parsed ev \<and> extractToken hs \<noteq> None \<and> get_project_fails oc \<longrightarrow>
          r = respond 500 InternalError)"
proof (intro conjI allI impI)
  assume "statusCode r \<noteq> 200"
  then show "w' = w" using handler_not_200[OF assms] by blast
next
  show "statusCode r \<in> {200, 400, 401, 500}" by (rule handler_status[OF assms])
next
  assume "rb = Malformed"
  then show "r = respond 400 InvalidJson" using assms by (simp add: handler_Malformed)
next
  assume "rb = Parsed JNull"
  then show "r = respond 500 InternalError" using assms by (simp add: handler_null)
next
  fix ev
  assume a: "rb = Parsed ev \<and> ev \<noteq> JNull"
  then have h: "handler js kdf oc hs (Parsed ev) w = (r, w')" and nn: "ev \<noteq> JNull"
    using assms by simp_all
  {
    assume "extractToken hs = None"
    from handler_auth_error[OF nn authenticate_no_token[OF this]] h
    show "r = respond 401 (InvalidToken (Some ''Missing Authorization header''))" by simp
  next
    fix t
    assume t: "extractToken hs = Some t"
    note steps = authenticate_steps[OF t, of oc "property ev ''projectId''" w]
    {
      fix e
      assume "get_project oc (property ev ''projectId'') w = Inl e"
      from handler_auth_throws[OF steps(1)[OF this]] h
      show "r = respond 500 InternalError" by simp
    next
      assume "get_project oc (property ev ''projectId'') w = Inr None"
      from handler_auth_error[OF nn steps(2)[OF this]] h
      show "r = respond 401 (InvalidToken None)" by simp
    next
      fix p
      assume g: "get_project oc (property ev ''projectId'') w = Inr (Some p)"
      {
        assume "falsy (apiTokenHash p)"
        from handler_auth_error[OF nn steps(3)[OF g this]] h
        show "r = respond 401 (InvalidToken None)" by simp
      next
        assume f: "\<not> falsy (apiTokenHash p)"
        {
          fix e
          assume "verifyToken kdf t (apiTokenHash p) = Inl e"
          from handler_auth_throws[OF steps(4)[OF g f this]] h
          show "r = respond 500 InternalError" by simp
        next
          assume "verifyToken kdf t (apiTokenHash p) = Inr False"
          from handler_auth_error[OF nn steps(5)[OF g f this]] h
          show "r = respond 401 (InvalidToken None)" by simp
        next
          assume "verifyToken kdf t (apiTokenHash p) = Inr True"
          from steps(6)[OF g f this]
          show "authenticate kdf oc hs (property ev ''projectId'') w = Inr (AuthOk p)" .
        }
      }
    }
  }
next
  fix ev proj
  assume a: "rb = Parsed ev
           \<and> authenticate kdf oc hs (property ev ''projectId'') w = Inr (AuthOk proj)"
  then have h: "handler js kdf oc hs (Parsed ev) w = (r, w')"
    and ok: "authenticate kdf oc hs (property ev ''projectId'') w = Inr (AuthOk proj)"
    using assms by simp_all
  from authenticate_ok_projectId[OF ok] have nn: "ev \<noteq> JNull" by (auto simp: property_def)
  {
    fix e
    assume "validateEvent js ev = Inl e"
    from handler_validation_throws[OF ok this] h show "r = respond 500 InternalError" by simp
  next
    fix errs
    assume "validateEvent js ev = Inr errs \<and> errs \<noteq> []"
    then have "validateEvent js ev = Inr errs" "errs \<noteq> []" by simp_all
    from handler_invalid[OF nn ok this] h show "r = respond 400 (ValidationFailed errs)" by simp
  next
    assume v: "validateEvent js ev = Inr []"
    {
      fix e
      assume "build_record js ev (now oc) = Inl e"
      from handler_record_throws[OF ok v this] h show "r = respond 500 InternalError" by simp
    next
      assume "put_event_fails oc"
      from handler_put_fails[OF ok v this] h show "r = respond 500 InternalError" by simp
    next
      fix item
      assume "build_record js ev (now oc) = Inr item \<and> \<not> put_event_fails oc"
      then have b: "build_record js ev (now oc) = Inr item" and np: "\<not> put_event_fails oc"
        by simp_all
      from handler_accept[OF nn ok v b np] h
      have rw: "r = respond 200 (Processing (property ev ''eventId'') (property ev ''projectId'')
                      (property ev ''branch'') (now oc))"
        "w' = accepted_world js oc ev item w" by simp_all
      show "r = respond 200 (Processing (property ev ''eventId'') (property ev ''projectId'')
                      (property ev ''branch'') (now oc))" by (rule rw(1))
      show "events w' = put event_key item (events w)"
        and "projects w' = projects w" and "context_table w' = context_table w"
        by (simp_all only: rw(2) accepted_world_fields)
      from build_object_ok[OF ok v] obtain obj where o: "build_object js ev = Inr obj" by blast
      show "\<exists>obj. build_object js ev = Inr obj
                    \<and> archive w' =
                        (if s3_fails oc then archive w else put s3_key obj (archive w))"
        using o accepted_world_archive[OF o] rw(2) by blast
      from build_invocation_ok[OF v] obtain call where c: "build_invocation ev = Inr call" by blast
      show "\<exists>call. build_invocation ev = Inr call
                    \<and> invocations w' =
                        (if invoke_fails oc then invocations w else invocations w @ [call])"
        using c accepted_world_invocations[OF c] rw(2) by blast
      from build_audit_ok[OF v] obtain aud where d: "build_audit ev (now oc) = Inr aud" by blast
      show "\<exists>a. build_audit ev (now oc) = Inr a
                    \<and> audit w' =
                        (if audit_fails oc then audit w else put audit_key a (audit w))"
        using d accepted_world_audit[OF d] rw(2) by blast
    }
  }
next
  fix ev
  assume a: "rb = Parsed ev \<and> extractToken hs \<noteq> None \<and> get_project_fails oc"
  then obtain t where t: "extractToken hs = Some t" by blast
  from a have "get_project oc (property ev ''projectId'') w = Inl ServiceError"
    by (simp add: get_project_fails_Inl)
  from handler_auth_throws[OF authenticate_steps(1)[OF t this]] a assms
  show "r = respond 500 InternalError" by simp
qed

text \<open>
  Claim C4 as stated fails: with the archive and the audit write failing, the caller
  gets 200, and the event record is stored without its archive object and without its
  audit record.
\<close>

theorem ingest_failure_propagation_counterexample:
  "s3_fails outcome_s3_down \<and> audit_fails outcome_s3_down
   \<and> fst (handler js0 kdf0 outcome_s3_down headers0 (Parsed event0) world0) =
       respond 200 (Processing (property event0 ''eventId'') (property event0 ''projectId'')
         (property event0 ''branch'') (now outcome0))
   \<and> events (snd (handler js0 kdf0 outcome_s3_down headers0 (Parsed event0) world0)) =
       [record0 (now outcome0)]
   \<and> archive (snd (handler js0 kdf0 outcome_s3_down headers0 (Parsed event0) world0)) = []
   \<and> audit (snd (handler js0 kdf0 outcome_s3_down headers0 (Parsed event0) world0)) = []"
proof -
  have f: "s3_fails outcome_s3_down" "audit_fails outcome_s3_down"
    "now outcome_s3_down = now outcome0"
    by (simp_all add: outcome_s3_down_def)
  have "handler js0 kdf0 outcome_s3_down headers0 (Parsed event0) world0 =
     (respond 200 (Processing (Some (JStr uuid0)) (Some (JStr ''proj-1''))
        (Some (JStr ''feature/auth'')) (now outcome_s3_down)),
      accepted_world js0 outcome_s3_down event0 (record0 (now outcome_s3_down)) world0)"
    by (rule handler_event0) (simp_all add: outcome_s3_down_def outcome0_def world0_def)
  moreover obtain obj a where "build_object js0 event0 = Inr obj"
    "build_audit event0 (now outcome_s3_down) = Inr a"
    using build_steps_event0(1,3) by blast
  ultimately show ?thesis
    using f
    by (simp add: accepted_world_fields accepted_world_archive accepted_world_audit world0_fields
        put_def event0_def property_push_of)
qed

text \<open>The theorem of C4 at a failing critical write, at a failing archive and audit
  write, at a request with another token, at a stored hash that cannot be compared, and
  at a request without token.\<close>

theorem ingest_failure_propagation_witness:
  "handler js0 kdf0 outcome_put_down headers0 (Parsed event0) world0 =
     (respond 500 InternalError, world0)
   \<and> fst (handler js0 kdf0 outcome_s3_down headers0 (Parsed event0) world0) =
       respond 200 (Processing (Some (JStr uuid0)) (Some (JStr ''proj-1''))
         (Some (JStr ''feature/auth'')) (now outcome_s3_down))
   \<and> events (snd (handler js0 kdf0 outcome_s3_down headers0 (Parsed event0) world0)) =
       put event_key (record0 (now outcome_s3_down)) (events world0)
   \<and> archive (snd (handler js0 kdf0 outcome_s3_down headers0 (Parsed event0) world0)) = archive world0
   \<and> map Inr (invocations (snd (handler js0 kdf0 outcome_s3_down headers0 (Parsed event0) world0))) =
       map Inr (invocations world0) @ [build_invocation event0]
   \<and> audit (snd (handler js0 kdf0 outcome_s3_down headers0 (Parsed event0) world0)) = audit world0
   \<and> handler js0 kdf0 outcome0 headers_other (Parsed event0) world0 =
       (respond 401 (InvalidToken None), world0)
   \<and> handler js0 kdf0 outcome0 headers0 (Parsed event0) world_bad_hash =
       (respond 500 InternalError, world_bad_hash)
   \<and> handler js0 kdf0 outcome0 None (Parsed event0) world0 =
       (respond 401 (InvalidToken (Some ''Missing Authorization header'')), world0)"
proof -
  have a: "authenticate kdf0 outcome_put_down headers0 (property event0 ''projectId'') world0 = Inr (AuthOk project0)"
    "authenticate kdf0 outcome_s3_down headers0 (property event0 ''projectId'') world0 = Inr (AuthOk project0)"
    using authenticate_world0[of outcome_put_down world0] authenticate_world0[of outcome_s3_down world0]
    by (simp_all add: event0_def property_push_of outcome_put_down_def outcome_s3_down_def
        outcome0_def world0_def)
  have f: "put_event_fails outcome_put_down" "\<not> put_event_fails outcome_s3_down"
    "s3_fails outcome_s3_down" "audit_fails outcome_s3_down" "\<not> invoke_fails outcome_s3_down"
    by (simp_all add: outcome_put_down_def outcome_s3_down_def outcome0_def)
  have nn: "event0 \<noteq> JNull" by (simp add: event0_def event_not_null)
  have 1: "handler js0 kdf0 outcome_put_down headers0 (Parsed event0) world0 =
      (respond 500 InternalError, world0)"
    using ingest_failure_propagation[of js0 kdf0 outcome_put_down headers0 "Parsed event0" world0
        "fst (handler js0 kdf0 outcome_put_down headers0 (Parsed event0) world0)"
        "snd (handler js0 kdf0 outcome_put_down headers0 (Parsed event0) world0)"]
      a(1) f(1) validateEvent_event0[of js0]
    by (simp add: prod_eq_iff status_respond)
  have 2: "fst (handler js0 kdf0 outcome_s3_down headers0 (Parsed event0) world0) =
       respond 200 (Processing (Some (JStr uuid0)) (Some (JStr ''proj-1''))
         (Some (JStr ''feature/auth'')) (now outcome_s3_down))
   \<and> events (snd (handler js0 kdf0 outcome_s3_down headers0 (Parsed event0) world0)) =
       put event_key (record0 (now outcome_s3_down)) (events world0)
   \<and> archive (snd (handler js0 kdf0 outcome_s3_down headers0 (Parsed event0) world0)) = archive world0
   \<and> map Inr (invocations (snd (handler js0 kdf0 outcome_s3_down headers0 (Parsed event0) world0))) =
       map Inr (invocations world0) @ [build_invocation event0]
   \<and> audit (snd (handler js0 kdf0 outcome_s3_down headers0 (Parsed event0) world0)) = audit world0"
    using ingest_failure_propagation[of js0 kdf0 outcome_s3_down headers0 "Parsed event0" world0
        "fst (handler js0 kdf0 outcome_s3_down headers0 (Parsed event0) world0)"
        "snd (handler js0 kdf0 outcome_s3_down headers0 (Parsed event0) world0)"]
      a(2) f(2-5) validateEvent_event0[of js0] build_record_event0[of js0 "now outcome_s3_down"]
    by (auto simp: event0_def property_push_of)
  have 3: "handler js0 kdf0 outcome0 headers_other (Parsed event0) world0 =
       (respond 401 (InvalidToken None), world0)"
    using ingest_failure_propagation[of js0 kdf0 outcome0 headers_other "Parsed event0" world0
        "fst (handler js0 kdf0 outcome0 headers_other (Parsed event0) world0)"
        "snd (handler js0 kdf0 outcome0 headers_other (Parsed event0) world0)"]
      nn extractToken_headers_other
      get_project0[OF outcome0_flags(1) world0_fields(1) project0_fields(1)]
      project0_fields(2,3) verifyToken_nope
    by (simp add: prod_eq_iff status_respond event0_def property_push_of)
  have g: "get_project outcome0 (Some (JStr ''proj-1'')) world_bad_hash =
      Inr (Some \<lparr>p_projectId = ''proj-1'', apiTokenHash = Some ''abcd:zz''\<rparr>)"
    by (rule get_project0) (simp_all add: outcome0_def world_bad_hash_def)
  have 4: "handler js0 kdf0 outcome0 headers0 (Parsed event0) world_bad_hash =
       (respond 500 InternalError, world_bad_hash)"
    using ingest_failure_propagation[of js0 kdf0 outcome0 headers0 "Parsed event0" world_bad_hash
        "fst (handler js0 kdf0 outcome0 headers0 (Parsed event0) world_bad_hash)"
        "snd (handler js0 kdf0 outcome0 headers0 (Parsed event0) world_bad_hash)"]
      nn extractToken_headers0 g verifyToken_bad_hash
    by (simp add: prod_eq_iff status_respond event0_def property_push_of falsy_def)
  have n: "extractToken None = None" by (simp add: extractToken_def falsy_def)
  have 5: "handler js0 kdf0 outcome0 None (Parsed event0) world0 =
       (respond 401 (InvalidToken (Some ''Missing Authorization header'')), world0)"
    using ingest_failure_propagation[of js0 kdf0 outcome0 None "Parsed event0" world0
        "fst (handler js0 kdf0 outcome0 None (Parsed event0) world0)"
        "snd (handler js0 kdf0 outcome0 None (Parsed event0) world0)"] nn n
    by (simp add: prod_eq_iff status_respond)
  show ?thesis using 1 2 3 4 5 by blast
qed

subsection \<open>Re-delivery\<close>

lemma length_put_put:
  "key b = key a \<Longrightarrow> length (put key b (put key a tbl)) = length (put key a tbl)"
  by (simp add: put_def)

lemma distinct_put:
  "distinct (map key tbl) \<Longrightarrow> distinct (map key (put key item tbl))"
  by (auto simp: put_def distinct_map_filter)

lemma distinct_fold_put:
  "distinct (map key tbl) \<Longrightarrow> distinct (map key (fold (put key) items tbl))"
  by (induction items arbitrary: tbl) (simp_all add: distinct_put)

lemma distinct_key_filter_le_1:
  "distinct (map key tbl) \<Longrightarrow> length (filter (\<lambda>x. key x = k) tbl) \<le> 1"
proof (induction tbl)
  case Nil
  then show ?case by simp
next
  case (Cons a tbl)
  have "key a = k \<Longrightarrow> filter (\<lambda>x. key x = k) tbl = []"
    using Cons.prems by (auto simp: filter_empty_conv image_iff)
  with Cons show ?case by (cases "key a = k") auto
qed

lemma filter_fresh:
  "list_all (\<lambda>x. f x \<noteq> v) tbl \<Longrightarrow> filter (\<lambda>x. f x = v \<and> P x) tbl = []"
  by (induction tbl) auto

lemma filter_id_put_fresh:
  assumes "list_all (\<lambda>x. f x \<noteq> v) tbl" and "f item = v"
  shows "filter (\<lambda>x. f x = v) (put key item tbl) = [item]"
proof -
  have "filter (\<lambda>x. f x = v) (filter (\<lambda>x. key x \<noteq> key item) tbl) = []"
    using assms(1) by (induction tbl) auto
  then show ?thesis using assms(2) by (simp add: put_def)
qed

lemma filter_id_put_put:
  assumes "list_all (\<lambda>x. f x \<noteq> v) tbl" and "f a = v" and "f b = v" and "key b = key a"
  shows "filter (\<lambda>x. f x = v) (put key b (put key a tbl)) = [b]"
proof -
  have "filter (\<lambda>x. f x = v) (filter (\<lambda>x. key x \<noteq> key a) tbl) = []"
    using assms(1) by (induction tbl) auto
  then show ?thesis using assms(2-4) by (simp add: put_def)
qed

text \<open>The key of the item and its \<^verbatim>\<open>eventId\<close> depend on the event only, not on the
  time of receipt.\<close>

lemma build_record_key:
  assumes "build_record js ev t = Inr a" and "build_record js ev t' = Inr b"
  shows "event_key a = event_key b" and "e_eventId a = property ev ''eventId''"
  using assms by (auto simp: event_key_def build_record_def thenE_Inr_iff)

lemma handler_events:
  assumes "handler js kdf oc hs (Parsed ev) w = (r, w')"
  shows "(statusCode r = 200
            \<and> (\<exists>item. build_record js ev (now oc) = Inr item
                  \<and> events w' = put event_key item (events w))
            \<and> context_table w' = context_table w)
       \<or> (statusCode r \<noteq> 200 \<and> w' = w)"
proof (cases "statusCode r = 200")
  case True
  from handler_200[OF assms True] show ?thesis
    using True by (auto simp: accepted_world_fields)
next
  case False
  then show ?thesis using handler_not_200[OF assms] by simp
qed

text \<open>
  Claim C1. The same push event is delivered twice, with any outcome of the service
  calls and any clock each time, to a store that holds no record of that \<^verbatim>\<open>eventId\<close>.
  Afterwards the events table holds at most one record with that \<^verbatim>\<open>eventId\<close>, and
  exactly one when one of the deliveries was accepted; when the first delivery was
  accepted, the second adds no record. The ingestion route does not write the context
  table, and that table, keyed by \<^verbatim>\<open>eventId\<close> alone, holds at most one item per
  \<^verbatim>\<open>eventId\<close> whatever items are put into it afterwards.
\<close>

theorem ingest_redelivery:
  assumes first: "handler js kdf oc1 hs1 (Parsed ev) w0 = (r1, w1)"
    and second: "handler js kdf oc2 hs2 (Parsed ev) w1 = (r2, w2)"
    and fresh: "list_all (\<lambda>x. e_eventId x \<noteq> property ev ''eventId'') (events w0)"
  shows "length (filter (\<lambda>x. e_eventId x = property ev ''eventId'') (events w2)) \<le> 1
    \<and> (statusCode r1 = 200 \<or> statusCode r2 = 200 \<longrightarrow>
         length (filter (\<lambda>x. e_eventId x = property ev ''eventId'') (events w2)) = 1)
    \<and> (statusCode r1 = 200 \<longrightarrow> length (events w2) = length (events w1))
    \<and> context_table w2 = context_table w0
    \<and> (distinct (map c_eventId (context_table w0)) \<longrightarrow>
         (\<forall>items e. length (filter (\<lambda>c. c_eventId c = e)
                         (fold (put c_eventId) items (context_table w2))) \<le> 1))"
proof -
  let ?id = "property ev ''eventId''"
  let ?n = "\<lambda>w. length (filter (\<lambda>x. e_eventId x = ?id) (events w))"
  have n0: "?n w0 = 0" using fresh filter_fresh[of e_eventId ?id "events w0" "\<lambda>x. True"] by simp
  note c1 = handler_events[OF first] and c2 = handler_events[OF second]
  have ctx: "context_table w2 = context_table w0" using c1 c2 by auto
  have cnt: "?n w2 = (if statusCode r1 = 200 \<or> statusCode r2 = 200 then 1 else 0)"
  proof (cases "statusCode r1 = 200")
    case True
    with c1 obtain a where a: "build_record js ev (now oc1) = Inr a"
      and e1: "events w1 = put event_key a (events w0)"
      by auto
    show ?thesis
    proof (cases "statusCode r2 = 200")
      case True
      with c2 obtain b where b: "build_record js ev (now oc2) = Inr b"
        and e2: "events w2 = put event_key b (events w1)"
        by auto
      show ?thesis
        using filter_id_put_put[where key = event_key and a = a and b = b,
            OF fresh build_record_key(2)[OF a a] build_record_key(2)[OF b b]
            build_record_key(1)[OF b a]] e1 e2 True
        by simp
    next
      case False
      with c2 have "w2 = w1" by simp
      then show ?thesis
        using filter_id_put_fresh[OF fresh build_record_key(2)[OF a a], of event_key] e1 True
        by simp
    qed
  next
    case False
    with c1 have w1: "w1 = w0" by simp
    show ?thesis
    proof (cases "statusCode r2 = 200")
      case True
      with c2 obtain b where b: "build_record js ev (now oc2) = Inr b"
        and e2: "events w2 = put event_key b (events w1)"
        by auto
      show ?thesis
        using filter_id_put_fresh[OF fresh build_record_key(2)[OF b b], of event_key] w1 e2 True
        by simp
    next
      case False
      with c2 have "w2 = w1" by simp
      then show ?thesis using w1 n0 False \<open>statusCode r1 \<noteq> 200\<close> by simp
    qed
  qed
  have len: "statusCode r1 = 200 \<longrightarrow> length (events w2) = length (events w1)"
  proof
    assume "statusCode r1 = 200"
    with c1 obtain a where a: "build_record js ev (now oc1) = Inr a"
      and e1: "events w1 = put event_key a (events w0)"
      by auto
    show "length (events w2) = length (events w1)"
    proof (cases "statusCode r2 = 200")
      case True
      with c2 obtain b where b: "build_record js ev (now oc2) = Inr b"
        and e2: "events w2 = put event_key b (events w1)"
        by auto
      show ?thesis
        using length_put_put[where key = event_key and a = a and b = b and tbl = "events w0",
            OF build_record_key(1)[OF b a]] e1 e2 by simp
    next
      case False
      with c2 show ?thesis by simp
    qed
  qed
  have tbl: "distinct (map c_eventId (context_table w0)) \<longrightarrow>
         (\<forall>items e. length (filter (\<lambda>c. c_eventId c = e)
                         (fold (put c_eventId) items (context_table w2))) \<le> 1)"
    unfolding ctx
    using distinct_key_filter_le_1[of c_eventId] distinct_fold_put[of c_eventId "context_table w0"]
    by blast
  show ?thesis using cnt len ctx tbl by simp
qed

text \<open>The theorem of C1 at a well-formed push delivered twice and accepted twice.\<close>

theorem ingest_redelivery_witness:
  "list_all (\<lambda>x. e_eventId x \<noteq> property event0 ''eventId'') (events world0)
   \<and> statusCode (fst (handler js0 kdf0 outcome0 headers0 (Parsed event0) world0)) = 200
   \<and> statusCode (fst (handler js0 kdf0 outcome1 headers0 (Parsed event0)
        (snd (handler js0 kdf0 outcome0 headers0 (Parsed event0) world0)))) = 200
   \<and> length (filter (\<lambda>x. e_eventId x = property event0 ''eventId'')
        (events (snd (handler js0 kdf0 outcome1 headers0 (Parsed event0)
           (snd (handler js0 kdf0 outcome0 headers0 (Parsed event0) world0)))))) = 1
   \<and> length (events (snd (handler js0 kdf0 outcome1 headers0 (Parsed event0)
           (snd (handler js0 kdf0 outcome0 headers0 (Parsed event0) world0))))) =
     length (events (snd (handler js0 kdf0 outcome0 headers0 (Parsed event0) world0)))
   \<and> distinct (map c_eventId (context_table world0))"
proof -
  let ?h1 = "handler js0 kdf0 outcome0 headers0 (Parsed event0) world0"
  let ?h2 = "handler js0 kdf0 outcome1 headers0 (Parsed event0) (snd ?h1)"
  have fresh: "list_all (\<lambda>x. e_eventId x \<noteq> property event0 ''eventId'') (events world0)"
    and d: "distinct (map c_eventId (context_table world0))"
    by (simp_all add: world0_def)
  have h1: "?h1 = (respond 200 (Processing (Some (JStr uuid0)) (Some (JStr ''proj-1''))
        (Some (JStr ''feature/auth'')) (now outcome0)),
      accepted_world js0 outcome0 event0 (record0 (now outcome0)) world0)"
    by (rule handler_event0) (simp_all add: outcome0_def world0_def)
  have s1: "statusCode (fst ?h1) = 200" by (simp add: h1 status_respond)
  have "handler js0 kdf0 outcome1 headers0 (Parsed event0)
      (accepted_world js0 outcome0 event0 (record0 (now outcome0)) world0) =
      (respond 200 (Processing (Some (JStr uuid0)) (Some (JStr ''proj-1''))
        (Some (JStr ''feature/auth'')) (now outcome1)),
      accepted_world js0 outcome1 event0 (record0 (now outcome1))
        (accepted_world js0 outcome0 event0 (record0 (now outcome0)) world0))"
    by (rule handler_event0)
       (simp_all add: outcome1_def outcome0_def world0_def accepted_world_fields)
  then have s2: "statusCode (fst ?h2) = 200" by (simp add: h1 status_respond)
  show ?thesis
    using ingest_redelivery[of js0 kdf0 outcome0 headers0 event0 world0 "fst ?h1" "snd ?h1"
        outcome1 headers0 "fst ?h2" "snd ?h2"] fresh s1 s2 d
    by simp
qed

subsection \<open>Bearer tokens\<close>

lemma split_on_Bearer:
  assumes "CHR '' '' \<notin> set tok"
  shows "split_on CHR '' '' (''Bearer '' @ tok) = [''Bearer'', tok]"
  using split_on_append[of "CHR '' ''" "''Bearer''" tok] split_on_none[OF assms] by simp

lemma extractToken_Bearer:
  assumes "tok \<noteq> []" and "CHR '' '' \<notin> set tok"
  shows "extractToken (Some \<lparr>Authorization = Some (''Bearer '' @ tok), authorization = x\<rparr>) = Some tok"
proof -
  have "split_on CHR '' '' (''Bearer '' @ tok) = [''Bearer'', tok]"
    by (rule split_on_Bearer[OF assms(2)])
  then have "split_on CHR '' '' (CHR ''B'' # CHR ''e'' # CHR ''a'' # CHR ''r'' # CHR ''e'' # CHR ''r'' # CHR '' '' # tok) = [''Bearer'', tok]"
    by simp
  then show ?thesis
    unfolding extractToken_def Let_def
    using assms(1) by (simp add: falsy_def tmpl_def at_index_def)
qed

text \<open>
  Claim C9, as the code has it. For a key derivation function whose output has the
  requested length and a 16-byte salt: \<open>verifyToken\<close> accepts the token that was hashed,
  and accepts another plaintext exactly when its 64-byte digest under the drawn salt
  equals the stored one. Bearer authentication of a project that stores such a hash
  succeeds for exactly those tokens.
\<close>

theorem verifyToken_hashToken:
  assumes len: "\<And>p s n. length (kdf p s n) = n" and salt: "length salt_bytes = 16"
  shows "verifyToken kdf t (Some (hashToken kdf salt_bytes t)) = Inr True
    \<and> verifyToken kdf t' (Some (hashToken kdf salt_bytes t)) =
        Inr (kdf t' (toHex salt_bytes) 64 = kdf t (toHex salt_bytes) 64)
    \<and> (t' \<noteq> [] \<and> CHR '' '' \<notin> set t' \<and> \<not> get_project_fails oc \<and> pid \<noteq> []
        \<and> get p_projectId pid (projects w) = Some proj
        \<and> apiTokenHash proj = Some (hashToken kdf salt_bytes t) \<longrightarrow>
        authenticate kdf oc (Some \<lparr>Authorization = Some (''Bearer '' @ t'), authorization = None\<rparr>)
          (Some (JStr pid)) w =
        Inr (if kdf t' (toHex salt_bytes) 64 = kdf t (toHex salt_bytes) 64 then AuthOk proj
             else AuthError 401 (InvalidToken None)))"
proof -
  have sb: "salt_bytes \<noteq> []" using salt by auto
  note v = verify_digest_eq[of kdf salt_bytes, OF len sb]
  have 1: "verifyToken kdf t (Some (hashToken kdf salt_bytes t)) = Inr True"
    by (simp add: v)
  have 3: "authenticate kdf oc (Some \<lparr>Authorization = Some (''Bearer '' @ t'), authorization = None\<rparr>)
          (Some (JStr pid)) w =
        Inr (if kdf t' (toHex salt_bytes) 64 = kdf t (toHex salt_bytes) 64 then AuthOk proj
             else AuthError 401 (InvalidToken None))"
    if a: "t' \<noteq> [] \<and> CHR '' '' \<notin> set t' \<and> \<not> get_project_fails oc \<and> pid \<noteq> []
        \<and> get p_projectId pid (projects w) = Some proj
        \<and> apiTokenHash proj = Some (hashToken kdf salt_bytes t)"
  proof -
    have e: "extractToken (Some \<lparr>Authorization = Some (''Bearer '' @ t'), authorization = None\<rparr>) = Some t'"
      using extractToken_Bearer a by blast
    have g: "get_project oc (Some (JStr pid)) w = Inr (Some proj)"
      using a by (simp add: get_project_def)
    have f: "\<not> falsy (apiTokenHash proj)" using a by (simp add: falsy_def hashToken_not_Nil)
    show ?thesis
      unfolding authenticate_def e g
      using f a by (simp add: v)
  qed
  show ?thesis using 1 v[of t' t] 3 by blast
qed

theorem verifyToken_hashToken_witness:
  "length (kdf0 ''p'' ''s'' 5) = 5 \<and> length salt0 = 16
   \<and> verifyToken kdf0 ''tok'' (Some (hashToken kdf0 salt0 ''tok'')) = Inr True
   \<and> verifyToken kdf0 ''token2'' (Some (hashToken kdf0 salt0 ''tok'')) = Inr False
   \<and> authenticate kdf0 outcome0 headers0 (Some (JStr ''proj-1'')) world0 = Inr (AuthOk project0)
   \<and> authenticate kdf0 outcome0
        (Some \<lparr>Authorization = Some ''Bearer token2'', authorization = None\<rparr>)
        (Some (JStr ''proj-1'')) world0 = Inr (AuthError 401 (InvalidToken None))"
proof -
  have s: "length salt0 = 16" by (simp add: salt0_def)
  have k: "kdf0 ''token2'' (toHex salt0) 64 \<noteq> kdf0 ''tok'' (toHex salt0) 64"
    by (simp add: kdf0_def)
  have w: "\<not> get_project_fails outcome0" "get p_projectId ''proj-1'' (projects world0) = Some project0"
    "apiTokenHash project0 = Some (hashToken kdf0 salt0 ''tok'')"
    by (simp_all add: outcome0_def world0_def project0_def get_def)
  have b: "''Bearer '' @ ''token2'' = ''Bearer token2''" "''Bearer '' @ ''tok'' = ''Bearer tok''" by simp_all
  have t2: "verifyToken kdf0 ''tok'' (Some (hashToken kdf0 salt0 ''tok'')) = Inr True
    \<and> verifyToken kdf0 ''token2'' (Some (hashToken kdf0 salt0 ''tok'')) = Inr False
    \<and> authenticate kdf0 outcome0
        (Some \<lparr>Authorization = Some ''Bearer token2'', authorization = None\<rparr>)
        (Some (JStr ''proj-1'')) world0 = Inr (AuthError 401 (InvalidToken None))"
    using verifyToken_hashToken[of kdf0 salt0 "''tok''" "''token2''" outcome0 "''proj-1''" world0 project0,
        OF kdf0_length s] k w
    unfolding b by simp
  have t1: "authenticate kdf0 outcome0 headers0 (Some (JStr ''proj-1'')) world0 = Inr (AuthOk project0)"
    using verifyToken_hashToken[of kdf0 salt0 "''tok''" "''tok''" outcome0 "''proj-1''" world0 project0,
        OF kdf0_length s] w
    unfolding b headers0_def by simp
  show ?thesis using t1 t2 s by (simp add: kdf0_length)
qed

text \<open>
  Claim C9 as stated fails for every key derivation function: there are more plaintexts
  than 64-byte digests, so for any salt some plaintext other than the token has the
  token's digest and is accepted. No function \<open>kdf\<close> with outputs of the requested
  length makes \<open>verifyToken\<close> reject every other plaintext.
\<close>

theorem verifyToken_hashToken_counterexample:
  "\<not> (\<exists>kdf :: scrypt. (\<forall>p s n. length (kdf p s n) = n) \<and>
        (\<forall>t t'. t' \<noteq> t \<longrightarrow> verifyToken kdf t' (Some (hashToken kdf salt0 t)) = Inr False))"
proof
  assume "\<exists>kdf :: scrypt. (\<forall>p s n. length (kdf p s n) = n) \<and>
        (\<forall>t t'. t' \<noteq> t \<longrightarrow> verifyToken kdf t' (Some (hashToken kdf salt0 t)) = Inr False)"
  then obtain kdf :: scrypt where len: "\<And>p s n. length (kdf p s n) = n"
    and rej: "\<And>t t'. t' \<noteq> t \<Longrightarrow> verifyToken kdf t' (Some (hashToken kdf salt0 t)) = Inr False"
    by blast
  from kdf_collision[of kdf "toHex salt0", OF len]
  obtain t t' where ne: "t' \<noteq> t" and eq: "kdf t' (toHex salt0) 64 = kdf t (toHex salt0) 64"
    by blast
  have "salt0 \<noteq> []" by (simp add: salt0_def)
  from verify_digest_eq[of kdf salt0 t' t, OF len this] eq
  have "verifyToken kdf t' (Some (hashToken kdf salt0 t)) = Inr True" by simp
  with rej[OF ne] show False by simp
qed

section \<open>Properties of the capture extension\<close>

lemma set_transmit_from: "set (fst (transmit_from ok ev i k)) \<subseteq> {ev}"
  by (induction ok ev i k rule: transmit_from.induct) (auto split: prod.splits)

lemma getDiff_None: "(getDiff env = None) = (git env ''diff HEAD~1 HEAD'' = None \<or> git env ''diff HEAD~1 HEAD'' = Some [])"
  by (auto simp: getDiff_def Let_def falsy_def split: option.splits)

lemma getDiff_Some:
  "git env ''diff HEAD~1 HEAD'' = Some out \<Longrightarrow> out \<noteq> [] \<Longrightarrow> getDiff env = Some (take 50000 out)"
  by (auto simp: getDiff_def Let_def falsy_def tmpl_def)

lemma getDiff_bounds: "getDiff env = Some d \<Longrightarrow> d \<noteq> [] \<and> length d \<le> 50000"
  by (auto simp: getDiff_def Let_def falsy_def tmpl_def split: option.splits if_splits)

lemma capture_diff:
  assumes "capture env uuid clock pid db br = Some ev"
  shows "\<exists>p d. payload ev = Some p \<and> diff p = Some d \<and> getDiff env = Some d \<and> eventType ev = Some ''push''"
  using assms by (auto simp: capture_def Let_def falsy_def split: option.splits if_splits)

text \<open>The event on the wire has the fields of the event, each a string.\<close>

lemma property_to_json:
  "property (to_json ev) ''eventId'' = map_option JStr (eventId ev)"
  "property (to_json ev) ''eventType'' = map_option JStr (eventType ev)"
  "property (to_json ev) ''timestamp'' = map_option JStr (timestamp ev)"
  "property (to_json ev) ''branch'' = map_option JStr (branch ev)"
  "property (to_json ev) ''payload'' = map_option payload_json (payload ev)"
  by (simp_all add: to_json_def property_def member_str_def split: option.splits)

lemma property_payload_json:
  "property (payload_json p) ''commitHash'' = map_option JStr (commitHash p)"
  "property (payload_json p) ''diff'' = map_option JStr (diff p)"
  by (simp_all add: payload_json_def property_def member_str_def split: option.splits)

lemma string_fields_to_json: "string_fields (to_json ev)"
  by (auto simp: string_fields_def property_to_json property_payload_json textual_def
      split: option.splits)

lemma header_no_diff:
  "header_errors js ev = Inr he \<Longrightarrow> ''diff: max 50000 characters'' \<notin> set he"
  by (auto simp: header_errors_def eventId_errors_def timestamp_errors_def branch_errors_def
      projectId_errors_def eventType_errors_def thenE_Inr_iff split: if_splits option.splits)

lemma push_no_diff:
  assumes "push_errors js p = Inr pe" and "property p ''diff'' = Some (JStr d)"
    and "length d \<le> 50000"
  shows "''diff: max 50000 characters'' \<notin> set pe"
  using assms
  by (auto simp: push_errors_def commitHash_errors_def thenE_Inr_iff split: if_splits)

lemma no_diff_error:
  assumes "eventType ev = Some ''push''" and "payload ev = Some p" and "diff p = Some d"
    and "length d \<le> 50000"
  shows "\<exists>errs. validateEvent js (to_json ev) = Inr errs
           \<and> ''diff: max 50000 characters'' \<notin> set errs"
proof -
  have push: "property (to_json ev) ''eventType'' = Some (JStr ''push'')"
    using assms(1) by (simp add: property_to_json)
  from validateEvent_textual[OF push string_fields_to_json] obtain errs where
    v: "validateEvent js (to_json ev) = Inr errs" by blast
  have pl: "property (to_json ev) ''payload'' = Some (payload_json p)"
    using assms(2) by (simp add: property_to_json)
  have t: "truthy (property (to_json ev) ''payload'')"
    by (simp add: pl payload_json_def truthy_def)
  from validateEvent_Inr[OF push v] t pl obtain he pe where
    h: "header_errors js (to_json ev) = Inr he" "push_errors js (payload_json p) = Inr pe"
       "errs = he @ pe"
    by auto
  have "property (payload_json p) ''diff'' = Some (JStr d)"
    using assms(3) by (simp add: property_payload_json)
  from push_no_diff[OF h(2) this assms(4)] header_no_diff[OF h(1)] v h(3)
  show ?thesis by simp
qed


text \<open>
  Claim C10. \<open>getDiff\<close> returns null exactly when the git invocation fails (no workspace
  root, or \<^verbatim>\<open>execSync\<close> throws) or the trimmed diff is empty; otherwise it returns the
  first 50,000 characters of the diff. Every request \<open>handlePushEvent\<close> sends carries a
  non-empty diff of at most 50,000 characters, which the backend's diff check accepts,
  and when \<open>getDiff\<close> returns null nothing is sent.
\<close>

theorem getDiff_limit:
  "(git env args = None) = (falsy (workspaceRoot env) \<or> execSync env (''git '' @ args) = None)
   \<and> (getDiff env = None) =
       (git env ''diff HEAD~1 HEAD'' = None \<or> git env ''diff HEAD~1 HEAD'' = Some [])
   \<and> (\<forall>out. git env ''diff HEAD~1 HEAD'' = Some out \<and> out \<noteq> [] \<longrightarrow>
         getDiff env = Some (take 50000 out) \<and> length (take 50000 out) \<le> 50000)
   \<and> (\<forall>ev \<in> set (handlePushEvent env ok uuid clock pid defaultBranch br).
         \<exists>p d. payload ev = Some p \<and> diff p = Some d \<and> d \<noteq> [] \<and> length d \<le> 50000
           \<and> (\<exists>errs. validateEvent js (to_json ev) = Inr errs
                 \<and> ''diff: max 50000 characters'' \<notin> set errs))
   \<and> (getDiff env = None \<longrightarrow> handlePushEvent env ok uuid clock pid defaultBranch br = [])"
proof (intro conjI allI impI ballI)
  show "(git env args = None) = (falsy (workspaceRoot env) \<or> execSync env (''git '' @ args) = None)"
    by (simp add: git_def split: option.splits)
next
  show "(getDiff env = None) =
       (git env ''diff HEAD~1 HEAD'' = None \<or> git env ''diff HEAD~1 HEAD'' = Some [])"
    by (rule getDiff_None)
next
  fix out
  assume "git env ''diff HEAD~1 HEAD'' = Some out \<and> out \<noteq> []"
  then show "getDiff env = Some (take 50000 out)" using getDiff_Some by blast
next
  fix out :: string
  show "length (take 50000 out) \<le> 50000" by simp
next
  fix ev
  assume "ev \<in> set (handlePushEvent env ok uuid clock pid defaultBranch br)"
  then obtain c where c: "capture env uuid clock pid defaultBranch br = Some c"
    and "ev \<in> set (fst (transmitEvent ok c))"
    by (cases "capture env uuid clock pid defaultBranch br") (auto simp: handlePushEvent_def)
  then have "ev = c" using set_transmit_from[of ok c 0 "length retryDelays"]
    by (auto simp: transmitEvent_def)
  with capture_diff[OF c] obtain p d where
    pd: "payload ev = Some p" "diff p = Some d" "getDiff env = Some d"
      "eventType ev = Some ''push''" by blast
  from getDiff_bounds[OF pd(3)] have b: "d \<noteq> []" "length d \<le> 50000" by simp_all
  from no_diff_error[OF pd(4,1,2) b(2), of js] pd(1,2) b
  show "\<exists>p d. payload ev = Some p \<and> diff p = Some d \<and> d \<noteq> [] \<and> length d \<le> 50000
           \<and> (\<exists>errs. validateEvent js (to_json ev) = Inr errs
                 \<and> ''diff: max 50000 characters'' \<notin> set errs)"
    by blast
next
  assume "getDiff env = None"
  then show "handlePushEvent env ok uuid clock pid defaultBranch br = []"
    by (simp add: handlePushEvent_def capture_def falsy_def)
qed

lemma git_env0_diff: "git env0 ''diff HEAD~1 HEAD'' = Some ''+x''"
  by (simp add: git_def env0_def falsy_def trim_def is_ws_def)

lemma git_env_empty_diff: "git env_empty_diff ''diff HEAD~1 HEAD'' = Some []"
  by (simp add: git_def env_empty_diff_def env0_def falsy_def trim_def is_ws_def)

lemma getLastCommitInfo_env0:
  "getLastCommitInfo env0 =
     Some \<lparr>ci_commitHash = ''0123456789abcdef0123456789abcdef01234567'', ci_message = ''add login'',
           ci_author = ''Alice'', ci_timestamp = ''2026-03-01T10:00:00+01:00''\<rparr>"
  by (simp add: getLastCommitInfo_def git_def env0_def falsy_def trim_def is_ws_def log_args_def
      tmpl_def at_index_def Let_def)

theorem getDiff_limit_witness:
  "git env0 ''diff HEAD~1 HEAD'' = Some ''+x''
   \<and> getDiff env0 = Some ''+x''
   \<and> handlePushEvent env0 ok_second ''123e4567-e89b-42d3-a456-426614174000''
        ''2026-03-01T10:00:00.000Z'' ''proj-1'' ''main'' ''feature/auth'' = [event_captured, event_captured]
   \<and> diff payload_captured = Some ''+x''
   \<and> validateEvent js0 (to_json event_captured) = Inr []
   \<and> getDiff env_empty_diff = None
   \<and> handlePushEvent env_empty_diff ok_second ''123e4567-e89b-42d3-a456-426614174000''
        ''2026-03-01T10:00:00.000Z'' ''proj-1'' ''main'' ''feature/auth'' = []"
proof -
  let ?h = "\<lambda>env. handlePushEvent env ok_second ''123e4567-e89b-42d3-a456-426614174000''
        ''2026-03-01T10:00:00.000Z'' ''proj-1'' ''main'' ''feature/auth''"
  note t0 = getDiff_limit[where env = env0 and args = "''diff HEAD~1 HEAD''" and js = js0
        and ok = ok_second and uuid = "''123e4567-e89b-42d3-a456-426614174000''"
        and clock = "''2026-03-01T10:00:00.000Z''" and pid = "''proj-1''"
        and defaultBranch = "''main''" and br = "''feature/auth''"]
  note t1 = getDiff_limit[where env = env_empty_diff and args = "''diff HEAD~1 HEAD''"
        and js = js0 and ok = ok_second and uuid = "''123e4567-e89b-42d3-a456-426614174000''"
        and clock = "''2026-03-01T10:00:00.000Z''" and pid = "''proj-1''"
        and defaultBranch = "''main''" and br = "''feature/auth''"]
  have d0: "getDiff env0 = Some ''+x''" using t0 git_env0_diff by simp
  have d1: "getDiff env_empty_diff = None" using t1 git_env_empty_diff by simp
  have h1: "?h env_empty_diff = []" using t1 d1 by blast
  have c: "capture env0 ''123e4567-e89b-42d3-a456-426614174000''
        ''2026-03-01T10:00:00.000Z'' ''proj-1'' ''main'' ''feature/auth'' = Some event_captured"
    by (simp add: capture_def d0 getLastCommitInfo_env0 falsy_def event_captured_def payload_captured_def)
  have h0: "?h env0 = [event_captured, event_captured]"
    by (simp add: handlePushEvent_def c transmitEvent_def retryDelays_def ok_second_def)
  have "event_captured \<in> set (?h env0)" by (simp add: h0)
  with t0 obtain errs where "validateEvent js0 (to_json event_captured) = Inr errs" by blast
  have j: "to_json event_captured =
      push_of (JStr uuid0) (JStr time0) (JStr ''feature/auth'')
        (JObj [(''commitHash'', JStr ''0123456789abcdef0123456789abcdef01234567''),
               (''message'', JStr ''add login''), (''diff'', JStr ''+x''),
               (''author'', JStr ''Alice''), (''parentBranch'', JStr ''main'')])"
    by (simp add: to_json_def payload_json_def member_str_def event_captured_def payload_captured_def
        push_of_def uuid0_def time0_def)
  have lower: "COMMIT_HASH ''0123456789abcdef0123456789abcdef01234567''"
    by (simp add: COMMIT_HASH_def is_hex_def eval_nat_numeral)
  have v: "validateEvent js0 (to_json event_captured) = Inr []"
    unfolding j
    by (simp add: validateEvent_def header_errors_push_of[OF time0_ok uuid0_not_Nil(2)]
        branch_errors_feature property_push_of thenE_simps)
       (simp add: push_errors_def commitHash_errors_def property_def truthy_def nullish_def
        isArray_def test_def ToStringV_def thenE_simps lower)
  have p: "diff payload_captured = Some ''+x''" by (simp add: payload_captured_def)
  show ?thesis using git_env0_diff d0 h0 p v d1 h1 by blast
qed

section \<open>The extraction request\<close>

text \<open>
  Claim C2 on the code. Whatever the template and the event, \<open>callBedrock\<close> asks the model
  to sample at temperature 1 with top-p 0.5; the design documents require temperature 0
  for determinism.
\<close>

theorem callBedrock_temperature:
  "temperature (inference (callBedrock_input template ev)) = 1
   \<and> topP (inference (callBedrock_input template ev)) = 1 / 2
   \<and> temperature (inference (callBedrock_input template testEvent)) \<noteq> 0"
  by (simp add: callBedrock_input_def)

section \<open>Properties of the linking core\<close>

subsection \<open>The matching window\<close>

lemma positions_iff: "i \<in> set (positions P s) \<longleftrightarrow> i < length s \<and> P (s ! i)"
  by (auto simp: positions_def)

lemma closest_in: "closest d xs = Some i \<Longrightarrow> i \<in> set xs"
  by (induction xs arbitrary: i) (auto split: option.splits if_splits)

lemma closest_None: "closest d xs = None \<longleftrightarrow> xs = []"
  by (cases xs) (auto split: option.splits)

lemma positions_Nil: "positions P s = [] \<longleftrightarrow> (\<forall>r \<in> set s. \<not> P r)"
proof
  assume e: "positions P s = []"
  show "\<forall>r \<in> set s. \<not> P r"
  proof
    fix r assume "r \<in> set s"
    then obtain i where "i < length s" and "s ! i = r" by (auto simp: in_set_conv_nth)
    with e show "\<not> P r" using positions_iff[of i P s] by auto
  qed
next
  assume "\<forall>r \<in> set s. \<not> P r"
  then show "positions P s = []" by (simp add: positions_def filter_empty_conv)
qed

lemma within_window_iff:
  "within_window recorded t \<longleftrightarrow> (\<exists>u. recorded = Some u \<and> \<bar>u - t\<bar> \<le> 1800000)"
  by (auto simp: within_window_def window_def split: option.splits)

lemma handleReasoning_changes:
  assumes "handleReasoning sub s = (res, s')" and "i < length s" and "s' ! i \<noteq> s ! i"
  shows "matches_reasoning sub (s ! i)"
proof (cases "positions (matches_reasoning sub) s")
  case Nil
  with assms(1) have "s' = s @ [new_uncommitted sub (length s)]"
    by (simp add: handleReasoning_def)
  with assms(2,3) show ?thesis by (simp add: nth_append)
next
  case (Cons j js)
  then have j: "j \<in> set (positions (matches_reasoning sub) s)" by simp
  from Cons assms(1) have "s' = s[j := (s ! j)\<lparr>agentReasoning := Some (su_reasoning sub),
                          loggedAt := Some (su_timestamp sub)\<rparr>]"
    by (simp add: handleReasoning_def)
  with assms(2,3) have "i = j" by (cases "i = j") simp_all
  with j show ?thesis by (simp add: positions_iff)
qed

lemma handleReasoning_no_match:
  assumes "\<forall>r \<in> set s. \<not> matches_reasoning sub r"
  shows "handleReasoning sub s = (Uncommitted, s @ [new_uncommitted sub (length s)])"
  using assms positions_Nil[of "matches_reasoning sub" s] by (simp add: handleReasoning_def)

lemma handlePush_changes:
  assumes "handlePush ps tnow ev s = (pres, s')" and "i < length s" and "s' ! i \<noteq> s ! i"
  shows "matches_push ev (s ! i)"
proof -
  let ?c = "closest (\<lambda>i. distance (loggedAt (s ! i)) (pu_timestamp ev)) (positions (matches_push ev) s)"
  from assms have nf: "find (\<lambda>r. sourceEventId r = Some (pu_eventId ev)) s = None"
    by (auto simp: handlePush_def split: option.splits)
  show ?thesis
  proof (cases ?c)
    case None
    with assms(1) nf have "s' = s \<or> (\<exists>r. s' = s @ [r])"
      by (auto simp: handlePush_def split: option.splits)
    with assms(2,3) show ?thesis by (auto simp: nth_append)
  next
    case (Some j)
    then have j: "j \<in> set (positions (matches_push ev) s)" by (rule closest_in)
    from Some assms(1) nf have "s' = s \<or> (\<exists>d. s' = s[j := bind_push ps ev d (s ! j)])"
      by (auto simp: handlePush_def split: option.splits)
    with assms(2,3) have "i = j" by (cases "i = j") auto
    with j show ?thesis by (simp add: positions_iff)
  qed
qed

lemma handlePush_no_match:
  assumes "find (\<lambda>r. sourceEventId r = Some (pu_eventId ev)) s = None"
    and "\<forall>r \<in> set s. \<not> matches_push ev r"
  shows "handlePush ps tnow ev s =
     (case validate_extraction (port_extract ps ev False) tnow of
        None \<Rightarrow> (PushFailed, s)
      | Some d \<Rightarrow> (PushDone (new_complete ps ev d (length s)), s @ [new_complete ps ev d (length s)]))"
  using assms positions_Nil[of "matches_push ev" s] by (simp add: handlePush_def)

text \<open>
  Claim C5, on the model of the specification. A reasoning submission changes an
  existing record only if that record has the same (projectId, branch, author), is
  complete without reasoning, and its push timestamp differs from the submission time
  by at most 30 minutes (1,800,000 ms) in either direction; when no such record lies
  within the window, a new \<^verbatim>\<open>uncommitted\<close> record is appended and every existing record
  stays as it was. A push changes an existing record only if that record has the same
  key, is \<^verbatim>\<open>uncommitted\<close>, and its reasoning was submitted at most 30 minutes before or
  after the push; when no such record lies within the window, the push leaves every
  existing record as it was and, when its extraction validates, appends a new
  \<^verbatim>\<open>complete\<close> record.
\<close>

theorem window_boundary:
  assumes r: "handleReasoning sub s = (res, s1)" and p: "handlePush ps tnow ev s = (pres, s2)"
  shows "(\<forall>i < length s. s1 ! i \<noteq> s ! i \<longrightarrow>
            same_key (su_projectId sub) (su_branch sub) (su_author sub) (s ! i)
          \<and> (\<exists>t. pushTimestamp (s ! i) = Some t \<and> \<bar>t - su_timestamp sub\<bar> \<le> 1800000))
    \<and> ((\<forall>c \<in> set s. same_key (su_projectId sub) (su_branch sub) (su_author sub) c
            \<and> status c = Complete \<and> agentReasoning c = None \<longrightarrow>
            (\<forall>t. pushTimestamp c = Some t \<longrightarrow> \<bar>t - su_timestamp sub\<bar> > 1800000)) \<longrightarrow>
         res = Uncommitted \<and> s1 = s @ [new_uncommitted sub (length s)])
    \<and> (\<forall>i < length s. s2 ! i \<noteq> s ! i \<longrightarrow>
            same_key (pu_projectId ev) (pu_branch ev) (pu_author ev) (s ! i)
          \<and> status (s ! i) = Uncommitted
          \<and> (\<exists>t. loggedAt (s ! i) = Some t \<and> \<bar>t - pu_timestamp ev\<bar> \<le> 1800000))
    \<and> ((\<forall>c \<in> set s. sourceEventId c \<noteq> Some (pu_eventId ev))
        \<and> (\<forall>c \<in> set s. same_key (pu_projectId ev) (pu_branch ev) (pu_author ev) c
            \<and> status c = Uncommitted \<longrightarrow>
            (\<forall>t. loggedAt c = Some t \<longrightarrow> \<bar>t - pu_timestamp ev\<bar> > 1800000)) \<longrightarrow>
         (pres = PushFailed \<and> s2 = s)
         \<or> (\<exists>d. pres = PushDone (new_complete ps ev d (length s))
                \<and> s2 = s @ [new_complete ps ev d (length s)]))"
proof (intro conjI allI impI)
  fix i
  assume "i < length s" and "s1 ! i \<noteq> s ! i"
  from handleReasoning_changes[OF r this]
  show "same_key (su_projectId sub) (su_branch sub) (su_author sub) (s ! i)"
    and "\<exists>t. pushTimestamp (s ! i) = Some t \<and> \<bar>t - su_timestamp sub\<bar> \<le> 1800000"
    by (simp_all add: matches_reasoning_def within_window_iff)
next
  assume a: "\<forall>c \<in> set s. same_key (su_projectId sub) (su_branch sub) (su_author sub) c
            \<and> status c = Complete \<and> agentReasoning c = None \<longrightarrow>
            (\<forall>t. pushTimestamp c = Some t \<longrightarrow> \<bar>t - su_timestamp sub\<bar> > 1800000)"
  have "\<forall>c \<in> set s. \<not> matches_reasoning sub c"
    using a by (fastforce simp: matches_reasoning_def within_window_iff)
  from handleReasoning_no_match[OF this] r
  show "res = Uncommitted" and "s1 = s @ [new_uncommitted sub (length s)]" by simp_all
next
  fix i
  assume "i < length s" and "s2 ! i \<noteq> s ! i"
  from handlePush_changes[OF p this]
  show "same_key (pu_projectId ev) (pu_branch ev) (pu_author ev) (s ! i)"
    and "status (s ! i) = Uncommitted"
    and "\<exists>t. loggedAt (s ! i) = Some t \<and> \<bar>t - pu_timestamp ev\<bar> \<le> 1800000"
    by (simp_all add: matches_push_def within_window_iff)
next
  assume a: "(\<forall>c \<in> set s. sourceEventId c \<noteq> Some (pu_eventId ev))
        \<and> (\<forall>c \<in> set s. same_key (pu_projectId ev) (pu_branch ev) (pu_author ev) c
            \<and> status c = Uncommitted \<longrightarrow>
            (\<forall>t. loggedAt c = Some t \<longrightarrow> \<bar>t - pu_timestamp ev\<bar> > 1800000))"
  then have nf: "find (\<lambda>r. sourceEventId r = Some (pu_eventId ev)) s = None"
    by (simp add: find_None_iff)
  have "\<forall>c \<in> set s. \<not> matches_push ev c"
    using a by (fastforce simp: matches_push_def within_window_iff)
  from handlePush_no_match[OF nf this, of ps tnow] p
  show "(pres = PushFailed \<and> s2 = s)
         \<or> (\<exists>d. pres = PushDone (new_complete ps ev d (length s))
                \<and> s2 = s @ [new_complete ps ev d (length s)])"
    by (auto split: option.splits)
qed


lemma key_facts:
  "same_key (su_projectId (alice_submission m)) (su_branch (alice_submission m))
     (su_author (alice_submission m)) record_a"
  "\<not> same_key (su_projectId (alice_submission m)) (su_branch (alice_submission m))
     (su_author (alice_submission m)) record_c"
  "\<not> same_key (pu_projectId bob_push) (pu_branch bob_push) (pu_author bob_push) record_a"
  "same_key (pu_projectId bob_push) (pu_branch bob_push) (pu_author bob_push) record_c"
  by (simp_all add: same_key_def alice_submission_def bob_push_def record_a_def record_c_def
      new_uncommitted_def)

lemma positions_store_ac:
  "positions P store_ac = (if P record_a then [0] else []) @ (if P record_c then [1] else [])"
  by (simp add: positions_def store_ac_def upt_rec)

text \<open>The theorem of C5 at scenarios A to D: reasoning 10 minutes after the push is
  attached to its record, reasoning 31 minutes after it becomes a record of its own, and
  a push 40 minutes after a reasoning becomes a record of its own.\<close>

theorem window_boundary_witness:
  "handleReasoning (alice_submission 31) store_ac =
     (Uncommitted, store_ac @ [new_uncommitted (alice_submission 31) (length store_ac)])
   \<and> handleReasoning (alice_submission 10) store_ac =
     (Complete, [record_a\<lparr>agentReasoning := Some jwt_reasoning, loggedAt := Some 600000\<rparr>, record_c])
   \<and> \<bar>0 - su_timestamp (alice_submission 10)\<bar> \<le> (1800000 :: int)
   \<and> snd (handlePush ports0 2400005 bob_push store_ac) ! 0 = record_a
   \<and> snd (handlePush ports0 2400005 bob_push store_ac) ! 1 = record_c
   \<and> length (snd (handlePush ports0 2400005 bob_push store_ac)) = 3
   \<and> status (last (snd (handlePush ports0 2400005 bob_push store_ac))) = Complete"
proof -
  let ?r = "handleReasoning (alice_submission 31) store_ac"
  let ?p = "handlePush ports0 2400005 bob_push store_ac"
  have far: "\<forall>c \<in> set store_ac.
      same_key (su_projectId (alice_submission 31)) (su_branch (alice_submission 31))
        (su_author (alice_submission 31)) c \<and> status c = Complete \<and> agentReasoning c = None \<longrightarrow>
      (\<forall>t. pushTimestamp c = Some t \<longrightarrow> \<bar>t - su_timestamp (alice_submission 31)\<bar> > 1800000)"
    using key_facts(2)[of 31]
    by (simp add: store_ac_def) (simp add: record_a_def alice_submission_def)
  have fresh: "\<forall>c \<in> set store_ac. sourceEventId c \<noteq> Some (pu_eventId bob_push)"
    by (simp add: store_ac_def record_a_def record_c_def new_uncommitted_def bob_push_def)
  have farp: "\<forall>c \<in> set store_ac.
      same_key (pu_projectId bob_push) (pu_branch bob_push) (pu_author bob_push) c
        \<and> status c = Uncommitted \<longrightarrow>
      (\<forall>t. loggedAt c = Some t \<longrightarrow> \<bar>t - pu_timestamp bob_push\<bar> > 1800000)"
    using key_facts(3)
    by (simp add: store_ac_def) (simp add: record_c_def new_uncommitted_def bob_push_def)
  note t = window_boundary[of "alice_submission 31" store_ac "fst ?r" "snd ?r"
      ports0 2400005 bob_push "fst ?p" "snd ?p"]
  have 1: "?r = (Uncommitted, store_ac @ [new_uncommitted (alice_submission 31) (length store_ac)])"
    using t far by (simp add: prod_eq_iff)
  have v: "validate_extraction (port_extract ports0 bob_push False) 2400005 \<noteq> None"
    by (simp add: validate_extraction_def ports0_def parse_stage_def)
  have nm: "\<forall>r \<in> set store_ac. \<not> matches_push bob_push r"
    using farp by (fastforce simp: matches_push_def within_window_iff)
  have nf: "find (\<lambda>r. sourceEventId r = Some (pu_eventId bob_push)) store_ac = None"
    using fresh by (simp add: find_None_iff)
  have "fst ?p \<noteq> PushFailed"
    using v unfolding handlePush_no_match[OF nf nm] by (auto split: option.splits)
  with t fresh farp obtain d where
    2: "snd ?p = store_ac @ [new_complete ports0 bob_push d (length store_ac)]"
    by auto
  have 3: "handleReasoning (alice_submission 10) store_ac =
     (Complete, [record_a\<lparr>agentReasoning := Some jwt_reasoning, loggedAt := Some 600000\<rparr>, record_c])"
  proof -
    have a: "matches_reasoning (alice_submission 10) record_a"
      using key_facts(1)[of 10]
      by (simp add: matches_reasoning_def within_window_iff)
         (simp add: record_a_def alice_submission_def)
    have c: "\<not> matches_reasoning (alice_submission 10) record_c"
      using key_facts(2)[of 10] by (simp add: matches_reasoning_def)
    show ?thesis
      unfolding handleReasoning_def positions_store_ac
      using a c by (simp add: store_ac_def alice_submission_def)
  qed
  have 4: "\<bar>0 - su_timestamp (alice_submission 10)\<bar> \<le> (1800000 :: int)"
    by (simp add: alice_submission_def)
  show ?thesis
    using 1 3 4 unfolding 2 by (simp add: store_ac_def new_complete_def)
qed

subsection \<open>Branch resolution and search\<close>

lemma mset_insert_by: "mset (insert_by before x xs) = add_mset x (mset xs)"
  by (induction xs) auto

lemma mset_sort_by: "mset (sort_by before xs) = mset xs"
  by (induction xs) (simp_all add: sort_by_def mset_insert_by)

lemma set_sort_by: "set (sort_by before xs) = set xs"
  using mset_sort_by[of before xs] by (metis set_mset_mset)

lemma set_insert_by: "set (insert_by before x xs) = insert x (set xs)"
  using mset_insert_by[of before x xs] by (metis set_mset_mset set_mset_add_mset_insert)

lemma sorted_insert_by:
  assumes total: "\<And>x y. before x y \<or> before y x"
    and trans: "\<And>x y z. before x y \<Longrightarrow> before y z \<Longrightarrow> before x z"
  shows "sorted_wrt before xs \<Longrightarrow> sorted_wrt before (insert_by before x xs)"
proof (induction xs)
  case Nil
  then show ?case by simp
next
  case (Cons y ys)
  show ?case
  proof (cases "before x y")
    case True
    with Cons.prems trans show ?thesis by auto
  next
    case False
    with total have "before y x" by blast
    with Cons False show ?thesis by (auto simp: set_insert_by)
  qed
qed

lemma sorted_sort_by:
  assumes total: "\<And>x y. before x y \<or> before y x"
    and trans: "\<And>x y z. before x y \<Longrightarrow> before y z \<Longrightarrow> before x z"
  shows "sorted_wrt before (sort_by before xs)"
proof (induction xs)
  case Nil
  then show ?case by (simp add: sort_by_def)
next
  case (Cons x xs)
  from sorted_insert_by[of before "sort_by before xs" x, OF total trans Cons]
  have "sorted_wrt before (insert_by before x (sort_by before xs))" .
  then show ?case by (simp add: sort_by_def)
qed

lemma ranks_before_total: "ranks_before x y \<or> ranks_before y x"
  by (auto simp: ranks_before_def)

lemma ranks_before_trans: "ranks_before x y \<Longrightarrow> ranks_before y z \<Longrightarrow> ranks_before x z"
  by (auto simp: ranks_before_def)

lemma as_candidate_Some:
  "as_candidate x = Some c \<Longrightarrow>
     found c = x \<and> embedding (entry x) = Some (vector c) \<and> derived (entry x) = Some (extracted c)"
  by (auto simp: as_candidate_def split: option.splits)

lemma candidates_Nil:
  "candidates pid b s = [] \<longleftrightarrow>
     (\<forall>x \<in> set (resolve pid b None s). embedding (entry x) = None \<or> derived (entry x) = None)"
  by (auto simp: candidates_def List.map_filter_def filter_empty_conv as_candidate_def
      split: option.splits)

lemma candidates_mem:
  "c \<in> set (candidates pid b s) \<Longrightarrow>
     found c \<in> set (resolve pid b None s) \<and> embedding (entry (found c)) = Some (vector c)
     \<and> derived (entry (found c)) = Some (extracted c)"
  using as_candidate_Some by (fastforce simp: candidates_def List.map_filter_def)

text \<open>
  Claim C6, on the model of the specification. When the candidate set of a search is
  empty (no record visible to the queried branch has an embedding), the search makes no
  generation call, returns the explicit insufficient-information result with no answer
  text, and its groundedness flag is false. With a non-empty candidate set it makes
  exactly one generation call.
\<close>

theorem search_empty_candidates:
  "(candidates pid b s = []) =
     (\<forall>x \<in> set (resolve pid b None s). embedding (entry x) = None \<or> derived (entry x) = None)
   \<and> (candidates pid b s = [] \<longrightarrow>
        kind (search ps pid b query limit s) = InsufficientInformation
      \<and> generation_calls (search ps pid b query limit s) = []
      \<and> \<not> grounded (search ps pid b query limit s)
      \<and> answer_text (search ps pid b query limit s) = None
      \<and> results (search ps pid b query limit s) = [])
   \<and> (candidates pid b s \<noteq> [] \<longrightarrow>
        kind (search ps pid b query limit s) = Answered
      \<and> length (generation_calls (search ps pid b query limit s)) = 1)"
  using candidates_Nil[of pid b s] by (simp add: search_def Let_def)

lemma native_merged:
  assumes "cr_branch r = src" and "mergedInto r = None"
  shows "native_to tgt (r\<lparr>mergedInto := Some tgt, mergedAt := Some t\<rparr>)"
    and "native_to src (r\<lparr>mergedInto := Some tgt, mergedAt := Some t\<rparr>)"
  using assms by (simp_all add: native_to_def)

lemma onBranchMerged_mem:
  assumes "r \<in> set s" and "cr_branch r = src" and "mergedInto r = None"
  shows "r\<lparr>mergedInto := Some tgt, mergedAt := Some t\<rparr> \<in> set (onBranchMerged src tgt t s)"
  using assms by (force simp: onBranchMerged_def)

lemma resolve_native:
  assumes "r \<in> set s" and "cr_projectId r = pid" and "native_to b r" and "status r = Complete"
  shows "annotate b r \<in> set (resolve pid b None s)"
  using assms by (simp add: resolve_def most_recent_def set_sort_by branch_records_def)

text \<open>
  Claim C7, on the model of the specification. \<open>onBranchMerged\<close> keeps the number and the
  order of the records; it sets \<open>mergedInto\<close> and \<open>mergedAt\<close> on exactly the records whose
  branch is the source branch and whose \<open>mergedInto\<close> is unset, and every record agrees
  with its old self in every other field, the branch included. Afterwards each such
  complete record of the project is among the records \<open>resolve\<close> lists as native to the
  target branch, and is still listed by \<open>resolve\<close> for the source branch (the limit being
  unbounded).
\<close>

theorem onBranchMerged_frame:
  "length (onBranchMerged src tgt t s) = length s
   \<and> (\<forall>i < length s.
         onBranchMerged src tgt t s ! i =
           (if cr_branch (s ! i) = src \<and> mergedInto (s ! i) = None
            then (s ! i)\<lparr>mergedInto := Some tgt, mergedAt := Some t\<rparr> else s ! i)
       \<and> cr_branch (onBranchMerged src tgt t s ! i) = cr_branch (s ! i)
       \<and> (onBranchMerged src tgt t s ! i)
            \<lparr>mergedInto := mergedInto (s ! i), mergedAt := mergedAt (s ! i)\<rparr> = s ! i)
   \<and> (\<forall>r \<in> set s. cr_projectId r = pid \<and> cr_branch r = src \<and> mergedInto r = None
          \<and> status r = Complete \<longrightarrow>
         r\<lparr>mergedInto := Some tgt, mergedAt := Some t\<rparr>
           \<in> set (most_recent None (branch_records pid tgt (onBranchMerged src tgt t s)))
       \<and> annotate tgt (r\<lparr>mergedInto := Some tgt, mergedAt := Some t\<rparr>)
           \<in> set (resolve pid tgt None (onBranchMerged src tgt t s))
       \<and> annotate src (r\<lparr>mergedInto := Some tgt, mergedAt := Some t\<rparr>)
           \<in> set (resolve pid src None (onBranchMerged src tgt t s)))"
proof (intro conjI allI impI ballI)
  show "length (onBranchMerged src tgt t s) = length s"
    by (simp add: onBranchMerged_def)
next
  fix i assume "i < length s"
  then show "onBranchMerged src tgt t s ! i =
           (if cr_branch (s ! i) = src \<and> mergedInto (s ! i) = None
            then (s ! i)\<lparr>mergedInto := Some tgt, mergedAt := Some t\<rparr> else s ! i)"
    and "cr_branch (onBranchMerged src tgt t s ! i) = cr_branch (s ! i)"
    and "(onBranchMerged src tgt t s ! i)
            \<lparr>mergedInto := mergedInto (s ! i), mergedAt := mergedAt (s ! i)\<rparr> = s ! i"
    by (simp_all add: onBranchMerged_def)
next
  fix r
  assume r: "r \<in> set s"
    and c: "cr_projectId r = pid \<and> cr_branch r = src \<and> mergedInto r = None \<and> status r = Complete"
  let ?r = "r\<lparr>mergedInto := Some tgt, mergedAt := Some t\<rparr>"
  have m: "?r \<in> set (onBranchMerged src tgt t s)" using onBranchMerged_mem r c by blast
  have f: "cr_projectId ?r = pid" "status ?r = Complete" using c by simp_all
  show "?r \<in> set (most_recent None (branch_records pid tgt (onBranchMerged src tgt t s)))"
    using m f native_merged(1)[where r = r and src = src and tgt = tgt and t = t] c
    by (simp add: most_recent_def set_sort_by branch_records_def)
  show "annotate tgt ?r \<in> set (resolve pid tgt None (onBranchMerged src tgt t s))"
    using resolve_native[where b = tgt, OF m f(1) _ f(2)] native_merged(1)[where r = r and src = src and tgt = tgt and t = t] c by simp
  show "annotate src ?r \<in> set (resolve pid src None (onBranchMerged src tgt t s))"
    using resolve_native[where b = src, OF m f(1) _ f(2)] native_merged(2)[where r = r and src = src and tgt = tgt and t = t] c by simp
qed

text \<open>
  Claim C8, on the model of the specification. The results of a search are the first
  \<open>limit\<close> elements of the scored candidates in ranking order. Every candidate is scored
  once, by the cosine similarity \<open>dot(a,b) / (|a| * |b|)\<close> of its embedding and the query
  embedding, taken as 0 when a magnitude is 0. In the ranking a later element never has
  a higher score than an earlier one; on equal scores it never has a higher confidence;
  on equal scores and confidences it is never more recent.
\<close>

theorem search_ranking:
  fixes ps pid b query s
  defines "q \<equiv> port_embed ps query"
  defines "scored \<equiv> map (\<lambda>c. \<lparr>score = cosine (vector c) q, hit = c\<rparr>) (candidates pid b s)"
  defines "ranking \<equiv> sort_by ranks_before scored"
  shows "results (search ps pid b query limit s) = take limit ranking
   \<and> mset ranking = mset scored
   \<and> (\<forall>x \<in> set ranking.
         embedding (entry (found (hit x))) = Some (vector (hit x))
       \<and> score x =
           (if magnitude (vector (hit x)) = 0 \<or> magnitude q = 0 then 0
            else dot (vector (hit x)) q / (magnitude (vector (hit x)) * magnitude q)))
   \<and> (\<forall>i j. i < j \<and> j < length ranking \<longrightarrow>
         score (ranking ! j) \<le> score (ranking ! i)
       \<and> (score (ranking ! j) = score (ranking ! i) \<longrightarrow>
            confidence (extracted (hit (ranking ! j))) \<le> confidence (extracted (hit (ranking ! i)))
          \<and> (confidence (extracted (hit (ranking ! j))) = confidence (extracted (hit (ranking ! i))) \<longrightarrow>
               extractedAt (extracted (hit (ranking ! j))) \<le> extractedAt (extracted (hit (ranking ! i))))))"
proof (intro conjI)
  have "candidates pid b s = [] \<Longrightarrow> ranking = []"
    by (simp add: ranking_def scored_def sort_by_def)
  then show "results (search ps pid b query limit s) = take limit ranking"
    by (auto simp: search_def Let_def ranking_def scored_def q_def)
next
  show "mset ranking = mset scored" by (simp add: ranking_def mset_sort_by)
next
  show "\<forall>x \<in> set ranking.
         embedding (entry (found (hit x))) = Some (vector (hit x))
       \<and> score x =
           (if magnitude (vector (hit x)) = 0 \<or> magnitude q = 0 then 0
            else dot (vector (hit x)) q / (magnitude (vector (hit x)) * magnitude q))"
  proof
    fix x assume "x \<in> set ranking"
    then have "x \<in> set scored" by (simp add: ranking_def set_sort_by)
    then obtain c where c: "c \<in> set (candidates pid b s)" and x: "x = \<lparr>score = cosine (vector c) q, hit = c\<rparr>"
      by (auto simp: scored_def)
    from candidates_mem[OF c] x
    show "embedding (entry (found (hit x))) = Some (vector (hit x))
       \<and> score x =
           (if magnitude (vector (hit x)) = 0 \<or> magnitude q = 0 then 0
            else dot (vector (hit x)) q / (magnitude (vector (hit x)) * magnitude q))"
      by (simp add: cosine_def)
  qed
next
  have sorted: "sorted_wrt ranks_before ranking"
    unfolding ranking_def
    by (rule sorted_sort_by[OF ranks_before_total ranks_before_trans])
  show "\<forall>i j. i < j \<and> j < length ranking \<longrightarrow>
         score (ranking ! j) \<le> score (ranking ! i)
       \<and> (score (ranking ! j) = score (ranking ! i) \<longrightarrow>
            confidence (extracted (hit (ranking ! j))) \<le> confidence (extracted (hit (ranking ! i)))
          \<and> (confidence (extracted (hit (ranking ! j))) = confidence (extracted (hit (ranking ! i))) \<longrightarrow>
               extractedAt (extracted (hit (ranking ! j))) \<le> extractedAt (extracted (hit (ranking ! i)))))"
  proof (intro allI impI)
    fix i j assume "i < j \<and> j < length ranking"
    then have "ranks_before (ranking ! i) (ranking ! j)"
      using sorted by (simp add: sorted_wrt_iff_nth_less)
    then show "score (ranking ! j) \<le> score (ranking ! i)
       \<and> (score (ranking ! j) = score (ranking ! i) \<longrightarrow>
            confidence (extracted (hit (ranking ! j))) \<le> confidence (extracted (hit (ranking ! i)))
          \<and> (confidence (extracted (hit (ranking ! j))) = confidence (extracted (hit (ranking ! i))) \<longrightarrow>
               extractedAt (extracted (hit (ranking ! j))) \<le> extractedAt (extracted (hit (ranking ! i)))))"
      by (auto simp: ranks_before_def)
  qed
qed

subsection \<open>The scenarios\<close>

lemma resolve_record_c: "resolve ''proj-1'' ''release/v2'' None [record_c] = []"
  by (simp add: resolve_def most_recent_def branch_records_def parent_of_def List.map_filter_def
      sort_by_def record_c_def new_uncommitted_def)

lemma resolve_store_ab:
  "resolve ''proj-1'' ''feature/auth'' None store_ab =
     [annotate ''feature/auth'' record_b, annotate ''feature/auth'' record_a]"
proof -
  have n: "native_to ''feature/auth'' record_a" "native_to ''feature/auth'' record_b"
    "\<not> native_to ''main'' record_a" "\<not> native_to ''main'' record_b"
    by (simp_all add: native_to_def record_a_def record_b_def)
  have f: "cr_projectId record_a = ''proj-1''" "cr_projectId record_b = ''proj-1''"
    "status record_a = Complete" "status record_b = Complete"
    "cr_branch record_a = ''feature/auth''" "cr_branch record_b = ''feature/auth''"
    "cr_parentBranch record_a = Some ''main''"
    by (simp_all add: record_a_def record_b_def)
  have m: "\<not> more_recent record_a record_b"
    by (simp add: more_recent_def record_a_def record_b_def alice_extraction_def)
  have b: "branch_records ''proj-1'' ''feature/auth'' store_ab = [record_a, record_b]"
    "branch_records ''proj-1'' ''main'' store_ab = []"
    by (simp_all add: branch_records_def store_ab_def n f)
  have p: "parent_of ''proj-1'' ''feature/auth'' store_ab = Some ''main''"
    by (simp add: parent_of_def store_ab_def f List.map_filter_def)
  show ?thesis
    by (simp add: resolve_def b p most_recent_def sort_by_def m)
qed

lemma candidates_store_ab:
  "candidates ''proj-1'' ''feature/auth'' store_ab = [candidate_b, candidate_a]"
  by (simp add: candidates_def resolve_store_ab List.map_filter_def as_candidate_def annotate_def
      candidate_a_def candidate_b_def record_a_def record_b_def)

lemma cosine_unit:
  "cosine [0, 1] [0, 1] = 1" "cosine [1, 0] [0, 1] = 0"
  by (simp_all add: cosine_def magnitude_def dot_def)

text \<open>The theorem of C6 at a store that holds an \<^verbatim>\<open>uncommitted\<close> record only, and at a
  store with two complete records.\<close>

theorem search_empty_candidates_witness:
  "candidates ''proj-1'' ''release/v2'' [record_c] = []
   \<and> kind (search ports0 ''proj-1'' ''release/v2'' ''why JWT?'' 5 [record_c]) = InsufficientInformation
   \<and> generation_calls (search ports0 ''proj-1'' ''release/v2'' ''why JWT?'' 5 [record_c]) = []
   \<and> \<not> grounded (search ports0 ''proj-1'' ''release/v2'' ''why JWT?'' 5 [record_c])
   \<and> candidates ''proj-1'' ''feature/auth'' store_ab \<noteq> []
   \<and> kind (search ports0 ''proj-1'' ''feature/auth'' ''why JWT?'' 5 store_ab) = Answered
   \<and> length (generation_calls (search ports0 ''proj-1'' ''feature/auth'' ''why JWT?'' 5 store_ab)) = 1"
proof -
  have e: "candidates ''proj-1'' ''release/v2'' [record_c] = []"
    by (simp add: candidates_def resolve_record_c List.map_filter_def)
  have n: "candidates ''proj-1'' ''feature/auth'' store_ab \<noteq> []"
    by (simp add: candidates_store_ab)
  show ?thesis
    using search_empty_candidates[of "''proj-1''" "''release/v2''" "[record_c]" ports0 "''why JWT?''" 5]
      search_empty_candidates[of "''proj-1''" "''feature/auth''" store_ab ports0 "''why JWT?''" 5]
      e n
    by simp
qed

text \<open>The theorem of C7 at the merge of \<^verbatim>\<open>feature/auth\<close> into \<^verbatim>\<open>main\<close>.\<close>

theorem onBranchMerged_frame_witness:
  "onBranchMerged ''feature/auth'' ''main'' 99 store_ac =
     [record_a\<lparr>mergedInto := Some ''main'', mergedAt := Some 99\<rparr>, record_c]
   \<and> cr_branch (onBranchMerged ''feature/auth'' ''main'' 99 store_ac ! 0) = ''feature/auth''
   \<and> annotate ''main'' (record_a\<lparr>mergedInto := Some ''main'', mergedAt := Some 99\<rparr>)
       \<in> set (resolve ''proj-1'' ''main'' None (onBranchMerged ''feature/auth'' ''main'' 99 store_ac))
   \<and> annotate ''feature/auth'' (record_a\<lparr>mergedInto := Some ''main'', mergedAt := Some 99\<rparr>)
       \<in> set (resolve ''proj-1'' ''feature/auth'' None (onBranchMerged ''feature/auth'' ''main'' 99 store_ac))"
proof -
  note t = onBranchMerged_frame[of "''feature/auth''" "''main''" 99 store_ac "''proj-1''"]
  have a: "record_a \<in> set store_ac" "cr_projectId record_a = ''proj-1''"
    "cr_branch record_a = ''feature/auth''" "mergedInto record_a = None" "status record_a = Complete"
    "cr_branch record_c \<noteq> ''feature/auth''"
    by (simp_all add: store_ac_def record_a_def record_c_def new_uncommitted_def)
  have l: "length store_ac = 2" "store_ac ! 0 = record_a" "store_ac ! 1 = record_c"
    by (simp_all add: store_ac_def)
  from t have "length (onBranchMerged ''feature/auth'' ''main'' 99 store_ac) = 2"
    and "onBranchMerged ''feature/auth'' ''main'' 99 store_ac ! 0 =
          record_a\<lparr>mergedInto := Some ''main'', mergedAt := Some 99\<rparr>"
    and "onBranchMerged ''feature/auth'' ''main'' 99 store_ac ! 1 = record_c"
    using a l by auto
  then have 1: "onBranchMerged ''feature/auth'' ''main'' 99 store_ac =
     [record_a\<lparr>mergedInto := Some ''main'', mergedAt := Some 99\<rparr>, record_c]"
    by (auto simp: list_eq_iff_nth_eq less_Suc_eq numeral_2_eq_2)
  from t a have 2: "annotate ''main'' (record_a\<lparr>mergedInto := Some ''main'', mergedAt := Some 99\<rparr>)
       \<in> set (resolve ''proj-1'' ''main'' None (onBranchMerged ''feature/auth'' ''main'' 99 store_ac))"
    and 3: "annotate ''feature/auth'' (record_a\<lparr>mergedInto := Some ''main'', mergedAt := Some 99\<rparr>)
       \<in> set (resolve ''proj-1'' ''feature/auth'' None (onBranchMerged ''feature/auth'' ''main'' 99 store_ac))"
    by blast+
  show ?thesis using 2 3 a(3) unfolding 1 by simp
qed

text \<open>The theorem of C8 at two candidates with scores 1 and 0 and limit 1.\<close>

theorem search_ranking_witness:
  "results (search ports0 ''proj-1'' ''feature/auth'' ''why JWT?'' 1 store_ab) =
     [\<lparr>score = 1, hit = candidate_b\<rparr>]
   \<and> sort_by ranks_before
       (map (\<lambda>c. \<lparr>score = cosine (vector c) (port_embed ports0 ''why JWT?''), hit = c\<rparr>)
          (candidates ''proj-1'' ''feature/auth'' store_ab)) =
     [\<lparr>score = 1, hit = candidate_b\<rparr>, \<lparr>score = 0, hit = candidate_a\<rparr>]
   \<and> embedding (entry (found candidate_b)) = Some (vector candidate_b)"
proof -
  have q: "port_embed ports0 ''why JWT?'' = [0, 1]" by (simp add: ports0_def)
  have v: "vector candidate_a = [1, 0]" "vector candidate_b = [0, 1]"
    by (simp_all add: candidate_a_def candidate_b_def)
  have r: "\<not> ranks_before \<lparr>score = 0, hit = candidate_a\<rparr> \<lparr>score = 1, hit = candidate_b\<rparr>"
    "ranks_before \<lparr>score = 1, hit = candidate_b\<rparr> \<lparr>score = 0, hit = candidate_a\<rparr>"
    by (simp_all add: ranks_before_def)
  have rk: "sort_by ranks_before
       (map (\<lambda>c. \<lparr>score = cosine (vector c) (port_embed ports0 ''why JWT?''), hit = c\<rparr>)
          (candidates ''proj-1'' ''feature/auth'' store_ab)) =
     [\<lparr>score = 1, hit = candidate_b\<rparr>, \<lparr>score = 0, hit = candidate_a\<rparr>]"
    by (simp add: candidates_store_ab q v cosine_unit sort_by_def r)
  note t = search_ranking[of ports0 "''proj-1''" "''feature/auth''" "''why JWT?''" 1 store_ab]
  have 1: "results (search ports0 ''proj-1'' ''feature/auth'' ''why JWT?'' 1 store_ab) =
     [\<lparr>score = 1, hit = candidate_b\<rparr>]"
    using t unfolding rk by simp
  have 3: "embedding (entry (found candidate_b)) = Some (vector candidate_b)"
    using t unfolding rk by simp
  show ?thesis using 1 rk 3 by blast
qed

section \<open>Further properties of the sources\<close>

lemma lit_Some_iff: "lit a s = Some r \<longleftrightarrow> s = a # r"
  by (cases s) auto

lemma andThen_Some_iff: "andThen x f = Some r \<longleftrightarrow> (\<exists>m. x = Some m \<and> f m = Some r)"
  by (cases x) (auto simp: andThen_def)

lemma rep_split: "rep p n s = Some r \<longleftrightarrow> (\<exists>a. s = a @ r \<and> length a = n \<and> list_all p a)"
proof
  assume "rep p n s = Some r"
  then have "n \<le> length s \<and> list_all p (take n s) \<and> r = drop n s" by (simp add: rep_Some_iff)
  then have "s = take n s @ r \<and> length (take n s) = n \<and> list_all p (take n s)" by simp
  then show "\<exists>a. s = a @ r \<and> length a = n \<and> list_all p a" by blast
next
  assume "\<exists>a. s = a @ r \<and> length a = n \<and> list_all p a"
  then show "rep p n s = Some r" by (auto simp: rep_Some_iff)
qed

text \<open>The pattern \<^verbatim>\<open>UUID_V4\<close> accepts exactly the strings of the form 8-4-4-4-12 in
  hexadecimal digits whose third group starts with \<^verbatim>\<open>4\<close> and whose fourth group starts
  with one of \<^verbatim>\<open>8\<close>, \<^verbatim>\<open>9\<close>, \<^verbatim>\<open>a\<close>, \<^verbatim>\<open>b\<close> (in either case).\<close>

theorem UUID_V4_shape:
  "UUID_V4 s =
     (\<exists>a b c v d e. s = a @ ''-'' @ b @ ''-4'' @ c @ ''-'' @ [v] @ d @ ''-'' @ e
        \<and> length a = 8 \<and> length b = 4 \<and> length c = 3 \<and> length d = 3 \<and> length e = 12
        \<and> list_all is_hex (a @ b @ c @ d @ e) \<and> is_variant v)"
proof
  assume "UUID_V4 s"
  then obtain a b c v d e where "s = a @ CHR ''-'' # b @ CHR ''-'' # CHR ''4'' # c @ CHR ''-'' # v @ d @ CHR ''-'' # e"
    "length a = 8" "length b = 4" "length c = 3" "length v = 1" "length d = 3" "length e = 12"
    "list_all is_hex a" "list_all is_hex b" "list_all is_hex c" "list_all is_variant v" "list_all is_hex d" "list_all is_hex e"
    unfolding UUID_V4_def andThen_Some_iff lit_Some_iff rep_split
    by (elim exE conjE) auto
  moreover from \<open>length v = 1\<close> obtain x where "v = [x]" by (cases v) auto
  ultimately show "\<exists>a b c v d e. s = a @ ''-'' @ b @ ''-4'' @ c @ ''-'' @ [v] @ d @ ''-'' @ e
        \<and> length a = 8 \<and> length b = 4 \<and> length c = 3 \<and> length d = 3 \<and> length e = 12
        \<and> list_all is_hex (a @ b @ c @ d @ e) \<and> is_variant v"
    by (intro exI[of _ a] exI[of _ b] exI[of _ c] exI[of _ x] exI[of _ d] exI[of _ e]) simp
next
  assume "\<exists>a b c v d e. s = a @ ''-'' @ b @ ''-4'' @ c @ ''-'' @ [v] @ d @ ''-'' @ e
        \<and> length a = 8 \<and> length b = 4 \<and> length c = 3 \<and> length d = 3 \<and> length e = 12
        \<and> list_all is_hex (a @ b @ c @ d @ e) \<and> is_variant v"
  then obtain a b c v d e where s: "s = a @ ''-'' @ b @ ''-4'' @ c @ ''-'' @ [v] @ d @ ''-'' @ e"
    and l: "length a = 8" "length b = 4" "length c = 3" "length d = 3" "length e = 12"
    and h: "list_all is_hex a" "list_all is_hex b" "list_all is_hex c" "list_all is_hex d" "list_all is_hex e"
      "is_variant v"
    by auto
  have 1: "rep is_hex 8 s = Some (''-'' @ b @ ''-4'' @ c @ ''-'' @ [v] @ d @ ''-'' @ e)"
    unfolding rep_split s using l h by auto
  have 2: "rep is_hex 4 (b @ ''-4'' @ c @ ''-'' @ [v] @ d @ ''-'' @ e) = Some (''-4'' @ c @ ''-'' @ [v] @ d @ ''-'' @ e)"
    unfolding rep_split using l h by auto
  have 3: "rep is_hex 3 (c @ ''-'' @ [v] @ d @ ''-'' @ e) = Some (''-'' @ [v] @ d @ ''-'' @ e)"
    unfolding rep_split using l h by auto
  have 4: "rep is_variant 1 ([v] @ d @ ''-'' @ e) = Some (d @ ''-'' @ e)"
    unfolding rep_split using l h by auto
  have 5: "rep is_hex 3 (d @ ''-'' @ e) = Some (''-'' @ e)"
    unfolding rep_split using l h by auto
  have 6: "rep is_hex 12 e = Some []"
    unfolding rep_split using l h by auto
  show "UUID_V4 s"
    unfolding UUID_V4_def
    using 1 2 3 4 5 6 by (simp add: andThen_def)
qed

text \<open>\<^verbatim>\<open>transmitEvent\<close> sends the same event on every attempt, at least once and at most
  four times, and reports success exactly when one of the four attempts succeeds.\<close>

lemma transmit_from_spec:
  "fst (transmit_from ok ev i k) = replicate (length (fst (transmit_from ok ev i k))) ev
   \<and> length (fst (transmit_from ok ev i k)) \<le> k
   \<and> (0 < k \<longrightarrow> 0 < length (fst (transmit_from ok ev i k)))
   \<and> snd (transmit_from ok ev i k) = (\<exists>j < k. ok (i + j))"
proof (induction ok ev i k rule: transmit_from.induct)
  case (1 ok ev attempt)
  then show ?case by simp
next
  case (2 ok ev attempt k)
  show ?case
  proof (cases "ok attempt")
    case True
    then show ?thesis by auto
  next
    case False
    have "(\<exists>j < Suc k. ok (attempt + j)) = (\<exists>j < k. ok (Suc attempt + j))"
    proof
      assume "\<exists>j < Suc k. ok (attempt + j)"
      then obtain j where j: "j < Suc k" "ok (attempt + j)" by blast
      with False have "j \<noteq> 0" by (cases j) auto
      then obtain j' where "j = Suc j'" by (cases j) auto
      with j show "\<exists>j < k. ok (Suc attempt + j)" by auto
    next
      assume "\<exists>j < k. ok (Suc attempt + j)"
      then obtain j where "j < k" "ok (Suc attempt + j)" by blast
      then have "Suc j < Suc k \<and> ok (attempt + Suc j)" by simp
      then show "\<exists>j < Suc k. ok (attempt + j)" by blast
    qed
    with 2 False show ?thesis by (auto split: prod.splits)
  qed
qed

theorem transmitEvent_retries:
  "fst (transmitEvent ok ev) = replicate (length (fst (transmitEvent ok ev))) ev
   \<and> fst (transmitEvent ok ev) \<noteq> []
   \<and> length (fst (transmitEvent ok ev)) \<le> 4
   \<and> snd (transmitEvent ok ev) = (ok 0 \<or> ok 1 \<or> ok 2 \<or> ok 3)"
proof -
  have k: "length retryDelays = 4" by (simp add: retryDelays_def)
  have j4: "\<And>j. j < (4::nat) \<longleftrightarrow> j = 0 \<or> j = 1 \<or> j = 2 \<or> j = 3" by auto
  have e: "(\<exists>j < 4. ok (0 + j)) = (ok 0 \<or> ok 1 \<or> ok 2 \<or> ok 3)"
    unfolding j4 by auto
  from transmit_from_spec[of ok ev 0 4]
  have a: "fst (transmit_from ok ev 0 4) = replicate (length (fst (transmit_from ok ev 0 4))) ev"
    and b: "length (fst (transmit_from ok ev 0 4)) \<le> 4"
    and c: "0 < length (fst (transmit_from ok ev 0 4))"
    and d: "snd (transmit_from ok ev 0 4) = (\<exists>j < 4. ok (0 + j))"
    by simp_all
  from c have c': "fst (transmit_from ok ev 0 4) \<noteq> []" by auto
  show ?thesis
    unfolding transmitEvent_def k
    using a b c' d[unfolded e] by blast
qed

end
